(* ===== verification/Agent_Prelude.thy ===== *)
theory Agent_Prelude
  imports Main "HOL-Library.Sublist"
begin

text \<open>
  Shared vocabulary of the development: the Python exceptions the agent can let escape, results
  as sums, the string operations of Python's \<^verbatim>\<open>str\<close> that the sources call, and the list and
  option lemmas that several components use.

  A Python \<^verbatim>\<open>str\<close> is a \<^typ>\<open>string\<close>, a list of 8-bit characters: the code points below 256.
\<close>

section \<open>Exceptions and results\<close>

text \<open>
  One constructor per exception class that the modelled code raises or lets pass. The string is
  the exception's text where the source reads it.
\<close>

datatype py_error =
    ValueError string
  | TypeError string
  | KeyError string
  | OverflowError
  | OSError string
  | RuntimeError string
  | UnicodeError
  | IndexError
  | AttributeError
  | ZeroDivisionError
  | SubprocessError string

type_synonym 'a result = "py_error + 'a"

abbreviation returns :: "'e + 'a \<Rightarrow> 'a \<Rightarrow> bool" where
  "returns m x \<equiv> m = Inr x"

abbreviation raises :: "'e + 'a \<Rightarrow> 'e \<Rightarrow> bool" where
  "raises m e \<equiv> m = Inl e"

text \<open>Sequencing: the rest of a function body runs only when the first part returned.\<close>

fun bind_result :: "'e + 'a \<Rightarrow> ('a \<Rightarrow> 'e + 'b) \<Rightarrow> 'e + 'b" where
  "bind_result (Inl e) f = Inl e"
| "bind_result (Inr x) f = f x"

fun map_result :: "('a \<Rightarrow> 'e + 'b) \<Rightarrow> 'a list \<Rightarrow> 'e + 'b list" where
  "map_result f [] = Inr []"
| "map_result f (x # xs) = bind_result (f x) (\<lambda>y. bind_result (map_result f xs) (\<lambda>ys. Inr (y # ys)))"

named_theorems store_simps \<open>equations of the job queue's operations\<close>
named_theorems step_intros \<open>introduction rules of the step relations\<close>

section \<open>Python string operations\<close>

definition py_truthy :: "string option \<Rightarrow> bool" where
  "py_truthy s = (case s of None \<Rightarrow> False | Some t \<Rightarrow> t \<noteq> [])"

definition starts_with :: "string \<Rightarrow> string \<Rightarrow> bool" where
  "starts_with p s \<longleftrightarrow> take (length p) s = p"

definition lower_char :: "char \<Rightarrow> char" where
  "lower_char c =
     (let n = (of_char c :: nat)
      in if 65 \<le> n \<and> n \<le> 90 \<or> 192 \<le> n \<and> n \<le> 222 \<and> n \<noteq> 215 then char_of (n + 32) else c)"

definition py_lower :: "string \<Rightarrow> string" where
  "py_lower = map lower_char"

text \<open>The white space that \<^verbatim>\<open>str.strip\<close> removes.\<close>

definition is_space :: "char \<Rightarrow> bool" where
  "is_space c \<longleftrightarrow> (of_char c :: nat) \<in> {9, 10, 11, 12, 13, 28, 29, 30, 31, 32, 133, 160}"

definition py_strip :: "string \<Rightarrow> string" where
  "py_strip s = rev (dropWhile is_space (rev (dropWhile is_space s)))"

text \<open>\<^verbatim>\<open>s.partition(c)\<close> for a one-character separator: what precedes the first occurrence, whether
  there is one, and what follows it.\<close>

definition partition_at :: "char \<Rightarrow> string \<Rightarrow> string \<times> bool \<times> string" where
  "partition_at c s =
     (let pre = takeWhile (\<lambda>x. x \<noteq> c) s; post = dropWhile (\<lambda>x. x \<noteq> c) s
      in (pre, post \<noteq> [], tl post))"

text \<open>\<^verbatim>\<open>str(n)\<close> of an integer.\<close>

fun nat_digits :: "nat \<Rightarrow> string" where
  "nat_digits n = (if n < 10 then [char_of (48 + n)] else nat_digits (n div 10) @ [char_of (48 + n mod 10)])"

declare nat_digits.simps [simp del]

definition int_digits :: "int \<Rightarrow> string" where
  "int_digits i = (if i < 0 then ''-'' @ nat_digits (nat (- i)) else nat_digits (nat i))"

text \<open>\<^verbatim>\<open>sep.join(parts)\<close>\<close>

fun py_join :: "string \<Rightarrow> string list \<Rightarrow> string" where
  "py_join sep [] = []"
| "py_join sep [s] = s"
| "py_join sep (s # t # ts) = s @ sep @ py_join sep (t # ts)"

text \<open>\<^verbatim>\<open>s.splitlines()\<close>\<close>

definition is_linebreak :: "char \<Rightarrow> bool" where
  "is_linebreak c \<longleftrightarrow> (of_char c :: nat) \<in> {10, 11, 12, 13, 28, 29, 30, 133}"

function split_lines :: "string \<Rightarrow> string \<Rightarrow> string list" where
  "split_lines cur [] = (if cur = [] then [] else [rev cur])"
| "split_lines cur (c # cs) =
     (if is_linebreak c
      then rev cur # split_lines []
             (if (of_char c :: nat) = 13 \<and> cs \<noteq> [] \<and> (of_char (hd cs) :: nat) = 10 then tl cs else cs)
      else split_lines (c # cur) cs)"
  by pat_completeness auto
termination
  by (relation "measure (\<lambda>(_, s). length s)") auto

definition py_splitlines :: "string \<Rightarrow> string list" where
  "py_splitlines s = split_lines [] s"

section \<open>Shared lemmas\<close>

lemma bind_result_eq_Inr [simp]:
  "bind_result m f = Inr y \<longleftrightarrow> (\<exists>x. m = Inr x \<and> f x = Inr y)"
  by (cases m) auto

lemma bind_result_eq_Inl:
  "bind_result m f = Inl e \<longleftrightarrow> m = Inl e \<or> (\<exists>x. m = Inr x \<and> f x = Inl e)"
  by (cases m) auto

lemma map_result_mem: "map_result f xs = Inr ys \<Longrightarrow> y \<in> set ys \<Longrightarrow> \<exists>x \<in> set xs. f x = Inr y"
  by (induction xs arbitrary: ys) auto

lemma map_result_map: "list_all (\<lambda>x. f x = Inr (g x)) xs \<Longrightarrow> map_result f xs = Inr (map g xs)"
  by (induction xs) auto

lemma starts_with_iff: "starts_with p s \<longleftrightarrow> (\<exists>r. s = p @ r)"
  unfolding starts_with_def
  by (metis append_eq_conv_conj append_take_drop_id)

lemma starts_with_append [simp]: "starts_with p (p @ r)"
  by (auto simp: starts_with_iff)

lemma find_map_key:
  "(\<And>x. k (f x) = k x) \<Longrightarrow> find (\<lambda>x. k x = a) (map f xs) = map_option f (find (\<lambda>x. k x = a) xs)"
  by (induction xs) auto

lemma find_append: "find P (xs @ ys) = (case find P xs of None \<Rightarrow> find P ys | Some x \<Rightarrow> Some x)"
  by (induction xs) auto

lemma find_key_None_iff: "find (\<lambda>x. k x = a) xs = None \<longleftrightarrow> a \<notin> k ` set xs"
  by (induction xs) auto

lemma find_key_SomeD: "find (\<lambda>x. k x = a) xs = Some x \<Longrightarrow> x \<in> set xs \<and> k x = a"
  by (induction xs) (auto split: if_splits)

lemma find_key_distinct:
  "distinct (map k xs) \<Longrightarrow> x \<in> set xs \<Longrightarrow> find (\<lambda>y. k y = k x) xs = Some x"
  by (induction xs) (auto simp: rev_image_eqI)

lemma map_option_Some_iff: "map_option f m = Some y \<longleftrightarrow> (\<exists>x. m = Some x \<and> f x = y)"
  by (cases m) auto

lemma takeWhile_until [simp]:
  "c \<notin> set s \<Longrightarrow> takeWhile (\<lambda>x. x \<noteq> c) s = s"
  "c \<notin> set s \<Longrightarrow> dropWhile (\<lambda>x. x \<noteq> c) s = []"
  by (induction s) auto

lemma takeWhile_until_hit [simp]:
  "c \<notin> set p \<Longrightarrow> takeWhile (\<lambda>x. x \<noteq> c) (p @ c # q) = p"
  "c \<notin> set p \<Longrightarrow> dropWhile (\<lambda>x. x \<noteq> c) (p @ c # q) = c # q"
  by (induction p) auto

lemma partition_at_fst: "fst (partition_at c s) = takeWhile (\<lambda>x. x \<noteq> c) s"
  by (simp add: partition_at_def Let_def)

lemma partition_at_absent: "c \<notin> set s \<Longrightarrow> partition_at c s = (s, False, [])"
  by (simp add: partition_at_def)

lemma partition_at_found: "c \<notin> set p \<Longrightarrow> partition_at c (p @ c # q) = (p, True, q)"
  by (simp add: partition_at_def)

lemma split_lines_line:
  "list_all (\<lambda>c. \<not> is_linebreak c) s \<Longrightarrow> is_linebreak n \<Longrightarrow> (of_char n :: nat) \<noteq> 13 \<Longrightarrow>
     split_lines cur (s @ n # rest) = (rev cur @ s) # split_lines [] rest"
  by (induction s arbitrary: cur) auto

lemma py_splitlines_nl:
  "list_all (\<lambda>c. \<not> is_linebreak c) s \<Longrightarrow>
     py_splitlines (s @ char_of (10 :: nat) # rest) = s # py_splitlines rest"
  using split_lines_line [of s "char_of (10 :: nat)" "[]" rest]
  by (simp add: py_splitlines_def is_linebreak_def)

end
