(* ===== verification/State_Machine.thy ===== *)
theory State_Machine
  imports Agent_Prelude
begin

text \<open>
  The print job life cycle of \<^verbatim>\<open>eres_print_agent/state_machine.py\<close>: the seven statuses, their text
  values (the enum is a \<^verbatim>\<open>str\<close> enum, and the text is what SQLite stores), the table of legal
  transitions and the terminal statuses. The lemmas show that the table is a finite-lifetime
  machine: the terminal statuses are exactly the ones without an exit, and every chain of real
  transitions has at most four steps.
\<close>

section \<open>Statuses\<close>

datatype PrintJobStatus =
    QUEUED | RECEIVED | PRINTING | COMPLETED | FAILED | CANCELLED | WAITING_FOR_PRINTER

fun status_value :: "PrintJobStatus \<Rightarrow> string" where
  "status_value QUEUED = ''QUEUED''"
| "status_value RECEIVED = ''RECEIVED''"
| "status_value PRINTING = ''PRINTING''"
| "status_value COMPLETED = ''COMPLETED''"
| "status_value FAILED = ''FAILED''"
| "status_value CANCELLED = ''CANCELLED''"
| "status_value WAITING_FOR_PRINTER = ''WAITING_FOR_PRINTER''"

instantiation PrintJobStatus :: enum
begin

definition enum_PrintJobStatus :: "PrintJobStatus list" where
  "enum_PrintJobStatus =
     [QUEUED, RECEIVED, PRINTING, COMPLETED, FAILED, CANCELLED, WAITING_FOR_PRINTER]"

definition enum_all_PrintJobStatus :: "(PrintJobStatus \<Rightarrow> bool) \<Rightarrow> bool" where
  "enum_all_PrintJobStatus P \<longleftrightarrow>
     list_all P [QUEUED, RECEIVED, PRINTING, COMPLETED, FAILED, CANCELLED, WAITING_FOR_PRINTER]"

definition enum_ex_PrintJobStatus :: "(PrintJobStatus \<Rightarrow> bool) \<Rightarrow> bool" where
  "enum_ex_PrintJobStatus P \<longleftrightarrow>
     list_ex P [QUEUED, RECEIVED, PRINTING, COMPLETED, FAILED, CANCELLED, WAITING_FOR_PRINTER]"

instance
proof
  have univ: "x \<in> set enum_class.enum" for x :: PrintJobStatus
    by (cases x) (simp_all add: enum_PrintJobStatus_def)
  then show "UNIV = set (enum_class.enum :: PrintJobStatus list)" by auto
  show "distinct (enum_class.enum :: PrintJobStatus list)"
    by (simp add: enum_PrintJobStatus_def)
  show "enum_class.enum_all P \<longleftrightarrow> Ball UNIV P" for P :: "PrintJobStatus \<Rightarrow> bool"
    by (simp add: enum_all_PrintJobStatus_def) (metis PrintJobStatus.exhaust)
  show "enum_class.enum_ex P \<longleftrightarrow> Bex UNIV P" for P :: "PrintJobStatus \<Rightarrow> bool"
    by (simp add: enum_ex_PrintJobStatus_def) (metis PrintJobStatus.exhaust)
qed

end

text \<open>\<^verbatim>\<open>PrintJobStatus(text)\<close>, the enum's constructor call: the member with that value, or
  \<^verbatim>\<open>ValueError\<close>.\<close>

definition status_of_value :: "string \<Rightarrow> PrintJobStatus result" where
  "status_of_value v =
     (case find (\<lambda>s. status_value s = v) enum_class.enum of
        None \<Rightarrow> Inl (ValueError v) | Some s \<Rightarrow> Inr s)"

section \<open>Transitions\<close>

fun LEGAL_TRANSITIONS :: "PrintJobStatus \<Rightarrow> PrintJobStatus set" where
  "LEGAL_TRANSITIONS QUEUED = {RECEIVED, CANCELLED}"
| "LEGAL_TRANSITIONS RECEIVED = {PRINTING, WAITING_FOR_PRINTER, FAILED, CANCELLED}"
| "LEGAL_TRANSITIONS WAITING_FOR_PRINTER = {PRINTING, FAILED, CANCELLED}"
| "LEGAL_TRANSITIONS PRINTING = {COMPLETED, FAILED}"
| "LEGAL_TRANSITIONS COMPLETED = {}"
| "LEGAL_TRANSITIONS FAILED = {}"
| "LEGAL_TRANSITIONS CANCELLED = {}"

definition TERMINAL_STATUSES :: "PrintJobStatus set" where
  "TERMINAL_STATUSES = {COMPLETED, FAILED, CANCELLED}"

definition is_legal_transition :: "PrintJobStatus \<Rightarrow> PrintJobStatus \<Rightarrow> bool" where
  "is_legal_transition current next_status \<longleftrightarrow>
     (if current = next_status then True else next_status \<in> LEGAL_TRANSITIONS current)"

definition is_terminal :: "PrintJobStatus \<Rightarrow> bool" where
  "is_terminal status \<longleftrightarrow> status \<in> TERMINAL_STATUSES"

text \<open>How many real transitions a job in this status can still make, at most.\<close>

fun remaining_life :: "PrintJobStatus \<Rightarrow> nat" where
  "remaining_life QUEUED = 4"
| "remaining_life RECEIVED = 3"
| "remaining_life WAITING_FOR_PRINTER = 2"
| "remaining_life PRINTING = 1"
| "remaining_life COMPLETED = 0"
| "remaining_life FAILED = 0"
| "remaining_life CANCELLED = 0"

text \<open>A list of statuses in which each differs from the one before and is a legal successor.\<close>

fun legal_chain :: "PrintJobStatus \<Rightarrow> PrintJobStatus list \<Rightarrow> bool" where
  "legal_chain s [] \<longleftrightarrow> True"
| "legal_chain s (t # ts) \<longleftrightarrow> s \<noteq> t \<and> is_legal_transition s t \<and> legal_chain t ts"

section \<open>Properties\<close>

lemma status_value_inj [simp]: "status_value s = status_value t \<longleftrightarrow> s = t"
  by (cases s; cases t) simp_all

lemma status_of_value_status_value [simp]: "status_of_value (status_value s) = Inr s"
  by (cases s) (simp_all add: status_of_value_def enum_PrintJobStatus_def)

declare status_value.simps [simp del]

lemma status_of_value_Inr: "status_of_value v = Inr s \<longleftrightarrow> v = status_value s"
proof
  show "status_of_value v = Inr s \<Longrightarrow> v = status_value s"
    by (auto simp: status_of_value_def dest!: find_key_SomeD split: option.splits)
qed simp

lemma is_legal_refl [simp]: "is_legal_transition s s"
  by (simp add: is_legal_transition_def)

lemma is_terminal_simps [simp]:
  "is_terminal COMPLETED" "is_terminal FAILED" "is_terminal CANCELLED"
  "\<not> is_terminal QUEUED" "\<not> is_terminal RECEIVED" "\<not> is_terminal PRINTING"
  "\<not> is_terminal WAITING_FOR_PRINTER"
  by (simp_all add: is_terminal_def TERMINAL_STATUSES_def)

lemma legal_step_decreases:
  "is_legal_transition s t \<Longrightarrow> s \<noteq> t \<Longrightarrow> remaining_life t < remaining_life s"
  by (cases s; cases t) (simp_all add: is_legal_transition_def)

lemma legal_chain_bound: "legal_chain s ts \<Longrightarrow> length ts \<le> remaining_life s"
proof (induction ts arbitrary: s)
  case Nil
  then show ?case by simp
next
  case (Cons t ts)
  then have "length ts \<le> remaining_life t" and "remaining_life t < remaining_life s"
    by (auto intro: legal_step_decreases)
  then show ?case by simp
qed

lemma remaining_life_le: "remaining_life s \<le> 4"
  by (cases s) simp_all

text \<open>
  A status is terminal exactly when the transition table lets it go nowhere: the only legal
  transition out of it is the idempotent resend.
\<close>

theorem terminal_iff_stuck: "is_terminal s \<longleftrightarrow> {t. is_legal_transition s t} = {s}"
proof -
  have "is_legal_transition COMPLETED t \<longleftrightarrow> t = COMPLETED" "is_legal_transition FAILED t \<longleftrightarrow> t = FAILED"
    "is_legal_transition CANCELLED t \<longleftrightarrow> t = CANCELLED" for t
    by (auto simp: is_legal_transition_def)
  moreover have "is_legal_transition QUEUED RECEIVED" "is_legal_transition RECEIVED PRINTING"
    "is_legal_transition WAITING_FOR_PRINTER PRINTING" "is_legal_transition PRINTING COMPLETED"
    by (simp_all add: is_legal_transition_def)
  ultimately show ?thesis by (cases s) (auto simp: set_eq_iff)
qed

text \<open>
  The life of a job is finite: a run of real transitions that the table allows has at most four
  steps, so there is no cycle among the statuses.
\<close>

theorem job_life_bounded:
  assumes "legal_chain s ts"
  shows "length ts \<le> 4 \<and> distinct (s # ts)"
proof -
  have "remaining_life t < remaining_life s" if "legal_chain s ts" "t \<in> set ts" for s t ts
    using that by (induction ts arbitrary: s) (auto dest: legal_step_decreases less_trans)
  then have fresh: "s \<notin> set ts" if "legal_chain s ts" for s ts using that less_irrefl by blast
  have "legal_chain s ts \<Longrightarrow> distinct (s # ts)" for s ts
  proof (induction ts arbitrary: s)
    case (Cons t ts)
    then show ?case using fresh [OF Cons.prems] by auto
  qed simp
  with assms legal_chain_bound [OF assms] remaining_life_le [of s] show ?thesis by auto
qed

theorem job_life_bounded_witness:
  "length [RECEIVED, WAITING_FOR_PRINTER, PRINTING, COMPLETED] \<le> 4 \<and>
   distinct [QUEUED, RECEIVED, WAITING_FOR_PRINTER, PRINTING, COMPLETED]"
proof -
  have "legal_chain QUEUED [RECEIVED, WAITING_FOR_PRINTER, PRINTING, COMPLETED]"
    by (simp add: is_legal_transition_def)
  from job_life_bounded [OF this] show ?thesis by simp
qed

end
