(* ===== verification/Queue_Store.thy ===== *)
theory Queue_Store
  imports State_Machine
begin

text \<open>
  The SQLite job queue of \<^verbatim>\<open>eres_print_agent/db/queue_store.py\<close> and \<^verbatim>\<open>db/schema.sql\<close>. The table
  \<^verbatim>\<open>print_jobs\<close> is the list of its rows in insertion order; every method of \<^verbatim>\<open>QueueStore\<close> holds the
  lock for its whole SQL, so each is one function on the table. The clock reading \<^verbatim>\<open>_now_iso()\<close> is
  an argument. SQLite's INTEGER is 64 bits wide and Python's \<^verbatim>\<open>int\<close> is not: binding a larger value
  raises \<^verbatim>\<open>OverflowError\<close>. Reading a row back parses the status text, which raises \<^verbatim>\<open>ValueError\<close>
  for a text that is no status. SQLite itself is taken not to fail.

  Shown here: the table invariant and that every operation keeps it, the behaviour of each
  operation on every branch, that the table refines a map from job ids to records, and, once for
  every store with that contract, that jobs never disappear and that crash recovery leaves no job
  printing.
\<close>

section \<open>Rows and records\<close>

record print_job_row =
  col_job_id :: string
  col_printer_local_id :: string
  col_document_type :: string
  col_document_id :: string
  col_document_url :: string
  col_copies :: int
  col_status :: string
  col_error_code :: "string option"
  col_error_message :: "string option"
  col_local_file_path :: "string option"
  col_attempts :: int
  col_received_at :: "string option"
  col_started_at :: "string option"
  col_completed_at :: "string option"
  col_failed_at :: "string option"
  col_cancelled_at :: "string option"
  col_created_at :: string
  col_updated_at :: string

type_synonym store = "print_job_row list"

record PrintJobRecord =
  jr_job_id :: string
  jr_printer_local_id :: string
  jr_document_type :: string
  jr_document_id :: string
  jr_document_url :: string
  jr_copies :: int
  jr_status :: PrintJobStatus
  jr_error_code :: "string option"
  jr_error_message :: "string option"
  jr_local_file_path :: "string option"
  jr_attempts :: int

definition record_is_terminal :: "PrintJobRecord \<Rightarrow> bool" where
  "record_is_terminal r \<longleftrightarrow> is_terminal (jr_status r)"

definition row_record :: "PrintJobStatus \<Rightarrow> print_job_row \<Rightarrow> PrintJobRecord" where
  "row_record s row =
     \<lparr>jr_job_id = col_job_id row, jr_printer_local_id = col_printer_local_id row,
      jr_document_type = col_document_type row, jr_document_id = col_document_id row,
      jr_document_url = col_document_url row, jr_copies = col_copies row, jr_status = s,
      jr_error_code = col_error_code row, jr_error_message = col_error_message row,
      jr_local_file_path = col_local_file_path row, jr_attempts = col_attempts row\<rparr>"

definition row_to_record :: "print_job_row \<Rightarrow> PrintJobRecord result" where
  "row_to_record row =
     (case status_of_value (col_status row) of
        Inl e \<Rightarrow> Inl e
      | Inr s \<Rightarrow> Inr (row_record s row))"

text \<open>Which time stamp column a status writes.\<close>

datatype stamp_field = Received_at | Started_at | Completed_at | Failed_at | Cancelled_at

fun TIMESTAMP_FIELD_BY_STATUS :: "PrintJobStatus \<Rightarrow> stamp_field option" where
  "TIMESTAMP_FIELD_BY_STATUS RECEIVED = Some Received_at"
| "TIMESTAMP_FIELD_BY_STATUS PRINTING = Some Started_at"
| "TIMESTAMP_FIELD_BY_STATUS COMPLETED = Some Completed_at"
| "TIMESTAMP_FIELD_BY_STATUS FAILED = Some Failed_at"
| "TIMESTAMP_FIELD_BY_STATUS CANCELLED = Some Cancelled_at"
| "TIMESTAMP_FIELD_BY_STATUS _ = None"

fun get_stamp :: "stamp_field \<Rightarrow> print_job_row \<Rightarrow> string option" where
  "get_stamp Received_at r = col_received_at r"
| "get_stamp Started_at r = col_started_at r"
| "get_stamp Completed_at r = col_completed_at r"
| "get_stamp Failed_at r = col_failed_at r"
| "get_stamp Cancelled_at r = col_cancelled_at r"

fun set_stamp :: "stamp_field \<Rightarrow> string \<Rightarrow> print_job_row \<Rightarrow> print_job_row" where
  "set_stamp Received_at t r = r\<lparr>col_received_at := Some t\<rparr>"
| "set_stamp Started_at t r = r\<lparr>col_started_at := Some t\<rparr>"
| "set_stamp Completed_at t r = r\<lparr>col_completed_at := Some t\<rparr>"
| "set_stamp Failed_at t r = r\<lparr>col_failed_at := Some t\<rparr>"
| "set_stamp Cancelled_at t r = r\<lparr>col_cancelled_at := Some t\<rparr>"

section \<open>The operations\<close>

definition int64_min :: int where "int64_min = - (2 ^ 63)"
definition int64_max :: int where "int64_max = 2 ^ 63 - 1"

definition fits_int64 :: "int \<Rightarrow> bool" where
  "fits_int64 n \<longleftrightarrow> int64_min \<le> n \<and> n \<le> int64_max"

definition find_row :: "store \<Rightarrow> string \<Rightarrow> print_job_row option" where
  "find_row st j = find (\<lambda>r. col_job_id r = j) st"

definition get :: "store \<Rightarrow> string \<Rightarrow> PrintJobRecord option result" where
  "get st j =
     (case find_row st j of
        None \<Rightarrow> Inr None
      | Some row \<Rightarrow> (case row_to_record row of Inl e \<Rightarrow> Inl e | Inr r \<Rightarrow> Inr (Some r)))"

text \<open>\<^verbatim>\<open>INSERT OR IGNORE\<close> on the primary key, and \<^verbatim>\<open>cursor.rowcount == 1\<close> as the result.\<close>

definition insert_received ::
  "string \<Rightarrow> string \<Rightarrow> string \<Rightarrow> string \<Rightarrow> string \<Rightarrow> string \<Rightarrow> int \<Rightarrow> store \<Rightarrow> (bool \<times> store) result"
where
  "insert_received now j printer dtype did url n st =
     (if \<not> fits_int64 n then Inl OverflowError
      else if find_row st j \<noteq> None then Inr (False, st)
      else Inr (True, st @
        [\<lparr>col_job_id = j, col_printer_local_id = printer, col_document_type = dtype,
          col_document_id = did, col_document_url = url, col_copies = n,
          col_status = status_value RECEIVED, col_error_code = None, col_error_message = None,
          col_local_file_path = None, col_attempts = 0, col_received_at = Some now,
          col_started_at = None, col_completed_at = None, col_failed_at = None,
          col_cancelled_at = None, col_created_at = now, col_updated_at = now\<rparr>]))"

text \<open>The \<^verbatim>\<open>SET\<close> clause of \<^verbatim>\<open>update_status\<close>: an absent error code or message leaves its column as
  it is, and a status without a time stamp column stamps nothing but \<^verbatim>\<open>updated_at\<close>.\<close>

definition set_status_clause ::
  "string \<Rightarrow> PrintJobStatus \<Rightarrow> string option \<Rightarrow> string option \<Rightarrow> print_job_row \<Rightarrow> print_job_row"
where
  "set_status_clause now s ecode emsg r =
     (let r1 = r\<lparr>col_status := status_value s, col_attempts := col_attempts r + 1,
                 col_updated_at := now\<rparr>;
          r2 = (case ecode of None \<Rightarrow> r1 | Some c \<Rightarrow> r1\<lparr>col_error_code := Some c\<rparr>);
          r3 = (case emsg of None \<Rightarrow> r2 | Some m \<Rightarrow> r2\<lparr>col_error_message := Some m\<rparr>)
      in case TIMESTAMP_FIELD_BY_STATUS s of None \<Rightarrow> r3 | Some f \<Rightarrow> set_stamp f now r3)"

definition update_where :: "string \<Rightarrow> (print_job_row \<Rightarrow> print_job_row) \<Rightarrow> store \<Rightarrow> store" where
  "update_where j f = map (\<lambda>r. if col_job_id r = j then f r else r)"

definition update_status ::
  "string \<Rightarrow> string \<Rightarrow> PrintJobStatus \<Rightarrow> string option \<Rightarrow> string option \<Rightarrow> store \<Rightarrow> store" where
  "update_status now j s ecode emsg = update_where j (set_status_clause now s ecode emsg)"

definition set_local_file_path :: "string \<Rightarrow> string \<Rightarrow> string \<Rightarrow> store \<Rightarrow> store" where
  "set_local_file_path now j path =
     update_where j (\<lambda>r. r\<lparr>col_local_file_path := Some path, col_updated_at := now\<rparr>)"

fun rows_to_records :: "print_job_row list \<Rightarrow> PrintJobRecord list result" where
  "rows_to_records [] = Inr []"
| "rows_to_records (row # rows) =
     (case row_to_record row of
        Inl e \<Rightarrow> Inl e
      | Inr r \<Rightarrow> (case rows_to_records rows of Inl e \<Rightarrow> Inl e | Inr rs \<Rightarrow> Inr (r # rs)))"

definition list_non_terminal :: "store \<Rightarrow> PrintJobRecord list result" where
  "list_non_terminal st = rows_to_records
     (filter (\<lambda>r. col_status r \<notin> {status_value COMPLETED, status_value FAILED, status_value CANCELLED}) st)"

definition RESTARTED_CODE :: string where
  "RESTARTED_CODE = ''AGENT_RESTARTED_DURING_PRINT''"

definition RESTARTED_MESSAGE :: string where
  "RESTARTED_MESSAGE = ''The agent restarted while this job was printing.''"

definition restart_clause :: "string \<Rightarrow> print_job_row \<Rightarrow> print_job_row" where
  "restart_clause now r =
     r\<lparr>col_status := status_value FAILED, col_error_code := Some RESTARTED_CODE,
       col_error_message := Some RESTARTED_MESSAGE, col_failed_at := Some now,
       col_updated_at := now, col_attempts := col_attempts r + 1\<rparr>"

definition mark_stuck_printing_as_failed :: "string \<Rightarrow> store \<Rightarrow> string list \<times> store" where
  "mark_stuck_printing_as_failed now st =
     (let job_ids = map col_job_id (filter (\<lambda>r. col_status r = status_value PRINTING) st)
      in if job_ids = [] then (job_ids, st)
         else (job_ids, fold (\<lambda>j. update_where j (restart_clause now)) job_ids st))"

section \<open>Invariant and abstraction\<close>

definition row_wf :: "print_job_row \<Rightarrow> bool" where
  "row_wf r \<longleftrightarrow>
     (case status_of_value (col_status r) of
        Inl _ \<Rightarrow> False
      | Inr s \<Rightarrow> (case TIMESTAMP_FIELD_BY_STATUS s of None \<Rightarrow> True | Some f \<Rightarrow> get_stamp f r \<noteq> None))
     \<and> fits_int64 (col_copies r) \<and> 0 \<le> col_attempts r \<and> get_stamp Received_at r \<noteq> None"

definition store_wf :: "store \<Rightarrow> bool" where
  "store_wf st \<longleftrightarrow> distinct (map col_job_id st) \<and> list_all row_wf st"

definition row_status :: "print_job_row \<Rightarrow> PrintJobStatus option" where
  "row_status r = (case status_of_value (col_status r) of Inl _ \<Rightarrow> None | Inr s \<Rightarrow> Some s)"

text \<open>The abstract queue: the record stored under each job id.\<close>

definition view :: "store \<Rightarrow> string \<rightharpoonup> PrintJobRecord" where
  "view st j =
     (case find_row st j of
        None \<Rightarrow> None
      | Some row \<Rightarrow> (case row_to_record row of Inl _ \<Rightarrow> None | Inr r \<Rightarrow> Some r))"

definition job_status :: "store \<Rightarrow> string \<rightharpoonup> PrintJobStatus" where
  "job_status st j = map_option jr_status (view st j)"

section \<open>Row lemmas\<close>

lemma set_stamp_sel [simp]:
  "col_job_id (set_stamp f t r) = col_job_id r"
  "col_printer_local_id (set_stamp f t r) = col_printer_local_id r"
  "col_document_type (set_stamp f t r) = col_document_type r"
  "col_document_id (set_stamp f t r) = col_document_id r"
  "col_document_url (set_stamp f t r) = col_document_url r"
  "col_copies (set_stamp f t r) = col_copies r"
  "col_status (set_stamp f t r) = col_status r"
  "col_error_code (set_stamp f t r) = col_error_code r"
  "col_error_message (set_stamp f t r) = col_error_message r"
  "col_local_file_path (set_stamp f t r) = col_local_file_path r"
  "col_attempts (set_stamp f t r) = col_attempts r"
  "col_created_at (set_stamp f t r) = col_created_at r"
  "col_updated_at (set_stamp f t r) = col_updated_at r"
  by (cases f; simp)+

lemma get_set_stamp [simp]:
  "get_stamp g (set_stamp f t r) = (if g = f then Some t else get_stamp g r)"
  by (cases f; cases g) simp_all

lemma set_status_clause_sel [simp]:
  "col_job_id (set_status_clause now s ec em r) = col_job_id r"
  "col_printer_local_id (set_status_clause now s ec em r) = col_printer_local_id r"
  "col_document_type (set_status_clause now s ec em r) = col_document_type r"
  "col_document_id (set_status_clause now s ec em r) = col_document_id r"
  "col_document_url (set_status_clause now s ec em r) = col_document_url r"
  "col_copies (set_status_clause now s ec em r) = col_copies r"
  "col_status (set_status_clause now s ec em r) = status_value s"
  "col_error_code (set_status_clause now s ec em r) = (case ec of None \<Rightarrow> col_error_code r | Some c \<Rightarrow> Some c)"
  "col_error_message (set_status_clause now s ec em r) =
     (case em of None \<Rightarrow> col_error_message r | Some m \<Rightarrow> Some m)"
  "col_local_file_path (set_status_clause now s ec em r) = col_local_file_path r"
  "col_attempts (set_status_clause now s ec em r) = col_attempts r + 1"
  "col_updated_at (set_status_clause now s ec em r) = now"
  by (simp_all add: set_status_clause_def Let_def split: option.splits)

lemma get_stamp_update [simp]:
  "get_stamp f (r\<lparr>col_status := a\<rparr>) = get_stamp f r"
  "get_stamp f (r\<lparr>col_attempts := i\<rparr>) = get_stamp f r"
  "get_stamp f (r\<lparr>col_updated_at := t\<rparr>) = get_stamp f r"
  "get_stamp f (r\<lparr>col_error_code := c\<rparr>) = get_stamp f r"
  "get_stamp f (r\<lparr>col_error_message := c\<rparr>) = get_stamp f r"
  "get_stamp f (r\<lparr>col_local_file_path := c\<rparr>) = get_stamp f r"
  by (cases f; simp)+

lemma get_stamp_set_status_clause:
  "get_stamp f (set_status_clause now s ec em r) =
     (if TIMESTAMP_FIELD_BY_STATUS s = Some f then Some now else get_stamp f r)"
  by (simp add: set_status_clause_def Let_def del: get_stamp.simps split: option.splits)

lemma restart_clause_eq:
  "restart_clause now = set_status_clause now FAILED (Some RESTARTED_CODE) (Some RESTARTED_MESSAGE)"
  by (rule ext) (simp add: restart_clause_def set_status_clause_def)

lemma row_wf_set_status_clause: "row_wf r \<Longrightarrow> row_wf (set_status_clause now s ec em r)"
  unfolding row_wf_def by (auto simp del: get_stamp.simps simp: get_stamp_set_status_clause split: option.splits)

lemma row_wf_set_path:
  "row_wf (r\<lparr>col_local_file_path := p, col_updated_at := t\<rparr>) = row_wf r"
  unfolding row_wf_def by (auto simp del: get_stamp.simps split: sum.splits option.splits)

lemma row_to_record_wf: "row_wf r \<Longrightarrow> \<exists>s. status_of_value (col_status r) = Inr s \<and> row_to_record r = Inr (row_record s r)"
  by (auto simp: row_wf_def row_to_record_def split: sum.splits)

lemma row_record_sel [simp]:
  "jr_job_id (row_record s r) = col_job_id r"
  "jr_printer_local_id (row_record s r) = col_printer_local_id r"
  "jr_document_url (row_record s r) = col_document_url r"
  "jr_copies (row_record s r) = col_copies r"
  "jr_status (row_record s r) = s"
  "jr_error_code (row_record s r) = col_error_code r"
  "jr_error_message (row_record s r) = col_error_message r"
  "jr_local_file_path (row_record s r) = col_local_file_path r"
  "jr_attempts (row_record s r) = col_attempts r"
  by (simp_all add: row_record_def)

section \<open>Table lemmas\<close>

lemma find_row_update_where [store_simps]:
  assumes "\<And>r. col_job_id (f r) = col_job_id r"
  shows "find_row (update_where j f st) k =
           (if k = j then map_option f (find_row st j) else find_row st k)"
  using assms unfolding find_row_def update_where_def by (induction st) auto

lemma map_id_update_where [simp]:
  "(\<And>r. col_job_id (f r) = col_job_id r) \<Longrightarrow> map col_job_id (update_where j f st) = map col_job_id st"
  by (induction st) (auto simp: update_where_def)

lemma store_wf_update_where:
  assumes "\<And>r. col_job_id (f r) = col_job_id r" and "\<And>r. row_wf r \<Longrightarrow> row_wf (f r)" and "store_wf st"
  shows "store_wf (update_where j f st)"
proof -
  have "list_all row_wf (update_where j f st)"
    using assms(2,3) by (auto simp: store_wf_def update_where_def list_all_iff)
  with assms(1,3) show ?thesis by (simp add: store_wf_def)
qed

lemma find_row_wf: "store_wf st \<Longrightarrow> find_row st j = Some r \<Longrightarrow> row_wf r \<and> col_job_id r = j"
  by (auto simp: store_wf_def find_row_def list_all_iff dest!: find_key_SomeD)

lemma view_SomeD:
  "view st j = Some rec \<Longrightarrow>
     \<exists>r s. find_row st j = Some r \<and> status_of_value (col_status r) = Inr s \<and> rec = row_record s r"
  by (auto simp: view_def row_to_record_def split: option.splits sum.splits)

lemma get_view: "store_wf st \<Longrightarrow> get st j = Inr (view st j)"
  by (auto simp: get_def view_def split: option.splits sum.splits dest!: find_row_wf row_to_record_wf)

lemma view_None_iff: "store_wf st \<Longrightarrow> view st j = None \<longleftrightarrow> find_row st j = None"
  by (auto simp: view_def split: option.splits sum.splits dest!: find_row_wf row_to_record_wf)

lemma job_status_find_row:
  "job_status st j = Option.bind (find_row st j) row_status"
  by (auto simp: job_status_def view_def row_status_def row_to_record_def split: option.splits sum.splits)

lemma store_wf_update_status [intro]: "store_wf st \<Longrightarrow> store_wf (update_status now j s ec em st)"
  unfolding update_status_def by (rule store_wf_update_where) (auto intro: row_wf_set_status_clause)

lemma store_wf_set_local_file_path [intro]: "store_wf st \<Longrightarrow> store_wf (set_local_file_path now j p st)"
  unfolding set_local_file_path_def by (rule store_wf_update_where) (auto simp: row_wf_set_path)

lemma store_wf_insert_received:
  "store_wf st \<Longrightarrow> insert_received now j p dt di u n st = Inr (b, st') \<Longrightarrow> store_wf st'"
  by (auto simp: insert_received_def store_wf_def row_wf_def find_row_def find_key_None_iff
      split: if_splits)

lemma fold_update_where:
  assumes "\<And>r. col_job_id (f r) = col_job_id r"
  shows "distinct js \<Longrightarrow>
    fold (\<lambda>j. update_where j f) js st = map (\<lambda>r. if col_job_id r \<in> set js then f r else r) st"
proof (induction js arbitrary: st)
  case (Cons j js)
  then show ?case by (auto simp: update_where_def assms)
qed simp

lemma mark_stuck_rows:
  assumes "store_wf st"
  shows "snd (mark_stuck_printing_as_failed now st) =
    map (\<lambda>r. if col_status r = status_value PRINTING then restart_clause now r else r) st"
    (is "_ = map ?g st")
proof -
  let ?P = "\<lambda>r. col_status r = status_value PRINTING"
  let ?ids = "map col_job_id (filter ?P st)"
  have dist: "distinct (map col_job_id st)" using assms by (simp add: store_wf_def)
  have "distinct ?ids" using dist by (rule distinct_map_filter)
  then have "fold (\<lambda>j. update_where j (restart_clause now)) ?ids st =
      map (\<lambda>r. if col_job_id r \<in> set ?ids then restart_clause now r else r) st"
    by (intro fold_update_where) (simp_all add: restart_clause_eq)
  also have "\<dots> = map ?g st"
    using dist by (intro map_cong) (auto simp: distinct_map inj_on_def)
  finally have f: "fold (\<lambda>j. update_where j (restart_clause now)) ?ids st = map ?g st" .
  have "map ?g st = st" if "?ids = []"
    using that by (intro map_idI) (simp add: filter_empty_conv)
  with f show ?thesis
    unfolding mark_stuck_printing_as_failed_def by (auto simp: Let_def)
qed

lemma store_wf_mark_stuck: "store_wf st \<Longrightarrow> store_wf (snd (mark_stuck_printing_as_failed now st))"
  by (auto simp: mark_stuck_rows store_wf_def list_all_iff restart_clause_eq comp_def
      intro: row_wf_set_status_clause cong: if_cong)
    (auto simp: if_distrib cong: if_cong)

section \<open>The abstract queue and the refinement\<close>

text \<open>The same operations on a map from job ids to records.\<close>

definition spec_status ::
  "PrintJobStatus \<Rightarrow> string option \<Rightarrow> string option \<Rightarrow> PrintJobRecord \<Rightarrow> PrintJobRecord" where
  "spec_status s ec em r = r\<lparr>jr_status := s,
     jr_error_code := (case ec of None \<Rightarrow> jr_error_code r | Some c \<Rightarrow> Some c),
     jr_error_message := (case em of None \<Rightarrow> jr_error_message r | Some m \<Rightarrow> Some m),
     jr_attempts := jr_attempts r + 1\<rparr>"

definition spec_fresh :: "string \<Rightarrow> string \<Rightarrow> string \<Rightarrow> string \<Rightarrow> string \<Rightarrow> int \<Rightarrow> PrintJobRecord" where
  "spec_fresh j p dt di u n =
     \<lparr>jr_job_id = j, jr_printer_local_id = p, jr_document_type = dt, jr_document_id = di,
      jr_document_url = u, jr_copies = n, jr_status = RECEIVED, jr_error_code = None,
      jr_error_message = None, jr_local_file_path = None, jr_attempts = 0\<rparr>"

definition spec_recover :: "(string \<rightharpoonup> PrintJobRecord) \<Rightarrow> string \<rightharpoonup> PrintJobRecord" where
  "spec_recover m = (\<lambda>j. map_option
     (\<lambda>r. if jr_status r = PRINTING
          then spec_status FAILED (Some RESTARTED_CODE) (Some RESTARTED_MESSAGE) r else r) (m j))"

lemma spec_status_sel [simp]:
  "jr_status (spec_status s ec em r) = s"
  "jr_job_id (spec_status s ec em r) = jr_job_id r"
  "jr_attempts (spec_status s ec em r) = jr_attempts r + 1"
  by (simp_all add: spec_status_def)

lemma row_status_Some: "row_status r = Some s \<longleftrightarrow> col_status r = status_value s"
  using status_of_value_Inr [of "col_status r" s]
  by (auto simp: row_status_def split: sum.splits)

lemma row_record_set_status:
  "row_record s (set_status_clause now s ec em r) = spec_status s ec em (row_record t r)"
  by (simp add: row_record_def spec_status_def split: option.splits)

lemma row_to_record_set_status [simp]:
  "row_to_record (set_status_clause now s ec em r) = Inr (row_record s (set_status_clause now s ec em r))"
  by (simp add: row_to_record_def)

lemma view_update_status [store_simps]:
  assumes "store_wf st"
  shows "view (update_status now j s ec em st) =
    (view st)(j := map_option (spec_status s ec em) (view st j))"
proof (rule ext)
  fix k
  have "row_record s (set_status_clause now s ec em r) = spec_status s ec em rec"
    if "find_row st k = Some r" "row_to_record r = Inr rec" for r rec
    using that by (auto simp: row_to_record_def row_record_set_status split: sum.splits)
  then show "view (update_status now j s ec em st) k =
      ((view st)(j := map_option (spec_status s ec em) (view st j))) k"
    using assms
    by (auto simp: view_def update_status_def find_row_update_where split: option.splits sum.splits
        dest!: find_row_wf row_to_record_wf)
qed

lemma view_set_local_file_path [store_simps]:
  assumes "store_wf st"
  shows "view (set_local_file_path now j p st) =
    (view st)(j := map_option (\<lambda>r. r\<lparr>jr_local_file_path := Some p\<rparr>) (view st j))"
  by (rule ext) (auto simp: view_def set_local_file_path_def find_row_update_where row_to_record_def
      row_record_def split: option.splits sum.splits)

lemma find_row_snoc:
  "find_row (st @ [r]) k = (case find_row st k of None \<Rightarrow> if col_job_id r = k then Some r else None | Some x \<Rightarrow> Some x)"
  by (simp add: find_row_def find_append split: option.splits)

lemma view_insert_received [store_simps]:
  assumes "insert_received now j p dt di u n st = Inr (b, st')" and "store_wf st"
  shows "b \<longleftrightarrow> view st j = None"
    and "view st' = (if b then (view st)(j \<mapsto> spec_fresh j p dt di u n) else view st)"
proof -
  show b: "b \<longleftrightarrow> view st j = None"
    using assms by (auto simp: insert_received_def view_None_iff split: if_splits)
  show "view st' = (if b then (view st)(j \<mapsto> spec_fresh j p dt di u n) else view st)"
    using assms by (auto simp: insert_received_def fun_eq_iff view_def find_row_snoc row_to_record_def
        row_record_def spec_fresh_def split: if_splits option.splits)
qed

lemma find_row_map:
  "(\<And>r. col_job_id (f r) = col_job_id r) \<Longrightarrow> find_row (map f st) k = map_option f (find_row st k)"
  by (simp add: find_row_def find_map_key)

lemma view_mark_stuck [store_simps]:
  assumes "store_wf st"
  shows "view (snd (mark_stuck_printing_as_failed now st)) = spec_recover (view st)"
proof (rule ext)
  fix k
  let ?g = "\<lambda>r. if col_status r = status_value PRINTING then restart_clause now r else r"
  have id: "col_job_id (?g r) = col_job_id r" for r by (simp add: restart_clause_eq)
  have "row_to_record (?g r) = map_sum id (\<lambda>x. if jr_status x = PRINTING
      then spec_status FAILED (Some RESTARTED_CODE) (Some RESTARTED_MESSAGE) x else x) (row_to_record r)" for r
    by (auto simp: restart_clause_eq row_to_record_def row_record_set_status status_of_value_Inr
        split: sum.splits)
  then show "view (snd (mark_stuck_printing_as_failed now st)) k = spec_recover (view st) k"
    by (auto simp: mark_stuck_rows [OF assms] view_def spec_recover_def find_row_map [OF id]
        map_sum_def split: option.splits sum.splits)
qed

lemma mark_stuck_ids:
  assumes "store_wf st"
  shows "set (fst (mark_stuck_printing_as_failed now st)) = {j. job_status st j = Some PRINTING}"
proof -
  have "j \<in> col_job_id ` set (filter (\<lambda>r. col_status r = status_value PRINTING) st) \<longleftrightarrow>
      job_status st j = Some PRINTING" for j
  proof
    assume "j \<in> col_job_id ` set (filter (\<lambda>r. col_status r = status_value PRINTING) st)"
    then obtain r where r: "r \<in> set st" "col_status r = status_value PRINTING" "col_job_id r = j" by auto
    then have "find_row st j = Some r"
      using assms find_key_distinct [of col_job_id st r] by (simp add: store_wf_def find_row_def)
    with r show "job_status st j = Some PRINTING"
      by (simp add: job_status_find_row row_status_def)
  next
    assume "job_status st j = Some PRINTING"
    then obtain r where "find_row st j = Some r" "col_status r = status_value PRINTING"
      by (auto simp: job_status_find_row row_status_Some bind_eq_Some_conv)
    then show "j \<in> col_job_id ` set (filter (\<lambda>r. col_status r = status_value PRINTING) st)"
      by (auto simp: find_row_def dest!: find_key_SomeD)
  qed
  moreover have "fst (mark_stuck_printing_as_failed now st) =
      map col_job_id (filter (\<lambda>r. col_status r = status_value PRINTING) st)"
    by (simp add: mark_stuck_printing_as_failed_def Let_def)
  ultimately show ?thesis by auto
qed

section \<open>The contract of a job queue\<close>

text \<open>
  What the job worker and the crash recovery rely on. \<^term>\<open>key\<close> and \<^term>\<open>fresh\<close> read the job id and
  the first record off the arguments of an insertion.
\<close>

locale job_queue =
  fixes invar :: "'s \<Rightarrow> bool"
    and lookup :: "'s \<Rightarrow> string \<rightharpoonup> PrintJobRecord"
    and ins :: "'p \<Rightarrow> 's \<Rightarrow> (bool \<times> 's) result"
    and key :: "'p \<Rightarrow> string"
    and fresh :: "'p \<Rightarrow> PrintJobRecord"
    and upd :: "string \<Rightarrow> PrintJobStatus \<Rightarrow> string option \<Rightarrow> string option \<Rightarrow> 's \<Rightarrow> 's"
    and recover :: "'s \<Rightarrow> string list \<times> 's"
  assumes invar_ins: "invar s \<Longrightarrow> ins p s = Inr (b, s') \<Longrightarrow> invar s'"
    and invar_upd: "invar s \<Longrightarrow> invar (upd j t ec em s)"
    and invar_recover: "invar s \<Longrightarrow> invar (snd (recover s))"
    and ins_new: "invar s \<Longrightarrow> ins p s = Inr (b, s') \<Longrightarrow> b \<longleftrightarrow> lookup s (key p) = None"
    and lookup_ins: "invar s \<Longrightarrow> ins p s = Inr (b, s') \<Longrightarrow>
      lookup s' = (if b then (lookup s)(key p \<mapsto> fresh p) else lookup s)"
    and fresh_status: "jr_status (fresh p) = RECEIVED"
    and lookup_upd: "invar s \<Longrightarrow> lookup (upd j t ec em s) =
      (lookup s)(j := map_option (spec_status t ec em) (lookup s j))"
    and lookup_recover: "invar s \<Longrightarrow> lookup (snd (recover s)) = spec_recover (lookup s)"
    and recover_ids: "invar s \<Longrightarrow>
      set (fst (recover s)) = {j. map_option jr_status (lookup s j) = Some PRINTING}"
begin

lemma dom_ins: "invar s \<Longrightarrow> ins p s = Inr (b, s') \<Longrightarrow> dom (lookup s') = insert (key p) (dom (lookup s))"
  using lookup_ins [of s p b s'] ins_new [of s p b s'] by (cases b) auto

lemma dom_upd: "invar s \<Longrightarrow> dom (lookup (upd j t ec em s)) = dom (lookup s)"
  using lookup_upd by (auto split: if_splits)

lemma dom_recover: "invar s \<Longrightarrow> dom (lookup (snd (recover s))) = dom (lookup s)"
  using lookup_recover by (auto simp: spec_recover_def)

text \<open>A second insertion under the same id is refused and changes nothing.\<close>

lemma ins_again:
  assumes "invar s" and "ins p s = Inr (b, s')" and "ins q s' = Inr (c, s'')" and "key q = key p"
  shows "\<not> c \<and> lookup s'' = lookup s'"
proof -
  have "invar s'" using assms(1,2) by (rule invar_ins)
  moreover have "key q \<in> dom (lookup s')" using dom_ins [OF assms(1,2)] assms(4) by simp
  ultimately have "\<not> c" using ins_new [of s' q c s''] assms(3) by auto
  with \<open>invar s'\<close> assms(3) show ?thesis using lookup_ins by auto
qed

text \<open>After recovery no job is printing, and a job that was not printing is as it was.\<close>

lemma recover_no_printing:
  "invar s \<Longrightarrow> lookup (snd (recover s)) j = Some r \<Longrightarrow> jr_status r \<noteq> PRINTING"
  by (auto simp: lookup_recover spec_recover_def split: if_splits)
    (metis PrintJobStatus.distinct(25) spec_status_sel(1))

lemma recover_frame:
  "invar s \<Longrightarrow> j \<notin> set (fst (recover s)) \<Longrightarrow> lookup (snd (recover s)) j = lookup s j"
  by (cases "lookup s j") (auto simp: lookup_recover recover_ids spec_recover_def)

lemma recover_failed:
  assumes "invar s" and "j \<in> set (fst (recover s))"
  shows "\<exists>r. lookup s j = Some r \<and> jr_status r = PRINTING \<and>
    lookup (snd (recover s)) j = Some (spec_status FAILED (Some RESTARTED_CODE) (Some RESTARTED_MESSAGE) r)"
  using assms by (auto simp: lookup_recover recover_ids spec_recover_def)

lemma recover_twice:
  assumes "invar s"
  shows "fst (recover (snd (recover s))) = [] \<and> lookup (snd (recover (snd (recover s)))) = lookup (snd (recover s))"
proof -
  let ?s = "snd (recover s)"
  have inv: "invar ?s" using assms by (rule invar_recover)
  have "set (fst (recover ?s)) = {}"
    using recover_no_printing [OF assms] by (auto simp: recover_ids [OF inv])
  then show ?thesis using recover_frame [OF inv] by auto
qed

end

interpretation sq: job_queue store_wf view
  "\<lambda>(j, p, dt, di, u, n). insert_received now j p dt di u n"
  "\<lambda>(j, p, dt, di, u, n). j" "\<lambda>(j, p, dt, di, u, n). spec_fresh j p dt di u n"
  "update_status now'" "mark_stuck_printing_as_failed now''"
  for now now' now''
proof (unfold_locales, goal_cases)
  case (4 s p b s')
  then show ?case by (cases p) (auto dest: view_insert_received(1))
next
  case (5 s p b s')
  then show ?case by (cases p) (auto dest: view_insert_received(2))
next
  case 9
  then show ?case by (simp add: mark_stuck_ids job_status_def)
qed (auto simp: view_update_status view_mark_stuck spec_fresh_def
    intro: store_wf_insert_received store_wf_mark_stuck)

section \<open>The status of a job under the operations\<close>

lemma job_status_update_status [store_simps]:
  "store_wf st \<Longrightarrow> job_status (update_status now j t ec em st) k =
     (if k = j then map_option (\<lambda>_. t) (job_status st j) else job_status st k)"
  by (simp add: job_status_def view_update_status option.map_comp comp_def)

lemma job_status_set_local_file_path [store_simps]:
  "store_wf st \<Longrightarrow> job_status (set_local_file_path now j p st) k = job_status st k"
  by (simp add: job_status_def view_set_local_file_path option.map_comp comp_def)

lemma job_status_insert_received:
  assumes "insert_received now j p dt di u n st = Inr (b, st')" and "store_wf st"
  shows "b \<longleftrightarrow> job_status st j = None"
    and "job_status st' k = (if b \<and> k = j then Some RECEIVED else job_status st k)"
  using view_insert_received [OF assms] by (auto simp: job_status_def spec_fresh_def)

lemma job_status_mark_stuck [store_simps]:
  "store_wf st \<Longrightarrow> job_status (snd (mark_stuck_printing_as_failed now st)) k =
     map_option (\<lambda>t. if t = PRINTING then FAILED else t) (job_status st k)"
  by (cases "view st k") (simp_all add: job_status_def view_mark_stuck spec_recover_def)

lemma get_job_status:
  "store_wf st \<Longrightarrow> get st j = Inr v \<Longrightarrow> job_status st j = map_option jr_status v"
  by (simp add: get_view job_status_def)

lemma get_never_raises: "store_wf st \<Longrightarrow> get st j \<noteq> Inl e"
  by (simp add: get_view)

lemma view_job_id: "store_wf st \<Longrightarrow> view st j = Some r \<Longrightarrow> jr_job_id r = j"
  by (auto dest!: view_SomeD dest: find_row_wf)

lemma find_row_iff:
  "store_wf st \<Longrightarrow> find_row st j = Some row \<longleftrightarrow> row \<in> set st \<and> col_job_id row = j"
  using find_key_distinct [of col_job_id st row]
  by (auto simp: store_wf_def find_row_def dest: find_key_SomeD)

lemma view_iff:
  "store_wf st \<Longrightarrow> view st j = Some r \<longleftrightarrow> (\<exists>row. row \<in> set st \<and> col_job_id row = j \<and> row_to_record row = Inr r)"
proof -
  have "view st j = Some r \<longleftrightarrow> (\<exists>row. find_row st j = Some row \<and> row_to_record row = Inr r)"
    by (auto simp: view_def split: option.splits sum.splits)
  then show "store_wf st \<Longrightarrow> ?thesis" by (auto simp: find_row_iff)
qed

lemma rows_to_records_wf:
  "list_all row_wf rows \<Longrightarrow> \<exists>rs. rows_to_records rows = Inr rs \<and>
     rs = map (\<lambda>r. row_record (the (row_status r)) r) rows"
proof (induction rows)
  case (Cons r rows)
  then obtain s where "status_of_value (col_status r) = Inr s" "row_to_record r = Inr (row_record s r)"
    using row_to_record_wf by auto
  with Cons show ?case by (auto simp: row_status_def)
qed simp

lemma list_non_terminal_set:
  assumes "store_wf st"
  shows "\<exists>rs. list_non_terminal st = Inr rs \<and>
    set rs = {r. \<exists>j. view st j = Some r \<and> \<not> is_terminal (jr_status r)}"
proof -
  let ?rows = "filter (\<lambda>r. col_status r \<notin> {status_value COMPLETED, status_value FAILED, status_value CANCELLED}) st"
  have wf: "list_all row_wf st" and dist: "distinct (map col_job_id st)"
    using assms by (auto simp: store_wf_def)
  then have "list_all row_wf ?rows" by (auto simp: list_all_iff)
  then obtain rs where rs: "rows_to_records ?rows = Inr rs"
    "rs = map (\<lambda>r. row_record (the (row_status r)) r) ?rows"
    using rows_to_records_wf by blast
  have row: "row \<in> set ?rows \<and> r = row_record (the (row_status row)) row \<longleftrightarrow>
      row \<in> set st \<and> row_to_record row = Inr r \<and> \<not> is_terminal (jr_status r)" for row r
  proof (cases "row \<in> set st")
    case True
    then obtain s where s: "col_status row = status_value s" "row_to_record row = Inr (row_record s row)"
      using wf row_to_record_wf [of row] by (auto simp: list_all_iff status_of_value_Inr)
    with True show ?thesis
      by (cases s) (auto simp: row_status_def)
  qed auto
  have "set rs = {r. \<exists>row. row \<in> set ?rows \<and> r = row_record (the (row_status row)) row}"
    unfolding rs(2) by (auto simp only: set_map)
  also have "\<dots> = {r. \<exists>j. view st j = Some r \<and> \<not> is_terminal (jr_status r)}"
    by (simp only: row) (auto simp: view_iff [OF assms])
  finally have "set rs = {r. \<exists>j. view st j = Some r \<and> \<not> is_terminal (jr_status r)}" .
  with rs(1) show ?thesis by (auto simp: list_non_terminal_def)
qed

section \<open>Properties\<close>


definition sample_row :: print_job_row where
  "sample_row = \<lparr>col_job_id = ''j'', col_printer_local_id = ''p'', col_document_type = ''T'',
     col_document_id = ''D'', col_document_url = ''u'', col_copies = 1, col_status = status_value PRINTING,
     col_error_code = None, col_error_message = None, col_local_file_path = None, col_attempts = 1,
     col_received_at = Some ''t'', col_started_at = Some ''t'', col_completed_at = None,
     col_failed_at = None, col_cancelled_at = None, col_created_at = ''t'', col_updated_at = ''t''\<rparr>"

lemma sample_row_wf: "store_wf [sample_row]"
  by (simp add: store_wf_def row_wf_def sample_row_def fits_int64_def int64_min_def int64_max_def)

lemma sample_row_view: "view [sample_row] = [''j'' \<mapsto> row_record PRINTING sample_row]"
  by (rule ext) (simp add: view_def find_row_def sample_row_def row_to_record_def)


text \<open>
  C18: A job is accepted once. An insertion whose copy count fits SQLite's integer succeeds; it
  reports True exactly when the id was new and then stores the fresh RECEIVED record; a second
  insertion under the same id reports False and leaves the queue as it is.
\<close>

theorem insert_deduplicates:
  assumes "store_wf st" and "fits_int64 n" and "fits_int64 n'"
  shows "\<exists>b st'. insert_received now j p dt di u n st = Inr (b, st') \<and> store_wf st' \<and>
    (b \<longleftrightarrow> view st j = None) \<and>
    view st' = (if b then (view st)(j \<mapsto> spec_fresh j p dt di u n) else view st) \<and>
    insert_received now' j p' dt' di' u' n' st' = Inr (False, st')"
proof -
  obtain b st' where ins: "insert_received now j p dt di u n st = Inr (b, st')"
    using assms(2) by (cases "find_row st j") (auto simp: insert_received_def)
  have wf: "store_wf st'" using store_wf_insert_received [OF assms(1) ins] .
  have v: "b \<longleftrightarrow> view st j = None" "view st' = (if b then (view st)(j \<mapsto> spec_fresh j p dt di u n) else view st)"
    using view_insert_received [OF ins assms(1)] by auto
  then have "view st' j \<noteq> None" by auto
  then have "insert_received now' j p' dt' di' u' n' st' = Inr (False, st')"
    using assms(3) view_None_iff [OF wf] by (simp add: insert_received_def)
  with ins wf v show ?thesis by blast
qed

theorem insert_deduplicates_witness:
  "\<exists>b st'. insert_received ''n'' ''k'' ''p'' ''T'' ''D'' ''u'' 2 [sample_row] = Inr (b, st') \<and> b \<and>
     insert_received ''n'' ''k'' ''p'' ''T'' ''D'' ''u'' 3 st' = Inr (False, st')"
proof -
  have "fits_int64 2" "fits_int64 3" by (simp_all add: fits_int64_def int64_min_def int64_max_def)
  from insert_deduplicates [OF sample_row_wf this, of "''n''" "''k''" "''p''" "''T''" "''D''" "''u''" "''n''" "''p''"
      "''T''" "''D''" "''u''"]
  show ?thesis by (auto simp: sample_row_view)
qed

text \<open>
  Crash recovery is exact and idempotent: it reports exactly the jobs that were PRINTING, makes
  them FAILED with the restart code and message, leaves every other job as it was, leaves no job
  PRINTING, and a second recovery reports nothing and changes nothing.
\<close>

theorem recovery_exact_idempotent:
  assumes "store_wf st" and "mark_stuck_printing_as_failed now st = (ids, st')"
  shows "set ids = {j. job_status st j = Some PRINTING} \<and>
    (\<forall>j. view st' j = (if j \<in> set ids
       then map_option (spec_status FAILED (Some RESTARTED_CODE) (Some RESTARTED_MESSAGE)) (view st j)
       else view st j)) \<and>
    (\<forall>j. job_status st' j \<noteq> Some PRINTING) \<and>
    mark_stuck_printing_as_failed now' st' = ([], st')"
proof -
  have ids: "set ids = {j. job_status st j = Some PRINTING}"
    using mark_stuck_ids [OF assms(1), of now] assms(2) by simp
  have wf: "store_wf st'" and v: "view st' = spec_recover (view st)"
    using assms store_wf_mark_stuck [OF assms(1), of now] view_mark_stuck [OF assms(1), of now] by simp_all
  have np: "job_status st' j \<noteq> Some PRINTING" for j
    using job_status_mark_stuck [OF assms(1), of now j] assms(2) by auto
  have "fst (mark_stuck_printing_as_failed now' st') = []"
    using mark_stuck_ids [OF wf, of now'] np by simp
  then have "mark_stuck_printing_as_failed now' st' = ([], st')"
    by (auto simp: mark_stuck_printing_as_failed_def Let_def split: if_splits)
  moreover have "view st' j = (if j \<in> set ids
      then map_option (spec_status FAILED (Some RESTARTED_CODE) (Some RESTARTED_MESSAGE)) (view st j)
      else view st j)" for j
    by (cases "view st j") (auto simp: v ids spec_recover_def job_status_def)
  ultimately show ?thesis using ids np by blast
qed

theorem recovery_exact_idempotent_witness:
  "\<exists>ids st'. mark_stuck_printing_as_failed ''n'' [sample_row] = (ids, st') \<and> set ids = {''j''} \<and>
     mark_stuck_printing_as_failed ''m'' st' = ([], st')"
proof -
  obtain ids st' where m: "mark_stuck_printing_as_failed ''n'' [sample_row] = (ids, st')" by fastforce
  have "{j. job_status [sample_row] j = Some PRINTING} = {''j''}"
    by (auto simp: job_status_def sample_row_view)
  with recovery_exact_idempotent [OF sample_row_wf m, of "''m''"] m show ?thesis by auto
qed

text \<open>
  \<^verbatim>\<open>list_non_terminal\<close> never raises on a well-formed queue and returns exactly the jobs whose
  status is not terminal.
\<close>

theorem non_terminal_exact:
  assumes "store_wf st"
  shows "\<exists>rs. list_non_terminal st = Inr rs \<and>
    jr_job_id ` set rs = {j. \<exists>s. job_status st j = Some s \<and> \<not> is_terminal s} \<and>
    set rs = {r. \<exists>j. view st j = Some r \<and> \<not> is_terminal (jr_status r)}"
proof -
  obtain rs where rs: "list_non_terminal st = Inr rs"
    "set rs = {r. \<exists>j. view st j = Some r \<and> \<not> is_terminal (jr_status r)}"
    using list_non_terminal_set [OF assms] by blast
  have "jr_job_id ` set rs = {j. \<exists>s. job_status st j = Some s \<and> \<not> is_terminal s}"
    using view_job_id [OF assms] by (force simp: rs(2) job_status_def image_iff)
  with rs show ?thesis by blast
qed

theorem non_terminal_exact_witness:
  "\<exists>rs. list_non_terminal [sample_row] = Inr rs \<and> jr_job_id ` set rs = {''j''}"
proof -
  have "{j. \<exists>s. job_status [sample_row] j = Some s \<and> \<not> is_terminal s} = {''j''}"
    by (auto simp: job_status_def sample_row_view)
  with non_terminal_exact [OF sample_row_wf] show ?thesis by auto
qed

text \<open>
  A copy count outside SQLite's 64-bit range is not rejected by the protocol model but raises
  \<^verbatim>\<open>OverflowError\<close> in the insertion, and no other copy count does.
\<close>

theorem insert_overflow_iff:
  "insert_received now j p dt di u n st = Inl e \<longleftrightarrow> e = OverflowError \<and> (n < - (2 ^ 63) \<or> 2 ^ 63 \<le> n)"
  by (auto simp: insert_received_def fits_int64_def int64_min_def int64_max_def)

end
