(* ===== verification/Protocol.thy ===== *)
theory Protocol
  imports Agent_Prelude "HOL-Library.Monad_Syntax" Complex_Main
begin

text \<open>
  The WebSocket messages of \<^verbatim>\<open>eres_print_agent/models.py\<close> and the codec of \<^verbatim>\<open>net/protocol_codec.py\<close>.
  Each message class is a constructor or a record with the class's fields in their order. Two
  pieces of third-party code are arguments: how pydantic reads a single JSON value as a \<^verbatim>\<open>str\<close> or
  an \<^verbatim>\<open>int\<close> (\<^verbatim>\<open>value_reader\<close>), and how the JSON text is read and written (\<^verbatim>\<open>loads\<close>, \<^verbatim>\<open>render\<close>).
  The field declarations of a class (required, optional, defaulted, literal) are written out here.

  Shown here: the exact inputs on which the parser raises instead of dropping the frame, that a
  parsed message carries the type tag it was selected by, that every inbound message survives the
  trip through its JSON object, and that the JSON of an outbound message determines the message.
\<close>

section \<open>JSON values\<close>

text \<open>An object keeps its members in textual order, duplicates included; a lookup takes the last.\<close>

datatype json =
    JNull
  | JBool bool
  | JInt int
  | JFloat rat
  | JStr string
  | JList "json list"
  | JObj "(string \<times> json) list"

fun json_get :: "json \<Rightarrow> string \<Rightarrow> json option" where
  "json_get (JObj kvs) k = map_of (rev kvs) k"
| "json_get _ k = None"

fun is_dict :: "json \<Rightarrow> bool" where
  "is_dict (JObj _) \<longleftrightarrow> True"
| "is_dict _ \<longleftrightarrow> False"

text \<open>Python's \<^verbatim>\<open>dict.get\<close> hashes its key first; lists and dicts have no hash.\<close>

fun unhashable :: "json \<Rightarrow> bool" where
  "unhashable (JList _) \<longleftrightarrow> True"
| "unhashable (JObj _) \<longleftrightarrow> True"
| "unhashable _ \<longleftrightarrow> False"

section \<open>Inbound messages\<close>

record KnownPrinter =
  kp_printerId :: string
  kp_localPrinterId :: string

record AgentAuthenticated =
  aa_ts :: string
  aa_agentId :: string
  aa_tenantId :: string
  aa_siteId :: "string option"
  aa_serverTime :: string
  aa_heartbeatIntervalMs :: int
  aa_knownPrinters :: "KnownPrinter list"

datatype reject_reason = Invalid_credentials | Revoked | Malformed

record AgentAuthenticateRejected =
  ar_ts :: string
  ar_reason :: reject_reason

record PrintJobDispatch =
  pd_ts :: string
  pd_jobId :: string
  pd_printerId :: string
  pd_documentType :: string
  pd_documentId :: string
  pd_documentUrl :: string
  pd_copies :: int

record PrintJobCancel =
  pc_ts :: string
  pc_jobId :: string

datatype InboundHubMessage =
    InAuthenticated AgentAuthenticated
  | InRejected AgentAuthenticateRejected
  | InDispatch PrintJobDispatch
  | InCancel PrintJobCancel

section \<open>Validation\<close>

record value_reader =
  read_str :: "json \<Rightarrow> string option"
  read_int :: "json \<Rightarrow> int option"

definition required :: "(json \<Rightarrow> 'a option) \<Rightarrow> json \<Rightarrow> string \<Rightarrow> 'a option" where
  "required rd obj k = Option.bind (json_get obj k) rd"

definition optional :: "(json \<Rightarrow> 'a option) \<Rightarrow> json \<Rightarrow> string \<Rightarrow> 'a option option" where
  "optional rd obj k =
     (case json_get obj k of
        None \<Rightarrow> Some None
      | Some JNull \<Rightarrow> Some None
      | Some v \<Rightarrow> map_option Some (rd v))"

definition defaulted :: "'a \<Rightarrow> (json \<Rightarrow> 'a option) \<Rightarrow> json \<Rightarrow> string \<Rightarrow> 'a option" where
  "defaulted d rd obj k = (case json_get obj k of None \<Rightarrow> Some d | Some v \<Rightarrow> rd v)"

definition literal :: "string \<Rightarrow> json \<Rightarrow> unit option" where
  "literal l v = (if v = JStr l then Some () else None)"

fun read_list :: "(json \<Rightarrow> 'a option) \<Rightarrow> json \<Rightarrow> 'a list option" where
  "read_list rd (JList vs) = those (map rd vs)"
| "read_list rd _ = None"

definition read_KnownPrinter :: "value_reader \<Rightarrow> json \<Rightarrow> KnownPrinter option" where
  "read_KnownPrinter R v = (if \<not> is_dict v then None else do {
     p \<leftarrow> required (read_str R) v ''printerId'';
     l \<leftarrow> required (read_str R) v ''localPrinterId'';
     Some \<lparr>kp_printerId = p, kp_localPrinterId = l\<rparr> })"

definition read_reason :: "json \<Rightarrow> reject_reason option" where
  "read_reason v =
     (if v = JStr ''invalid_credentials'' then Some Invalid_credentials
      else if v = JStr ''revoked'' then Some Revoked
      else if v = JStr ''malformed'' then Some Malformed else None)"

definition read_AgentAuthenticated :: "value_reader \<Rightarrow> json \<Rightarrow> AgentAuthenticated option" where
  "read_AgentAuthenticated R v = do {
     _ \<leftarrow> defaulted () (literal ''agent.authenticated'') v ''type'';
     ts \<leftarrow> required (read_str R) v ''ts'';
     a \<leftarrow> required (read_str R) v ''agentId'';
     t \<leftarrow> required (read_str R) v ''tenantId'';
     s \<leftarrow> optional (read_str R) v ''siteId'';
     st \<leftarrow> required (read_str R) v ''serverTime'';
     h \<leftarrow> required (read_int R) v ''heartbeatIntervalMs'';
     ps \<leftarrow> defaulted [] (read_list (read_KnownPrinter R)) v ''knownPrinters'';
     Some \<lparr>aa_ts = ts, aa_agentId = a, aa_tenantId = t, aa_siteId = s, aa_serverTime = st,
           aa_heartbeatIntervalMs = h, aa_knownPrinters = ps\<rparr> }"

definition read_AgentAuthenticateRejected :: "value_reader \<Rightarrow> json \<Rightarrow> AgentAuthenticateRejected option" where
  "read_AgentAuthenticateRejected R v = do {
     _ \<leftarrow> defaulted () (literal ''agent.authenticate.rejected'') v ''type'';
     ts \<leftarrow> required (read_str R) v ''ts'';
     r \<leftarrow> required read_reason v ''reason'';
     Some \<lparr>ar_ts = ts, ar_reason = r\<rparr> }"

definition read_PrintJobDispatch :: "value_reader \<Rightarrow> json \<Rightarrow> PrintJobDispatch option" where
  "read_PrintJobDispatch R v = do {
     _ \<leftarrow> defaulted () (literal ''print.job'') v ''type'';
     ts \<leftarrow> required (read_str R) v ''ts'';
     j \<leftarrow> required (read_str R) v ''jobId'';
     p \<leftarrow> required (read_str R) v ''printerId'';
     dt \<leftarrow> required (read_str R) v ''documentType'';
     di \<leftarrow> required (read_str R) v ''documentId'';
     u \<leftarrow> required (read_str R) v ''documentUrl'';
     n \<leftarrow> defaulted 1 (read_int R) v ''copies'';
     Some \<lparr>pd_ts = ts, pd_jobId = j, pd_printerId = p, pd_documentType = dt, pd_documentId = di,
           pd_documentUrl = u, pd_copies = n\<rparr> }"

definition read_PrintJobCancel :: "value_reader \<Rightarrow> json \<Rightarrow> PrintJobCancel option" where
  "read_PrintJobCancel R v = do {
     _ \<leftarrow> defaulted () (literal ''print.job.cancel'') v ''type'';
     ts \<leftarrow> required (read_str R) v ''ts'';
     j \<leftarrow> required (read_str R) v ''jobId'';
     Some \<lparr>pc_ts = ts, pc_jobId = j\<rparr> }"

definition INBOUND_MODEL_BY_TYPE ::
  "value_reader \<Rightarrow> (string \<times> (json \<Rightarrow> InboundHubMessage option)) list" where
  "INBOUND_MODEL_BY_TYPE R =
     [(''agent.authenticated'', \<lambda>v. map_option InAuthenticated (read_AgentAuthenticated R v)),
      (''agent.authenticate.rejected'', \<lambda>v. map_option InRejected (read_AgentAuthenticateRejected R v)),
      (''print.job'', \<lambda>v. map_option InDispatch (read_PrintJobDispatch R v)),
      (''print.job.cancel'', \<lambda>v. map_option InCancel (read_PrintJobCancel R v))]"

text \<open>The lookup by type sits outside the \<^verbatim>\<open>try\<close>: a type that cannot be hashed raises.\<close>

definition parse_inbound_message :: "value_reader \<Rightarrow> json \<Rightarrow> InboundHubMessage option result" where
  "parse_inbound_message R raw =
     (let message_type = (if is_dict raw then json_get raw ''type'' else None)
      in case message_type of
           None \<Rightarrow> Inr None
         | Some t \<Rightarrow>
             if unhashable t then Inl (TypeError ''unhashable type'')
             else (case t of
                     JStr s \<Rightarrow> (case map_of (INBOUND_MODEL_BY_TYPE R) s of
                                  None \<Rightarrow> Inr None
                                | Some model \<Rightarrow> Inr (model raw))
                   | _ \<Rightarrow> Inr None))"

section \<open>Outbound messages\<close>

record AgentUsage =
  au_cpuPercent :: "rat option"
  au_memoryMb :: "rat option"

record PrinterCapabilities =
  cap_color :: "bool option"
  cap_duplex :: "bool option"
  cap_paperSizes :: "string list option"

record SyncedPrinter =
  sp_localPrinterId :: string
  sp_displayName :: "string option"
  sp_driverName :: "string option"
  sp_portName :: "string option"
  sp_isDefault :: "bool option"
  sp_capabilities :: "PrinterCapabilities option"
  sp_statusDetail :: "string option"
  sp_online :: "bool option"

text \<open>The fields of each constructor are the fields of its class, in order, after the constant type
  tag: the time stamp first.\<close>

datatype OutboundAgentMessage =
    AgentAuthenticate string string string "string option" "string option" "string option" "int option"
  | AgentHeartbeat string "int option" "AgentUsage option"
  | AgentPrintersSync string "SyncedPrinter list"
  | AgentStatus string "int option" "int option"
  | PrintJobReceived string string
  | PrintJobStarted string string
  | PrintJobCompleted string string
  | PrintJobFailed string string "string option" "string option"
  | PrintJobCancelled string string

fun message_type_tag :: "OutboundAgentMessage \<Rightarrow> string" where
  "message_type_tag (AgentAuthenticate _ _ _ _ _ _ _) = ''agent.authenticate''"
| "message_type_tag (AgentHeartbeat _ _ _) = ''agent.heartbeat''"
| "message_type_tag (AgentPrintersSync _ _) = ''agent.printers.sync''"
| "message_type_tag (AgentStatus _ _ _) = ''agent.status''"
| "message_type_tag (PrintJobReceived _ _) = ''print.job.received''"
| "message_type_tag (PrintJobStarted _ _) = ''print.job.started''"
| "message_type_tag (PrintJobCompleted _ _) = ''print.job.completed''"
| "message_type_tag (PrintJobFailed _ _ _ _) = ''print.job.failed''"
| "message_type_tag (PrintJobCancelled _ _) = ''print.job.cancelled''"

definition json_opt :: "('a \<Rightarrow> json) \<Rightarrow> 'a option \<Rightarrow> json" where
  "json_opt f x = (case x of None \<Rightarrow> JNull | Some y \<Rightarrow> f y)"

definition usage_json :: "AgentUsage \<Rightarrow> json" where
  "usage_json u = JObj [(''cpuPercent'', json_opt JFloat (au_cpuPercent u)),
                        (''memoryMb'', json_opt JFloat (au_memoryMb u))]"

definition capabilities_json :: "PrinterCapabilities \<Rightarrow> json" where
  "capabilities_json c = JObj [(''color'', json_opt JBool (cap_color c)),
     (''duplex'', json_opt JBool (cap_duplex c)),
     (''paperSizes'', json_opt (\<lambda>ps. JList (map JStr ps)) (cap_paperSizes c))]"

definition printer_json :: "SyncedPrinter \<Rightarrow> json" where
  "printer_json p = JObj [(''localPrinterId'', JStr (sp_localPrinterId p)),
     (''displayName'', json_opt JStr (sp_displayName p)),
     (''driverName'', json_opt JStr (sp_driverName p)),
     (''portName'', json_opt JStr (sp_portName p)),
     (''isDefault'', json_opt JBool (sp_isDefault p)),
     (''capabilities'', json_opt capabilities_json (sp_capabilities p)),
     (''statusDetail'', json_opt JStr (sp_statusDetail p)),
     (''online'', json_opt JBool (sp_online p))]"

fun message_fields :: "OutboundAgentMessage \<Rightarrow> (string \<times> json) list" where
  "message_fields (AgentAuthenticate ts a sec h os ver pv) =
     [(''ts'', JStr ts), (''agentId'', JStr a), (''agentSecret'', JStr sec),
      (''hostname'', json_opt JStr h), (''os'', json_opt JStr os),
      (''agentVersion'', json_opt JStr ver), (''protocolVersion'', json_opt JInt pv)]"
| "message_fields (AgentHeartbeat ts q u) =
     [(''ts'', JStr ts), (''queueDepth'', json_opt JInt q), (''usage'', json_opt usage_json u)]"
| "message_fields (AgentPrintersSync ts ps) =
     [(''ts'', JStr ts), (''printers'', JList (map printer_json ps))]"
| "message_fields (AgentStatus ts q d) =
     [(''ts'', JStr ts), (''queueDepth'', json_opt JInt q), (''diskFreeBytes'', json_opt JInt d)]"
| "message_fields (PrintJobReceived ts j) = [(''ts'', JStr ts), (''jobId'', JStr j)]"
| "message_fields (PrintJobStarted ts j) = [(''ts'', JStr ts), (''jobId'', JStr j)]"
| "message_fields (PrintJobCompleted ts j) = [(''ts'', JStr ts), (''jobId'', JStr j)]"
| "message_fields (PrintJobFailed ts j e m) =
     [(''ts'', JStr ts), (''jobId'', JStr j), (''errorCode'', json_opt JStr e),
      (''message'', json_opt JStr m)]"
| "message_fields (PrintJobCancelled ts j) = [(''ts'', JStr ts), (''jobId'', JStr j)]"

definition message_json :: "OutboundAgentMessage \<Rightarrow> json" where
  "message_json m = JObj ((''type'', JStr (message_type_tag m)) # message_fields m)"

section \<open>The codec\<close>

definition encode :: "(json \<Rightarrow> string) \<Rightarrow> OutboundAgentMessage \<Rightarrow> string" where
  "encode render m = render (message_json m)"

text \<open>What \<^verbatim>\<open>json.loads\<close> can do with a frame: return a value, raise one of the two exceptions that
  \<^verbatim>\<open>decode\<close> catches, or raise another (a binary frame that is not UTF-8).\<close>

datatype loads_outcome = Loaded json | NotJson | LoadsRaises py_error

definition decode :: "value_reader \<Rightarrow> (string \<Rightarrow> loads_outcome) \<Rightarrow> string \<Rightarrow> InboundHubMessage option result"
where
  "decode R loads raw =
     (case loads raw of
        NotJson \<Rightarrow> Inr None
      | LoadsRaises e \<Rightarrow> Inl e
      | Loaded payload \<Rightarrow> parse_inbound_message R payload)"

section \<open>The hub's side of an inbound message\<close>

text \<open>The JSON object that carries an inbound message, all fields present.\<close>

fun inbound_tag :: "InboundHubMessage \<Rightarrow> string" where
  "inbound_tag (InAuthenticated _) = ''agent.authenticated''"
| "inbound_tag (InRejected _) = ''agent.authenticate.rejected''"
| "inbound_tag (InDispatch _) = ''print.job''"
| "inbound_tag (InCancel _) = ''print.job.cancel''"

fun reason_text :: "reject_reason \<Rightarrow> string" where
  "reason_text Invalid_credentials = ''invalid_credentials''"
| "reason_text Revoked = ''revoked''"
| "reason_text Malformed = ''malformed''"

definition known_printer_json :: "KnownPrinter \<Rightarrow> json" where
  "known_printer_json p = JObj [(''printerId'', JStr (kp_printerId p)),
     (''localPrinterId'', JStr (kp_localPrinterId p))]"

fun inbound_fields :: "InboundHubMessage \<Rightarrow> (string \<times> json) list" where
  "inbound_fields (InAuthenticated a) =
     [(''ts'', JStr (aa_ts a)), (''agentId'', JStr (aa_agentId a)), (''tenantId'', JStr (aa_tenantId a)),
      (''siteId'', json_opt JStr (aa_siteId a)), (''serverTime'', JStr (aa_serverTime a)),
      (''heartbeatIntervalMs'', JInt (aa_heartbeatIntervalMs a)),
      (''knownPrinters'', JList (map known_printer_json (aa_knownPrinters a)))]"
| "inbound_fields (InRejected r) =
     [(''ts'', JStr (ar_ts r)), (''reason'', JStr (reason_text (ar_reason r)))]"
| "inbound_fields (InDispatch d) =
     [(''ts'', JStr (pd_ts d)), (''jobId'', JStr (pd_jobId d)), (''printerId'', JStr (pd_printerId d)),
      (''documentType'', JStr (pd_documentType d)), (''documentId'', JStr (pd_documentId d)),
      (''documentUrl'', JStr (pd_documentUrl d)), (''copies'', JInt (pd_copies d))]"
| "inbound_fields (InCancel c) = [(''ts'', JStr (pc_ts c)), (''jobId'', JStr (pc_jobId c))]"

definition inbound_json :: "InboundHubMessage \<Rightarrow> json" where
  "inbound_json m = JObj ((''type'', JStr (inbound_tag m)) # inbound_fields m)"

text \<open>What the code relies on of pydantic's scalar reading: a JSON string is a \<^verbatim>\<open>str\<close>, a JSON integer
  an \<^verbatim>\<open>int\<close>. (What it does with other values is left open.)\<close>

definition reads_scalars :: "value_reader \<Rightarrow> bool" where
  "reads_scalars R \<longleftrightarrow> (\<forall>s. read_str R (JStr s) = Some s) \<and> (\<forall>n. read_int R (JInt n) = Some n)"

text \<open>A strict reader, used to evaluate examples.\<close>

definition strict_reader :: value_reader where
  "strict_reader =
     \<lparr>read_str = (\<lambda>v. case v of JStr s \<Rightarrow> Some s | _ \<Rightarrow> None),
      read_int = (\<lambda>v. case v of JInt n \<Rightarrow> Some n | _ \<Rightarrow> None)\<rparr>"

section \<open>Lemmas\<close>

lemma reads_scalars_strict [simp]: "reads_scalars strict_reader"
  by (simp add: reads_scalars_def strict_reader_def)

lemma reads_str [simp]: "reads_scalars R \<Longrightarrow> read_str R (JStr s) = Some s"
  and reads_int [simp]: "reads_scalars R \<Longrightarrow> read_int R (JInt n) = Some n"
  by (simp_all add: reads_scalars_def)

lemma those_map_Some: "(\<And>x. x \<in> set xs \<Longrightarrow> f (g x) = Some x) \<Longrightarrow> those (map (f \<circ> g) xs) = Some xs"
  by (induction xs) auto

lemma read_known_printers:
  assumes "reads_scalars R"
  shows "those (map (read_KnownPrinter R \<circ> known_printer_json) ps) = Some ps"
  using assms by (intro those_map_Some) (simp add: read_KnownPrinter_def known_printer_json_def required_def)

lemma read_reason_text [simp]: "read_reason (JStr (reason_text r)) = Some r"
  by (cases r) (simp_all add: read_reason_def)

lemma optional_json_opt:
  "reads_scalars R \<Longrightarrow> json_get obj k = Some (json_opt JStr x) \<Longrightarrow> optional (read_str R) obj k = Some x"
  by (cases x) (simp_all add: optional_def json_opt_def)

lemma parse_tagged:
  "parse_inbound_message R (JObj kvs) = Inr (Some m) \<Longrightarrow> json_get (JObj kvs) ''type'' = Some (JStr (inbound_tag m))"
  by (auto simp: parse_inbound_message_def INBOUND_MODEL_BY_TYPE_def Let_def
      split: option.splits json.splits if_splits)

lemma parse_inbound_json:
  assumes "reads_scalars R"
  shows "parse_inbound_message R (inbound_json m) = Inr (Some m)"
proof (cases m)
  case (InAuthenticated a)
  have "optional (read_str R) (inbound_json m) ''siteId'' = Some (aa_siteId a)"
    using assms InAuthenticated by (intro optional_json_opt) (simp_all add: inbound_json_def)
  then show ?thesis
    using assms InAuthenticated
    by (simp add: parse_inbound_message_def INBOUND_MODEL_BY_TYPE_def inbound_json_def
        read_AgentAuthenticated_def required_def defaulted_def literal_def read_known_printers)
qed (use assms in \<open>simp_all add: parse_inbound_message_def INBOUND_MODEL_BY_TYPE_def inbound_json_def
  read_AgentAuthenticateRejected_def read_PrintJobDispatch_def read_PrintJobCancel_def
  required_def defaulted_def literal_def\<close>)

lemma parse_raises_iff:
  "parse_inbound_message R raw = Inl e \<longleftrightarrow>
     (\<exists>kvs t. raw = JObj kvs \<and> json_get raw ''type'' = Some t \<and> unhashable t) \<and> e = TypeError ''unhashable type''"
  by (cases raw) (auto simp: parse_inbound_message_def Let_def split: option.splits json.splits if_splits)

lemma json_opt_inj: "inj f \<Longrightarrow> (\<And>x. f x \<noteq> JNull) \<Longrightarrow> json_opt f x = json_opt f y \<longleftrightarrow> x = y"
  by (auto simp: json_opt_def inj_def split: option.splits) metis+

lemma json_opt_scalars [simp]:
  "json_opt JStr x = json_opt JStr y \<longleftrightarrow> x = y"
  "json_opt JInt i = json_opt JInt k \<longleftrightarrow> i = k"
  "json_opt JBool b = json_opt JBool c \<longleftrightarrow> b = c"
  "json_opt JFloat q = json_opt JFloat r \<longleftrightarrow> q = r"
  by (rule json_opt_inj; simp add: inj_def)+

lemma paper_sizes_json_inj [simp]:
  "json_opt (\<lambda>ps. JList (map JStr ps)) x = json_opt (\<lambda>ps. JList (map JStr ps)) y \<longleftrightarrow> x = y"
  by (rule json_opt_inj) (auto simp: inj_def)

lemma usage_json_inj [simp]: "usage_json u = usage_json v \<longleftrightarrow> u = v"
  by (cases u; cases v) (simp add: usage_json_def)

lemma capabilities_json_inj [simp]: "capabilities_json c = capabilities_json d \<longleftrightarrow> c = d"
  by (cases c; cases d) (simp add: capabilities_json_def)

lemma json_opt_usage [simp]: "json_opt usage_json x = json_opt usage_json y \<longleftrightarrow> x = y"
  by (rule json_opt_inj) (simp_all add: inj_def, simp add: usage_json_def)

lemma json_opt_capabilities [simp]: "json_opt capabilities_json c = json_opt capabilities_json d \<longleftrightarrow> c = d"
  by (rule json_opt_inj) (simp_all add: inj_def, simp add: capabilities_json_def)

lemma printer_json_inj [simp]: "printer_json p = printer_json q \<longleftrightarrow> p = q"
  by (cases p; cases q) (simp add: printer_json_def)

section \<open>Properties\<close>

text \<open>
  C21: Every inbound message round-trips: a frame whose text is read as the JSON object of a message
  is decoded to that message, for every way of reading scalars that reads a JSON string as a
  \<^verbatim>\<open>str\<close> and a JSON integer as an \<^verbatim>\<open>int\<close>.
\<close>

theorem decode_roundtrip:
  assumes "reads_scalars R" and "loads raw = Loaded (inbound_json m)"
  shows "decode R loads raw = Inr (Some m)"
  using parse_inbound_json [OF assms(1)] assms(2) by (simp add: decode_def)

theorem decode_roundtrip_witness:
  "decode strict_reader (\<lambda>_. Loaded (inbound_json (InCancel \<lparr>pc_ts = ''t'', pc_jobId = ''j''\<rparr>))) ''x'' =
     Inr (Some (InCancel \<lparr>pc_ts = ''t'', pc_jobId = ''j''\<rparr>))"
  by (rule decode_roundtrip) simp_all

text \<open>
  When decoding raises. A frame makes \<^verbatim>\<open>decode\<close> raise exactly when the text reader raises something
  else than the two exceptions it catches, or the frame is an object whose \<^verbatim>\<open>type\<close> is a list or an
  object; every other malformed frame is dropped, as the docstring promises for all of them.
\<close>

theorem decode_raises_iff:
  "decode R loads raw = Inl e \<longleftrightarrow> loads raw = LoadsRaises e \<or>
     (\<exists>kvs t. loads raw = Loaded (JObj kvs) \<and> json_get (JObj kvs) ''type'' = Some t \<and> unhashable t \<and>
        e = TypeError ''unhashable type'')"
  unfolding decode_def by (cases "loads raw") (auto simp: parse_raises_iff simp del: json_get.simps)

text \<open>
  A decoded message was selected by its own type tag: the frame was a JSON object whose \<^verbatim>\<open>type\<close> is
  the tag of the message's class.
\<close>

theorem decode_tag_sound:
  assumes "decode R loads raw = Inr (Some m)"
  shows "\<exists>kvs. loads raw = Loaded (JObj kvs) \<and> json_get (JObj kvs) ''type'' = Some (JStr (inbound_tag m))"
proof (cases "loads raw")
  case (Loaded payload)
  with assms have p: "parse_inbound_message R payload = Inr (Some m)" by (simp add: decode_def)
  then obtain kvs where "payload = JObj kvs" by (cases payload) (auto simp: parse_inbound_message_def)
  with p Loaded show ?thesis using parse_tagged by blast
qed (use assms in \<open>simp_all add: decode_def\<close>)

theorem decode_tag_sound_witness:
  "\<exists>kvs. inbound_json (InCancel \<lparr>pc_ts = ''t'', pc_jobId = ''j''\<rparr>) = JObj kvs \<and>
     json_get (JObj kvs) ''type'' = Some (JStr ''print.job.cancel'')"
proof -
  let ?m = "InCancel \<lparr>pc_ts = ''t'', pc_jobId = ''j''\<rparr>"
  have "decode strict_reader (\<lambda>_. Loaded (inbound_json ?m)) ''x'' = Inr (Some ?m)"
    by (simp add: decode_def parse_inbound_json)
  from decode_tag_sound [OF this] show ?thesis by auto
qed

text \<open>
  Encoding loses nothing: the JSON object that \<^verbatim>\<open>encode\<close> writes determines the outbound message,
  absent optional fields included, and its \<^verbatim>\<open>type\<close>, \<^verbatim>\<open>ts\<close> and (for a job event) \<^verbatim>\<open>jobId\<close> members are
  what the hub dispatches on.
\<close>

theorem message_json_determines:
  "(message_json m = message_json m' \<longleftrightarrow> m = m') \<and>
   json_get (message_json m) ''type'' = Some (JStr (message_type_tag m)) \<and>
   json_get (message_json (PrintJobFailed now j ec em)) ''jobId'' = Some (JStr j) \<and>
   json_get (message_json (PrintJobCompleted now j)) ''jobId'' = Some (JStr j)"
proof -
  have "message_json m = message_json m' \<longleftrightarrow> m = m'"
    by (cases m; cases m') (auto simp: message_json_def inj_def)
  moreover have "json_get (message_json m) ''type'' = Some (JStr (message_type_tag m))"
    by (cases m) (simp_all add: message_json_def)
  ultimately show ?thesis by (simp add: message_json_def)
qed

end
