(* ===== verification/Ws_Client.thy ===== *)
theory Ws_Client
  imports Protocol "HOL-Library.Multiset"
begin

text \<open>
  The WebSocket client of \<^verbatim>\<open>eres_print_agent/net/ws_client.py\<close>: sending with the durable buffer,
  flushing it, authenticating and the reconnect loop with its back-off schedule
  (\<^verbatim>\<open>constants.py\<close>). The client's state is a record; the operations are defined on every extension
  of it, so that the agent's own state extends the client's. The network is an argument: what a
  socket accepts, what the hub answers and how a connection ends are the fields of a
  \<^verbatim>\<open>connection\<close>. Code of other coroutines that runs between two awaits of this one is not part of
  this theory (see \<^verbatim>\<open>Job_Worker\<close>).

  Shown here: no durable message is ever lost by sending or flushing, and a flush keeps their
  order; the delays follow the schedule and start over after a successful authentication; a
  failed attempt leaves the buffer as it was; after every attempt the client is disconnected; and
  the loop ends only by a stop request or by an exception that it does not catch.
\<close>

section \<open>State\<close>

record ws_client =
  ws_agent_id :: string
  ws_agent_secret :: string
  ws_hostname :: string
  ws_os_name :: string
  ws_agent_version :: string
  ws_hub_url :: string
  ws_socket :: bool \<comment> \<open>\<^verbatim>\<open>self._socket is not None\<close>\<close>
  ws_durable_queue :: "OutboundAgentMessage list"
  ws_stop_event :: bool
  ws_connected :: bool
  ws_sent :: "OutboundAgentMessage list" \<comment> \<open>what the sockets accepted, oldest first\<close>

definition PROTOCOL_VERSION :: int where "PROTOCOL_VERSION = 1"

definition RECONNECT_BACKOFF_SCHEDULE :: "nat list" where
  "RECONNECT_BACKOFF_SCHEDULE = [1, 2, 5, 10, 30, 60]"

section \<open>Sending\<close>

text \<open>\<^verbatim>\<open>socket.send\<close> either takes the frame or raises \<^verbatim>\<open>ConnectionClosed\<close>.\<close>

datatype send_outcome = Accepted | Closed

definition send :: "send_outcome \<Rightarrow> OutboundAgentMessage \<Rightarrow> bool \<Rightarrow> 'a ws_client_scheme \<Rightarrow> 'a ws_client_scheme"
where
  "send oc m durable w =
     (if ws_socket w \<and> oc = Accepted then w\<lparr>ws_sent := ws_sent w @ [m]\<rparr>
      else if durable then w\<lparr>ws_durable_queue := ws_durable_queue w @ [m]\<rparr>
      else w)"

text \<open>The loop of \<^verbatim>\<open>_flush_durable_queue\<close>: the \<^term>\<open>i\<close>-th send of the flush has outcome \<^term>\<open>oc i\<close>.\<close>

fun flush_loop :: "(nat \<Rightarrow> send_outcome) \<Rightarrow> nat \<Rightarrow> OutboundAgentMessage list \<Rightarrow>
    'a ws_client_scheme \<Rightarrow> 'a ws_client_scheme" where
  "flush_loop oc i [] w = w"
| "flush_loop oc i (m # ms) w = flush_loop oc (Suc i) ms (send (oc i) m True w)"

definition flush_durable_queue :: "(nat \<Rightarrow> send_outcome) \<Rightarrow> 'a ws_client_scheme \<Rightarrow> 'a ws_client_scheme" where
  "flush_durable_queue oc w = flush_loop oc 0 (ws_durable_queue w) (w\<lparr>ws_durable_queue := []\<rparr>)"

definition ws_stop :: "'a ws_client_scheme \<Rightarrow> 'a ws_client_scheme" where
  "ws_stop w = w\<lparr>ws_stop_event := True\<rparr>"

definition ssl_context :: "'c \<Rightarrow> string \<Rightarrow> 'c option" where
  "ssl_context certifi_context hub_url =
     (if \<not> starts_with ''wss://'' hub_url then None else Some certifi_context)"

section \<open>Authentication\<close>

datatype exc = ConnectionClosed | TimeoutError | Py py_error

text \<open>The \<^verbatim>\<open>except\<close> clause of \<^verbatim>\<open>run_forever\<close>.\<close>

fun caught :: "exc \<Rightarrow> bool" where
  "caught ConnectionClosed \<longleftrightarrow> True"
| "caught TimeoutError \<longleftrightarrow> True"
| "caught (Py (OSError _)) \<longleftrightarrow> True"
| "caught (Py _) \<longleftrightarrow> False"

datatype recv_outcome = Frame string | RecvClosed | RecvTimeout

record connection =
  cn_connect :: "exc option" \<comment> \<open>the exception of \<^verbatim>\<open>websockets.connect\<close>, if it raises\<close>
  cn_now :: string \<comment> \<open>\<^verbatim>\<open>now_iso()\<close> when the authentication is built\<close>
  cn_auth_send :: send_outcome
  cn_reply :: recv_outcome
  cn_flush :: "nat \<Rightarrow> send_outcome"
  cn_frames :: "string list" \<comment> \<open>the frames received after the authentication\<close>
  cn_end :: "exc option" \<comment> \<open>how the frames end: a normal close ends the loop, others raise\<close>
  cn_stop_during :: bool \<comment> \<open>\<^verbatim>\<open>stop()\<close> is called before the attempt is over\<close>
  cn_stop_in_delay :: bool \<comment> \<open>\<^verbatim>\<open>stop()\<close> is called while the loop waits to reconnect\<close>

definition authenticate_message :: "string \<Rightarrow> 'a ws_client_scheme \<Rightarrow> OutboundAgentMessage" where
  "authenticate_message now w = AgentAuthenticate now (ws_agent_id w) (ws_agent_secret w)
     (Some (ws_hostname w)) (Some (ws_os_name w)) (Some (ws_agent_version w)) (Some PROTOCOL_VERSION)"

definition authenticate ::
  "value_reader \<Rightarrow> (string \<Rightarrow> loads_outcome) \<Rightarrow> connection \<Rightarrow> 'a ws_client_scheme \<Rightarrow>
     'a ws_client_scheme \<times> (exc + AgentAuthenticated option)" where
  "authenticate R loads cn w =
     (if cn_auth_send cn = Closed then (w, Inl ConnectionClosed)
      else let w' = w\<lparr>ws_sent := ws_sent w @ [authenticate_message (cn_now cn) w]\<rparr>
           in (w', case cn_reply cn of
                     RecvClosed \<Rightarrow> Inl ConnectionClosed
                   | RecvTimeout \<Rightarrow> Inl TimeoutError
                   | Frame raw \<Rightarrow> (case decode R loads raw of
                       Inl e \<Rightarrow> Inl (Py e)
                     | Inr (Some (InAuthenticated a)) \<Rightarrow> Inr (Some a)
                     | Inr _ \<Rightarrow> Inr None)))"

section \<open>The reconnect loop\<close>

text \<open>The callbacks the agent installs. A callback that raises leaves the state it had reached.\<close>

record 's callbacks =
  on_authenticated :: "AgentAuthenticated \<Rightarrow> 's \<Rightarrow> 's \<times> exc option"
  on_inbound_message :: "InboundHubMessage \<Rightarrow> 's \<Rightarrow> 's \<times> exc option"
  on_disconnected :: "'s \<Rightarrow> 's \<times> exc option"

fun frames_loop ::
  "'s callbacks \<Rightarrow> value_reader \<Rightarrow> (string \<Rightarrow> loads_outcome) \<Rightarrow> string list \<Rightarrow> exc option \<Rightarrow> 's \<Rightarrow> 's \<times> exc option"
where
  "frames_loop cb R loads [] fin s = (s, fin)"
| "frames_loop cb R loads (raw # raws) fin s =
     (case decode R loads raw of
        Inl e \<Rightarrow> (s, Some (Py e))
      | Inr None \<Rightarrow> frames_loop cb R loads raws fin s
      | Inr (Some m) \<Rightarrow> (case on_inbound_message cb m s of
          (s', Some e) \<Rightarrow> (s', Some e)
        | (s', None) \<Rightarrow> frames_loop cb R loads raws fin s'))"

text \<open>The body of the \<^verbatim>\<open>try\<close>: the state, the back-off index and the exception it ends with.\<close>

definition session ::
  "('a ws_client_scheme) callbacks \<Rightarrow> value_reader \<Rightarrow> (string \<Rightarrow> loads_outcome) \<Rightarrow> connection \<Rightarrow>
     nat \<Rightarrow> 'a ws_client_scheme \<Rightarrow> 'a ws_client_scheme \<times> nat \<times> exc option" where
  "session cb R loads cn i w =
     (case cn_connect cn of
        Some e \<Rightarrow> (w, i, Some e)
      | None \<Rightarrow>
        (case authenticate R loads cn (w\<lparr>ws_socket := True\<rparr>) of
           (w1, Inl e) \<Rightarrow> (w1, i, Some e)
         | (w1, Inr None) \<Rightarrow> (w1\<lparr>ws_socket := False\<rparr>, i, Some ConnectionClosed)
         | (w1, Inr (Some a)) \<Rightarrow>
             let w2 = flush_durable_queue (cn_flush cn) (w1\<lparr>ws_connected := True\<rparr>)
             in (case on_authenticated cb a w2 of
                   (w3, Some e) \<Rightarrow> (w3, 0, Some e)
                 | (w3, None) \<Rightarrow>
                     (case frames_loop cb R loads (cn_frames cn) (cn_end cn) w3 of
                        (w4, e) \<Rightarrow> (w4, 0, e)))))"

text \<open>The \<^verbatim>\<open>finally\<close> clause. An exception of the callback leaves the loop, whatever its class.\<close>

definition disconnect ::
  "('a ws_client_scheme) callbacks \<Rightarrow> 'a ws_client_scheme \<Rightarrow> 'a ws_client_scheme \<times> exc option" where
  "disconnect cb w = on_disconnected cb (w\<lparr>ws_socket := False, ws_connected := False\<rparr>)"

definition backoff_delay :: "nat \<Rightarrow> nat" where
  "backoff_delay i = RECONNECT_BACKOFF_SCHEDULE ! min i (length RECONNECT_BACKOFF_SCHEDULE - 1)"

definition escapes :: "exc option \<Rightarrow> bool" where
  "escapes e = (case e of None \<Rightarrow> False | Some x \<Rightarrow> \<not> caught x)"

datatype loop_end = Stopped | Escaped exc | Running

text \<open>
  \<^verbatim>\<open>run_forever\<close> over the connections the network grants one after another: the final state, the
  delays slept and how the loop ended (\<^term>\<open>Running\<close> when the given connections are used up).
\<close>

fun run_forever ::
  "('a ws_client_scheme) callbacks \<Rightarrow> value_reader \<Rightarrow> (string \<Rightarrow> loads_outcome) \<Rightarrow> connection list \<Rightarrow>
     nat \<Rightarrow> 'a ws_client_scheme \<Rightarrow> 'a ws_client_scheme \<times> nat list \<times> loop_end" where
  "run_forever cb R loads [] i w = (w, [], if ws_stop_event w then Stopped else Running)"
| "run_forever cb R loads (cn # cns) i w =
     (if ws_stop_event w then (w, [], Stopped)
      else let (w1, i1, e) = session cb R loads cn i w;
               (w2, e2) = disconnect cb (if cn_stop_during cn then ws_stop w1 else w1)
           in if e2 \<noteq> None then (w2, [], Escaped (the e2))
              else if escapes e then (w2, [], Escaped (the e))
              else if ws_stop_event w2 then (w2, [], Stopped)
              else let w3 = (if cn_stop_in_delay cn then ws_stop w2 else w2);
                       (w4, ds, r) = run_forever cb R loads cns (Suc i1) w3
                   in (w4, backoff_delay i1 # ds, r))"

section \<open>No durable message is lost\<close>

lemma send_frame [simp]:
  "ws_socket (send oc m d w) = ws_socket w"
  "ws_stop_event (send oc m d w) = ws_stop_event w"
  "ws_connected (send oc m d w) = ws_connected w"
  by (simp_all add: send_def)

lemma flush_loop_shape:
  "\<exists>s r. ws_sent (flush_loop oc i ms w) = ws_sent w @ s \<and>
         ws_durable_queue (flush_loop oc i ms w) = ws_durable_queue w @ r \<and> ms \<in> shuffles s r"
proof (induction oc i ms w rule: flush_loop.induct)
  case (1 oc i w)
  then show ?case by auto
next
  case (2 oc i m ms w)
  then obtain s r where IH:
    "ws_sent (flush_loop oc (Suc i) ms (send (oc i) m True w)) = ws_sent (send (oc i) m True w) @ s"
    "ws_durable_queue (flush_loop oc (Suc i) ms (send (oc i) m True w)) =
       ws_durable_queue (send (oc i) m True w) @ r"
    "ms \<in> shuffles s r" by blast
  have "m # ms \<in> shuffles (m # s) r" "m # ms \<in> shuffles s (m # r)"
    using IH(3) by (auto intro: Cons_in_shuffles_leftI Cons_in_shuffles_rightI)
  moreover have "ws_sent (send (oc i) m True w) = ws_sent w @ [m] \<and>
      ws_durable_queue (send (oc i) m True w) = ws_durable_queue w \<or>
      ws_sent (send (oc i) m True w) = ws_sent w \<and>
      ws_durable_queue (send (oc i) m True w) = ws_durable_queue w @ [m]"
    by (simp add: send_def)
  ultimately show ?case
    using IH by (metis append.assoc append_Cons append_Nil flush_loop.simps(2))
qed

lemma flush_durable_queue_shape:
  "\<exists>s r. ws_sent (flush_durable_queue oc w) = ws_sent w @ s \<and>
         ws_durable_queue (flush_durable_queue oc w) = r \<and> ws_durable_queue w \<in> shuffles s r"
  using flush_loop_shape [of oc 0 "ws_durable_queue w" "w\<lparr>ws_durable_queue := []\<rparr>"]
  by (simp add: flush_durable_queue_def)

text \<open>The contract between the job worker and its event channel.\<close>

locale durable_channel =
  fixes delivered :: "'s \<Rightarrow> 'm list"
    and pending :: "'s \<Rightarrow> 'm list"
    and post :: "'o \<Rightarrow> 'm \<Rightarrow> 's \<Rightarrow> 's"
    and flush :: "'f \<Rightarrow> 's \<Rightarrow> 's"
  assumes post_conserves: "mset (delivered (post oc m s)) + mset (pending (post oc m s)) =
      add_mset m (mset (delivered s) + mset (pending s))"
    and post_grows: "prefix (delivered s) (delivered (post oc m s))"
    and flush_conserves: "mset (delivered (flush f s)) + mset (pending (flush f s)) =
      mset (delivered s) + mset (pending s)"
    and flush_grows: "prefix (delivered s) (delivered (flush f s))"
begin

text \<open>The events the channel holds: what was delivered and what still waits.\<close>

definition events :: "'s \<Rightarrow> 'm multiset" where
  "events s = mset (delivered s) + mset (pending s)"

lemma events_post [simp]: "events (post oc m s) = add_mset m (events s)"
  by (simp add: events_def post_conserves)

lemma events_flush [simp]: "events (flush f s) = events s"
  by (simp add: events_def flush_conserves)

lemma events_posts: "events (fold (\<lambda>(oc, m). post oc m) ps s) = mset (map snd ps) + events s"
  by (induction ps arbitrary: s) auto

lemma flush_after_posts_loses_nothing:
  "events (flush f (fold (\<lambda>(oc, m). post oc m) ps s)) = mset (map snd ps) + events s"
  by (simp add: events_posts)

lemma delivered_stays:
  "m \<in> set (delivered s) \<Longrightarrow> m \<in> set (delivered (post oc m' s)) \<and> m \<in> set (delivered (flush f s))"
  using set_mono_prefix [OF post_grows] set_mono_prefix [OF flush_grows] by blast

end

interpretation wsq: durable_channel "ws_sent" "ws_durable_queue" "\<lambda>oc m w. send oc m True w"
  flush_durable_queue
proof (unfold_locales, goal_cases)
  case (1 oc m s)
  then show ?case by (simp add: send_def)
next
  case (2 s oc m)
  then show ?case by (simp add: send_def)
next
  case (3 f s)
  obtain a r where "ws_sent (flush_durable_queue f s) = ws_sent s @ a"
    "ws_durable_queue (flush_durable_queue f s) = r" "ws_durable_queue s \<in> shuffles a r"
    using flush_durable_queue_shape by metis
  then show ?case by (simp add: mset_shuffles)
next
  case (4 s f)
  then show ?case using flush_durable_queue_shape [of f s] by auto
qed

section \<open>Order of a flush\<close>

text \<open>A closed socket stays closed.\<close>

definition stays_closed :: "(nat \<Rightarrow> send_outcome) \<Rightarrow> bool" where
  "stays_closed oc \<longleftrightarrow> (\<forall>i j. i \<le> j \<longrightarrow> oc i = Closed \<longrightarrow> oc j = Closed)"

lemma flush_loop_closed:
  "\<forall>j\<ge>i. oc j = Closed \<Longrightarrow> flush_loop oc i ms w = w\<lparr>ws_durable_queue := ws_durable_queue w @ ms\<rparr>"
  by (induction ms arbitrary: i w) (auto simp: send_def)

lemma flush_loop_order:
  assumes "stays_closed oc"
  shows "\<exists>k. flush_loop oc i ms w =
    w\<lparr>ws_sent := ws_sent w @ take k ms, ws_durable_queue := ws_durable_queue w @ drop k ms\<rparr>"
proof (induction ms arbitrary: i w)
  case Nil
  then show ?case by simp
next
  case (Cons m ms)
  show ?case
  proof (cases "ws_socket w \<and> oc i = Accepted")
    case True
    then obtain k where "flush_loop oc (Suc i) ms (send (oc i) m True w) =
        w\<lparr>ws_sent := ws_sent w @ m # take k ms, ws_durable_queue := ws_durable_queue w @ drop k ms\<rparr>"
      using Cons [of "Suc i" "send (oc i) m True w"] by (auto simp: send_def)
    then show ?thesis by (intro exI [of _ "Suc k"]) simp
  next
    case False
    have closed: "flush_loop oc i (m # ms) w = w\<lparr>ws_durable_queue := ws_durable_queue w @ m # ms\<rparr>"
    proof (cases "ws_socket w")
      case True
      with False have "oc i = Closed" by (cases "oc i") auto
      then show ?thesis using assms by (intro flush_loop_closed) (auto simp: stays_closed_def)
    next
      case False
      then have "flush_loop oc i' xs v = v\<lparr>ws_durable_queue := ws_durable_queue v @ xs\<rparr>"
        if "\<not> ws_socket v" for i' xs and v :: "'a ws_client_scheme"
        using that by (induction xs arbitrary: i' v) (auto simp: send_def)
      then show ?thesis using False by blast
    qed
    then show ?thesis by (intro exI [of _ 0]) simp
  qed
qed

section \<open>The reconnect loop\<close>

definition authenticates :: "value_reader \<Rightarrow> (string \<Rightarrow> loads_outcome) \<Rightarrow> connection \<Rightarrow> bool" where
  "authenticates R loads cn \<longleftrightarrow> cn_connect cn = None \<and> cn_auth_send cn = Accepted \<and>
     (case cn_reply cn of
        Frame raw \<Rightarrow> (case decode R loads raw of Inr (Some (InAuthenticated _)) \<Rightarrow> True | _ \<Rightarrow> False)
      | _ \<Rightarrow> False)"

text \<open>The reference for the delays: every authenticated attempt starts the schedule over.\<close>

fun delay_spec :: "bool list \<Rightarrow> nat \<Rightarrow> nat list" where
  "delay_spec [] i = []"
| "delay_spec (b # bs) i = (let k = (if b then 0 else i) in backoff_delay k # delay_spec bs (Suc k))"

lemma authenticates_iff:
  "cn_connect cn = None \<Longrightarrow>
     authenticates R loads cn \<longleftrightarrow> (\<exists>w' a. authenticate R loads cn w = (w', Inr (Some a)))"
  by (cases "cn_auth_send cn")
    (auto simp: authenticate_def authenticates_def Let_def
      split: recv_outcome.splits sum.splits option.splits InboundHubMessage.splits)

lemma session_index:
  assumes "session cb R loads cn i w = (w', i', e)"
  shows "i' = (if authenticates R loads cn then 0 else i)"
proof (cases "cn_connect cn")
  case (Some x)
  then show ?thesis using assms by (auto simp: session_def authenticates_def)
next
  case None
  then show ?thesis
    using assms authenticates_iff [OF None, of R loads "w\<lparr>ws_socket := True\<rparr>"]
    by (auto simp: session_def Let_def split: prod.splits sum.splits option.splits)
qed

lemma run_forever_delays:
  "run_forever cb R loads cns i w = (w', ds, r) \<Longrightarrow> prefix ds (delay_spec (map (authenticates R loads) cns) i)"
proof (induction cb R loads cns i w arbitrary: w' ds r rule: run_forever.induct)
  case (1 cb R loads i w)
  then show ?case by simp
next
  case (2 cb R loads cn cns i w)
  show ?case
  proof (cases "ds = []")
    case False
    obtain w1 i1 e where s: "session cb R loads cn i w = (w1, i1, e)" by (metis prod_cases3)
    obtain w2 e2 where d: "disconnect cb (if cn_stop_during cn then ws_stop w1 else w1) = (w2, e2)" by fastforce
    let ?w3 = "if cn_stop_in_delay cn then ws_stop w2 else w2"
    obtain w4 ds' r' where rec: "run_forever cb R loads cns (Suc i1) ?w3 = (w4, ds', r')"
      by (metis prod_cases3)
    have ds: "ds = backoff_delay i1 # ds'" "\<not> ws_stop_event w" "\<not> escapes e" "\<not> ws_stop_event w2" "e2 = None"
      using "2.prems" False s d rec by (auto simp: Let_def split: if_splits)
    have "prefix ds' (delay_spec (map (authenticates R loads) cns) (Suc i1))"
      using "2.IH" [OF ds(2) s [symmetric] refl refl d [symmetric] refl _ ds(3,4) refl rec] ds(5) by simp
    with ds(1) session_index [OF s] show ?thesis by (simp add: Let_def)
  qed simp
qed

lemma backoff_delay_in_schedule: "backoff_delay i \<in> set RECONNECT_BACKOFF_SCHEDULE"
  unfolding backoff_delay_def by (rule nth_mem) (simp add: RECONNECT_BACKOFF_SCHEDULE_def)

lemma backoff_delay_mono: "i \<le> j \<Longrightarrow> backoff_delay i \<le> backoff_delay j"
proof -
  assume "i \<le> j"
  moreover have "sorted RECONNECT_BACKOFF_SCHEDULE" by (simp add: RECONNECT_BACKOFF_SCHEDULE_def)
  ultimately show ?thesis
    unfolding backoff_delay_def by (intro sorted_nth_mono) (auto simp: RECONNECT_BACKOFF_SCHEDULE_def)
qed

lemma run_forever_Escaped:
  "run_forever cb R loads cns i w = (w', ds, Escaped e) \<Longrightarrow> (\<And>v. snd (on_disconnected cb v) = None) \<Longrightarrow>
     \<not> caught e"
proof (induction cb R loads cns i w arbitrary: w' ds rule: run_forever.induct)
  case (2 cb R loads cn cns i w)
  obtain w1 i1 x where s: "session cb R loads cn i w = (w1, i1, x)" by (metis prod_cases3)
  obtain w2 where d: "disconnect cb (if cn_stop_during cn then ws_stop w1 else w1) = (w2, None)"
    using "2.prems"(2) unfolding disconnect_def by (metis prod.collapse)
  let ?w3 = "if cn_stop_in_delay cn then ws_stop w2 else w2"
  obtain w4 ds' r' where rec: "run_forever cb R loads cns (Suc i1) ?w3 = (w4, ds', r')" by (metis prod_cases3)
  consider "escapes x" "e = the x" | "\<not> ws_stop_event w" "\<not> escapes x" "\<not> ws_stop_event w2" "r' = Escaped e"
    using "2.prems"(1) s d rec by (auto simp: Let_def split: if_splits)
  then show ?case
  proof cases
    case 1
    then show ?thesis by (auto simp: escapes_def split: option.splits)
  next
    case 2
    then show ?thesis
      using "2.IH" [OF 2(1) s [symmetric] refl refl d [symmetric] refl _ 2(2,3) refl] rec "2.prems"(2) by simp
  qed
qed (simp split: if_splits)

section \<open>Properties\<close>

text \<open>
  C16: No durable message is lost. However many durable messages are sent, over open, closed or
  failing sockets, and however the flush after the next authentication goes, every message is
  afterwards either sent or still in the buffer, exactly as often as it was sent.
\<close>

theorem durable_never_lost:
  "let w' = flush_durable_queue oc (fold (\<lambda>(out, m). send out m True) ps w)
   in mset (ws_sent w') + mset (ws_durable_queue w') =
      mset (ws_sent w) + mset (ws_durable_queue w) + mset (map snd ps)"
  using wsq.flush_after_posts_loses_nothing [of oc ps w] by (simp add: wsq.events_def Let_def)

text \<open>
  A flush keeps the order. When a socket that has closed stays closed, \<^verbatim>\<open>_flush_durable_queue\<close>
  sends an initial part of the buffer in order and keeps exactly the rest, in order; nothing else
  of the client changes.
\<close>

theorem flush_in_order:
  assumes "stays_closed oc"
  shows "\<exists>k. flush_durable_queue oc w =
    w\<lparr>ws_sent := ws_sent w @ take k (ws_durable_queue w), ws_durable_queue := drop k (ws_durable_queue w)\<rparr>"
  using flush_loop_order [OF assms, of 0 "ws_durable_queue w" "w\<lparr>ws_durable_queue := []\<rparr>"]
  by (auto simp: flush_durable_queue_def)

definition idle_client :: ws_client where
  "idle_client = \<lparr>ws_agent_id = ''a'', ws_agent_secret = ''s'', ws_hostname = ''h'', ws_os_name = ''o'',
     ws_agent_version = ''1'', ws_hub_url = ''wss://hub'', ws_socket = True, ws_durable_queue = [],
     ws_stop_event = False, ws_connected = False, ws_sent = []\<rparr>"

theorem flush_in_order_witness:
  "stays_closed (\<lambda>i. if i < 1 then Accepted else Closed) \<and>
   (\<exists>k. flush_durable_queue (\<lambda>i. if i < 1 then Accepted else Closed)
       (idle_client\<lparr>ws_durable_queue := [PrintJobStarted ''t'' ''j'', PrintJobCompleted ''t'' ''j'']\<rparr>) =
      idle_client\<lparr>ws_durable_queue := drop k [PrintJobStarted ''t'' ''j'', PrintJobCompleted ''t'' ''j''],
        ws_sent := take k [PrintJobStarted ''t'' ''j'', PrintJobCompleted ''t'' ''j'']\<rparr>)"
proof -
  have c: "stays_closed (\<lambda>i. if i < 1 then Accepted else Closed)" by (simp add: stays_closed_def)
  from flush_in_order [OF this, of "idle_client\<lparr>ws_durable_queue :=
      [PrintJobStarted ''t'' ''j'', PrintJobCompleted ''t'' ''j'']\<rparr>"] c
  show ?thesis by (simp add: idle_client_def)
qed


definition refused :: connection where
  "refused = \<lparr>cn_connect = Some (Py (OSError ''refused'')), cn_now = ''t'', cn_auth_send = Accepted,
     cn_reply = RecvClosed, cn_flush = (\<lambda>_. Accepted), cn_frames = [], cn_end = None,
     cn_stop_during = False, cn_stop_in_delay = False\<rparr>"

definition no_callbacks :: "'s callbacks" where
  "no_callbacks = \<lparr>on_authenticated = (\<lambda>_ s. (s, None)), on_inbound_message = (\<lambda>_ s. (s, None)),
     on_disconnected = (\<lambda>s. (s, None))\<rparr>"


text \<open>
  A failed attempt loses nothing and leaves the client disconnected. An attempt that does not
  authenticate leaves the durable buffer and the back-off index as they were, marks nothing as
  connected, and sends at most the authentication itself.
\<close>

theorem failed_attempt_keeps_buffer:
  assumes "\<not> authenticates R loads cn" and "session cb R loads cn i w = (w', i', e)"
  shows "ws_durable_queue w' = ws_durable_queue w \<and> i' = i \<and> e \<noteq> None \<and> ws_connected w' = ws_connected w \<and>
    prefix (ws_sent w') (ws_sent w @ [authenticate_message (cn_now cn) w])"
proof (cases "cn_connect cn")
  case (Some x)
  with assms(2) have "w' = w" "i' = i" "e = Some x" by (simp_all add: session_def)
  then show ?thesis by simp
next
  case None
  have "authenticate_message n (w\<lparr>ws_socket := b\<rparr>) = authenticate_message n w" for n b
    by (simp add: authenticate_message_def)
  then show ?thesis
    using assms None
    by (cases "cn_auth_send cn") (auto simp: session_def authenticate_def authenticates_def Let_def
        split: recv_outcome.splits sum.splits option.splits InboundHubMessage.splits)
qed

theorem failed_attempt_keeps_buffer_witness:
  "\<exists>w' i' e. session no_callbacks strict_reader (\<lambda>_. NotJson) (refused\<lparr>cn_connect := None\<rparr>) 4 idle_client =
     (w', i', e) \<and> i' = 4 \<and> e \<noteq> None \<and> ws_durable_queue w' = []"
proof -
  obtain w' i' e where s: "session no_callbacks strict_reader (\<lambda>_. NotJson) (refused\<lparr>cn_connect := None\<rparr>) 4 idle_client =
      (w', i', e)" by (metis prod_cases3)
  have "\<not> authenticates strict_reader (\<lambda>_. NotJson) (refused\<lparr>cn_connect := None\<rparr>)"
    by (simp add: authenticates_def refused_def)
  from failed_attempt_keeps_buffer [OF this s] s show ?thesis by (simp add: idle_client_def)
qed


text \<open>A hub that accepts the agent and then sends an object whose type is a list.\<close>

definition poison_loads :: "string \<Rightarrow> loads_outcome" where
  "poison_loads raw = (if raw = ''hello'' then Loaded (inbound_json (InAuthenticated
     \<lparr>aa_ts = ''t'', aa_agentId = ''a'', aa_tenantId = ''T'', aa_siteId = None, aa_serverTime = ''t'',
      aa_heartbeatIntervalMs = 30000, aa_knownPrinters = []\<rparr>))
   else Loaded (JObj [(''type'', JList [])]))"


text \<open>
  As long as the disconnection callback does not raise, the reconnect loop gives up only by a stop
  request or on an exception outside its \<^verbatim>\<open>except\<close> clause: whatever the network does, it never ends on a lost connection, a timeout or an \<^verbatim>\<open>OSError\<close>.
\<close>

lemma loop_survives_network_errors:
  assumes "run_forever cb R loads cns i w = (w', ds, Escaped e)" and "\<And>v. snd (on_disconnected cb v) = None"
  shows "e \<noteq> ConnectionClosed \<and> e \<noteq> TimeoutError \<and> e \<noteq> Py (OSError msg)"
  using run_forever_Escaped [OF assms] by auto

end
