(* ===== verification/Url.thy ===== *)
theory Url
  imports Agent_Prelude
begin

text \<open>
  What the agent uses of Python's \<^verbatim>\<open>urllib.parse.urlparse\<close>: the scheme and the host name of a URL,
  for the ASCII part of the character set. Python's check of a bracketed (IPv6) host is an
  argument, because it differs between Python versions; the test for unbalanced brackets, which
  raises \<^verbatim>\<open>ValueError\<close>, is written out. Also here: the \<^verbatim>\<open>/\<close> operator of \<^verbatim>\<open>pathlib\<close> and \<^verbatim>\<open>repr\<close> of a
  string, which the callers use in file names and messages.
\<close>

section \<open>Scheme and network location\<close>

definition is_ascii_alpha :: "char \<Rightarrow> bool" where
  "is_ascii_alpha c \<longleftrightarrow> (let n = (of_char c :: nat) in (65 \<le> n \<and> n \<le> 90) \<or> (97 \<le> n \<and> n \<le> 122))"

definition is_digit_char :: "char \<Rightarrow> bool" where
  "is_digit_char c \<longleftrightarrow> (let n = (of_char c :: nat) in 48 \<le> n \<and> n \<le> 57)"

definition scheme_char :: "char \<Rightarrow> bool" where
  "scheme_char c \<longleftrightarrow> is_ascii_alpha c \<or> is_digit_char c \<or> c \<in> set ''+-.''"

text \<open>Leading control characters and spaces go, tab and line ends go everywhere.\<close>

definition clean_url :: "string \<Rightarrow> string" where
  "clean_url u = filter (\<lambda>c. (of_char c :: nat) \<notin> {9, 10, 13}) (dropWhile (\<lambda>c. (of_char c :: nat) \<le> 32) u)"

definition split_scheme :: "string \<Rightarrow> string \<times> string" where
  "split_scheme u =
     (let (pre, found, post) = partition_at (CHR '':'') u
      in if found \<and> pre \<noteq> [] \<and> is_ascii_alpha (hd pre) \<and> list_all scheme_char pre
         then (py_lower pre, post) else ([], u))"

definition url_netloc :: "string \<Rightarrow> string" where
  "url_netloc rest =
     (if starts_with ''//'' rest then takeWhile (\<lambda>c. c \<notin> set ''/?#'') (drop 2 rest) else [])"

record parsed_url =
  pu_scheme :: string
  pu_netloc :: string

definition urlparse :: "(string \<Rightarrow> bool) \<Rightarrow> string \<Rightarrow> parsed_url result" where
  "urlparse bracket_ok url =
     (let (scheme, rest) = split_scheme (clean_url url);
          netloc = url_netloc rest;
          opn = CHR ''['' \<in> set netloc; cls = CHR '']'' \<in> set netloc
      in if opn \<noteq> cls then Inl (ValueError ''Invalid IPv6 URL'')
         else if opn \<and> \<not> bracket_ok netloc then Inl (ValueError ''Invalid IPv6 URL'')
         else Inr \<lparr>pu_scheme = scheme, pu_netloc = netloc\<rparr>)"

section \<open>Host name\<close>

text \<open>\<^verbatim>\<open>netloc.rpartition('@')[2]\<close>: what follows the last at-sign, or everything.\<close>

definition after_last_at :: "string \<Rightarrow> string" where
  "after_last_at s = rev (takeWhile (\<lambda>c. c \<noteq> CHR ''@'') (rev s))"

definition hostname :: "parsed_url \<Rightarrow> string option" where
  "hostname p =
     (let hostinfo = after_last_at (pu_netloc p);
          (_, have_open, bracketed) = partition_at (CHR ''['') hostinfo;
          host = (if have_open then fst (partition_at (CHR '']'') bracketed)
                  else fst (partition_at (CHR '':'') hostinfo));
          (name, percent, zone) = partition_at (CHR ''%'') host
      in if host = [] then None
         else Some (py_lower name @ (if percent then ''%'' @ zone else [])))"

section \<open>Paths and representations\<close>

definition path_join :: "string \<Rightarrow> string \<Rightarrow> string" where
  "path_join dir name = (if starts_with ''/'' name then name else dir @ ''/'' @ name)"

definition hex_digit :: "nat \<Rightarrow> char" where
  "hex_digit n = ''0123456789abcdef'' ! (n mod 16)"

definition repr_char :: "char \<Rightarrow> char \<Rightarrow> string" where
  "repr_char q c =
     (let n = (of_char c :: nat)
      in if c = q \<or> n = 92 then [char_of (92 :: nat), c]
         else if n = 10 then [char_of (92 :: nat), CHR ''n'']
         else if n = 13 then [char_of (92 :: nat), CHR ''r'']
         else if n = 9 then [char_of (92 :: nat), CHR ''t'']
         else if n < 32 \<or> (127 \<le> n \<and> n \<le> 160) \<or> n = 173
           then [char_of (92 :: nat), CHR ''x'', hex_digit (n div 16), hex_digit n]
         else [c])"

definition py_repr :: "string \<Rightarrow> string" where
  "py_repr s =
     (let sq = char_of (39 :: nat); dq = char_of (34 :: nat);
          q = (if sq \<in> set s \<and> dq \<notin> set s then dq else sq)
      in q # concat (map (repr_char q) s) @ [q])"

definition py_repr_opt :: "string option \<Rightarrow> string" where
  "py_repr_opt s = (case s of None \<Rightarrow> ''None'' | Some t \<Rightarrow> py_repr t)"

section \<open>Lemmas\<close>

lemma after_last_at_user: "CHR ''@'' \<notin> set h \<Longrightarrow> after_last_at (u @ ''@'' @ h) = h"
  by (simp add: after_last_at_def)

lemma after_last_at_none: "CHR ''@'' \<notin> set h \<Longrightarrow> after_last_at h = h"
  by (simp add: after_last_at_def)

text \<open>User information before an at-sign never becomes the host name.\<close>

lemma hostname_plain:
  assumes "set h \<inter> set ''@[]:%'' = {}" and "h \<noteq> []"
  shows "hostname \<lparr>pu_scheme = s, pu_netloc = h\<rparr> = Some (py_lower h)"
    and "hostname \<lparr>pu_scheme = s, pu_netloc = u @ ''@'' @ h\<rparr> = Some (py_lower h)"
proof -
  have "after_last_at h = h" "after_last_at (u @ ''@'' @ h) = h"
    using assms by (auto intro!: after_last_at_none after_last_at_user [simplified])
  moreover have "partition_at (CHR ''['') h = (h, False, [])" "partition_at (CHR '':'') h = (h, False, [])"
    "partition_at (CHR ''%'') h = (h, False, [])"
    using assms(1) by (auto intro!: partition_at_absent)
  ultimately show "hostname \<lparr>pu_scheme = s, pu_netloc = h\<rparr> = Some (py_lower h)"
    and "hostname \<lparr>pu_scheme = s, pu_netloc = u @ ''@'' @ h\<rparr> = Some (py_lower h)"
    using assms(2) by (simp_all add: hostname_def)
qed

section \<open>Properties\<close>

text \<open>
  User information cannot pose as the host: of a network location \<^verbatim>\<open>user@host\<close>, whatever the user
  part says, \<^verbatim>\<open>hostname\<close> is the lower-cased host after the last at-sign.
\<close>

theorem userinfo_is_not_host:
  assumes "set h \<inter> set ''@[]:%'' = {}" and "h \<noteq> []"
  shows "hostname \<lparr>pu_scheme = s, pu_netloc = u @ ''@'' @ h\<rparr> = Some (py_lower h)"
  by (rule hostname_plain(2) [OF assms])

theorem userinfo_is_not_host_witness:
  "hostname \<lparr>pu_scheme = ''https'', pu_netloc = ''e.com:x'' @ ''@'' @ ''Evil''\<rparr> = Some (py_lower ''Evil'')"
  by (rule userinfo_is_not_host) simp_all

end
