(* ===== verification/Downloader.thy ===== *)
theory Downloader
  imports Url "HOL-Library.Word"
begin

text \<open>
  The document download of \<^verbatim>\<open>eres_print_agent/net/downloader.py\<close>. The network is an argument: an
  \<^verbatim>\<open>http_script\<close> says what \<^verbatim>\<open>httpx\<close> does with the request (the status, the content type header, the
  body chunks and how the stream ends, or the exception it raises). The file system is a map from
  paths to contents; \<^verbatim>\<open>disk_error\<close> says for which paths creating the directory or opening the file
  raises. SHA-256 is an argument. Bytes are 8-bit words.

  Shown here: what a returned result guarantees (scheme, pinned host, status, content type, size,
  content and digest of the stored file), the error code of every download error, that a rejected
  URL touches neither network nor disk, and that the file written never exceeds the size limit.
\<close>

section \<open>Errors, results, environment\<close>

type_synonym byte = "8 word"
type_synonym files = "string \<rightharpoonup> byte list"

text \<open>An exception that leaves \<^verbatim>\<open>download_document\<close>: the download's own, with its error code and
  message, or any other.\<close>

datatype download_exc = DownloadError string string | Unhandled py_error

record DownloadResult =
  dr_file_path :: string
  dr_byte_count :: nat
  dr_sha256 :: string

datatype http_exc = HttpTimeout string | HttpError string | HttpOther py_error

datatype http_script =
    RequestRaises http_exc
  | Response int "string option" "byte list list" "http_exc option"

record download_env =
  env_http :: http_script
  env_disk_error :: "string \<Rightarrow> py_error option"
  env_sha256 :: "byte list \<Rightarrow> string"
  env_bracket_ok :: "string \<Rightarrow> bool"

definition DOWNLOAD_MAX_BYTES :: nat where
  "DOWNLOAD_MAX_BYTES = 25 * 1024 * 1024"

definition PRINT_JOB_ERROR_CODES :: "string set" where
  "PRINT_JOB_ERROR_CODES =
     {''PRINTER_OFFLINE'', ''PRINTER_ERROR'', ''DOWNLOAD_FAILED'', ''CHECKSUM_MISMATCH'', ''TIMEOUT'',
      ''AGENT_RESTARTED_DURING_PRINT'', ''CANCELLED_BY_USER'', ''INVALID_JOB''}"

definition ALLOWED_CONTENT_TYPES :: "string list" where
  "ALLOWED_CONTENT_TYPES = [''application/pdf'']"

section \<open>Validation\<close>

definition validate_url ::
  "(string \<Rightarrow> bool) \<Rightarrow> string \<Rightarrow> string option \<Rightarrow> bool \<Rightarrow> download_exc + unit" where
  "validate_url bracket_ok url allowed_host allow_insecure_http =
     (case urlparse bracket_ok url of
        Inl e \<Rightarrow> Inl (Unhandled e)
      | Inr parsed \<Rightarrow>
          if pu_scheme parsed \<notin> {''https'', ''http''}
          then Inl (DownloadError ''INVALID_JOB'' (''Unsupported URL scheme: '' @ py_repr (pu_scheme parsed)))
          else if pu_scheme parsed = ''http'' \<and> \<not> allow_insecure_http
          then Inl (DownloadError ''INVALID_JOB'' ''Refusing to fetch a document over plain HTTP'')
          else if py_truthy allowed_host \<and> hostname parsed \<noteq> allowed_host
          then Inl (DownloadError ''INVALID_JOB'' (''documentUrl host '' @ py_repr_opt (hostname parsed) @
                 '' does not match the paired ERES host '' @ py_repr_opt allowed_host))
          else Inr ())"

text \<open>\<^verbatim>\<open>headers.get("content-type", "").split(";")[0].strip().lower()\<close>\<close>

definition normal_content_type :: "string option \<Rightarrow> string" where
  "normal_content_type h =
     py_lower (py_strip (fst (partition_at (CHR '';'') (case h of None \<Rightarrow> [] | Some v \<Rightarrow> v))))"

section \<open>The transfer\<close>

text \<open>The chunk loop: bytes counted, bytes hashed, bytes written, and whether the limit was hit. A
  chunk that crosses the limit is counted but neither hashed nor written.\<close>

fun write_chunks :: "nat \<Rightarrow> byte list list \<Rightarrow> nat \<times> byte list \<times> byte list \<Rightarrow> (nat \<times> byte list \<times> byte list) \<times> bool"
where
  "write_chunks max_bytes [] s = (s, False)"
| "write_chunks max_bytes (chunk # chunks) (n, hashed, written) =
     (let n' = n + length chunk
      in if n' > max_bytes then ((n', hashed, written), True)
         else write_chunks max_bytes chunks (n', hashed @ chunk, written @ chunk))"

definition http_failure :: "http_exc \<Rightarrow> download_exc" where
  "http_failure e = (case e of
     HttpTimeout t \<Rightarrow> DownloadError ''TIMEOUT'' (''Document download timed out: '' @ t)
   | HttpError t \<Rightarrow> DownloadError ''DOWNLOAD_FAILED'' (''Document download failed: '' @ t)
   | HttpOther x \<Rightarrow> Unhandled x)"

text \<open>The inner \<^verbatim>\<open>_run\<close> together with the \<^verbatim>\<open>except\<close> clauses around it: the file system afterwards,
  the byte count, what was hashed, and the exception if one was raised.\<close>

definition fetch ::
  "download_env \<Rightarrow> string \<Rightarrow> nat \<Rightarrow> files \<Rightarrow> files \<times> nat \<times> byte list \<times> download_exc option" where
  "fetch env dest_path max_bytes fs =
     (case env_http env of
        RequestRaises e \<Rightarrow> (fs, 0, [], Some (http_failure e))
      | Response status ctype chunks fin \<Rightarrow>
          if status \<noteq> 200
          then (fs, 0, [], Some (DownloadError ''DOWNLOAD_FAILED''
                 (''Document fetch returned HTTP '' @ int_digits status)))
          else if normal_content_type ctype \<notin> set ALLOWED_CONTENT_TYPES
          then (fs, 0, [], Some (DownloadError ''DOWNLOAD_FAILED'' (''Unexpected content type: '' @
                 (if normal_content_type ctype = [] then ''(none)'' else normal_content_type ctype))))
          else (case env_disk_error env dest_path of
                  Some e \<Rightarrow> (fs, 0, [], Some (Unhandled e))
                | None \<Rightarrow>
                    let ((n, hashed, written), too_big) = write_chunks max_bytes chunks (0, [], []);
                        fs' = fs(dest_path \<mapsto> written)
                    in if too_big
                       then (fs', n, hashed, Some (DownloadError ''DOWNLOAD_FAILED''
                              (''Document exceeds max size of '' @ nat_digits max_bytes @ '' bytes'')))
                       else (fs', n, hashed, map_option http_failure fin)))"

definition dest_path :: "string \<Rightarrow> string \<Rightarrow> string" where
  "dest_path dest_dir job_id = path_join dest_dir (job_id @ ''.pdf'')"

definition download_document ::
  "download_env \<Rightarrow> string \<Rightarrow> string \<Rightarrow> string \<Rightarrow> string option \<Rightarrow> bool \<Rightarrow> nat \<Rightarrow> files \<Rightarrow>
     files \<times> (download_exc + DownloadResult)" where
  "download_document env url dest_dir job_id allowed_host allow_insecure_http max_bytes fs =
     (case validate_url (env_bracket_ok env) url allowed_host allow_insecure_http of
        Inl e \<Rightarrow> (fs, Inl e)
      | Inr _ \<Rightarrow>
          (case env_disk_error env dest_dir of
             Some e \<Rightarrow> (fs, Inl (Unhandled e))
           | None \<Rightarrow>
               let path = dest_path dest_dir job_id
               in (case fetch env path max_bytes fs of
                     (fs', n, hashed, Some e) \<Rightarrow> (fs', Inl e)
                   | (fs', n, hashed, None) \<Rightarrow>
                       if n = 0 then (fs', Inl (DownloadError ''DOWNLOAD_FAILED'' ''Document was empty''))
                       else (fs', Inr \<lparr>dr_file_path = path, dr_byte_count = n,
                                       dr_sha256 = env_sha256 env hashed\<rparr>))))"

section \<open>Lemmas\<close>

lemma write_chunks_prefix:
  assumes "write_chunks mx cs (n, h, w) = ((n', h', w'), big)"
    and "h = w" and "n = length w" and "n \<le> mx"
  shows "h' = w' \<and> length w' \<le> mx \<and> prefix w' (w @ concat cs) \<and>
         (\<not> big \<longrightarrow> w' = w @ concat cs \<and> n' = length w') \<and> (big \<longleftrightarrow> mx < n + length (concat cs))"
  using assms
proof (induction cs arbitrary: n h w)
  case Nil
  then show ?case by auto
next
  case (Cons c cs)
  show ?case
  proof (cases "mx < n + length c")
    case True
    with Cons.prems show ?thesis by (auto simp: Let_def)
  next
    case False
    with Cons.prems have "write_chunks mx cs (n + length c, h @ c, w @ c) = ((n', h', w'), big)"
      by (simp add: Let_def)
    from Cons.IH [OF this] False Cons.prems show ?thesis by (simp add: add.assoc)
  qed
qed

lemma write_chunks_all:
  "write_chunks mx cs (0, [], []) = ((n, h, w), big) \<Longrightarrow>
     h = w \<and> length w \<le> mx \<and> (\<not> big \<longrightarrow> w = concat cs \<and> n = length w) \<and> (big \<longleftrightarrow> mx < length (concat cs))"
  using write_chunks_prefix [of mx cs 0 "[]" "[]" n h w big] by auto

lemma validate_url_ok:
  assumes "validate_url ok url host insecure = Inr u"
  shows "\<exists>p. urlparse ok url = Inr p \<and>
    (pu_scheme p = ''https'' \<or> pu_scheme p = ''http'' \<and> insecure) \<and>
    (py_truthy host \<longrightarrow> hostname p = host)"
  using assms by (auto simp: validate_url_def split: sum.splits if_splits)

lemma validate_url_code:
  "validate_url ok url host insecure = Inl (DownloadError c m) \<Longrightarrow> c = ''INVALID_JOB''"
  by (auto simp: validate_url_def split: sum.splits if_splits)

lemma http_failure_code:
  "http_failure e = DownloadError c m \<Longrightarrow> c = ''TIMEOUT'' \<or> c = ''DOWNLOAD_FAILED''"
  by (auto simp: http_failure_def split: http_exc.splits)

lemma fetch_code:
  "fetch env p mx fs = (fs', n, h, Some (DownloadError c m)) \<Longrightarrow> c = ''TIMEOUT'' \<or> c = ''DOWNLOAD_FAILED''"
  by (auto simp: fetch_def Let_def split: http_script.splits if_splits option.splits prod.splits
      dest: http_failure_code http_failure_code [OF sym])

lemma fetch_files:
  "fetch env p mx fs = (fs', n, h, e) \<Longrightarrow> fs' = fs \<or> (\<exists>w. fs' = fs(p \<mapsto> w) \<and> length w \<le> mx)"
  by (auto simp: fetch_def Let_def split: http_script.splits if_splits option.splits prod.splits
      dest!: write_chunks_all)

lemma fetch_ok:
  assumes "fetch env p mx fs = (fs', n, h, None)"
  shows "\<exists>ct cs. env_http env = Response 200 ct cs None \<and>
    normal_content_type ct \<in> set ALLOWED_CONTENT_TYPES \<and>
    fs' = fs(p \<mapsto> concat cs) \<and> h = concat cs \<and> n = length (concat cs) \<and> n \<le> mx"
  using assms by (auto simp: fetch_def Let_def split: http_script.splits if_splits option.splits prod.splits
      dest!: write_chunks_all)

section \<open>Properties\<close>

text \<open>
  C19: What a successful download guarantees. The URL was https (or http where the developer flag
  allows it) and its host is the paired host, if one is set; the response was a 200 with a PDF
  content type; the file holds exactly the bytes received, more than none and at most the limit;
  the reported count and digest are of those bytes; and no other file was touched.
\<close>

theorem download_success:
  assumes "download_document env url dir j host insecure mx fs = (fs', Inr res)"
  shows "\<exists>p ct chunks. urlparse (env_bracket_ok env) url = Inr p \<and>
    (pu_scheme p = ''https'' \<or> pu_scheme p = ''http'' \<and> insecure) \<and> (py_truthy host \<longrightarrow> hostname p = host) \<and>
    env_http env = Response 200 ct chunks None \<and> normal_content_type ct \<in> set ALLOWED_CONTENT_TYPES \<and>
    fs' = fs(dest_path dir j \<mapsto> concat chunks) \<and> 0 < length (concat chunks) \<and> length (concat chunks) \<le> mx \<and>
    res = \<lparr>dr_file_path = dest_path dir j, dr_byte_count = length (concat chunks),
           dr_sha256 = env_sha256 env (concat chunks)\<rparr>"
proof -
  have v: "validate_url (env_bracket_ok env) url host insecure = Inr ()"
    using assms by (auto simp: download_document_def split: sum.splits)
  obtain n h where f: "fetch env (dest_path dir j) mx fs = (fs', n, h, None)" and n: "n \<noteq> 0"
    and r: "res = \<lparr>dr_file_path = dest_path dir j, dr_byte_count = n, dr_sha256 = env_sha256 env h\<rparr>"
    using assms v by (auto simp: download_document_def Let_def split: option.splits prod.splits if_splits)
  from fetch_ok [OF f] validate_url_ok [OF v] n r show ?thesis by fastforce
qed

definition sample_env :: download_env where
  "sample_env = \<lparr>env_http = Response 200 (Some ''application/PDF ; x'') [[37], [80, 68]] None,
     env_disk_error = (\<lambda>_. None), env_sha256 = (\<lambda>_. []), env_bracket_ok = (\<lambda>_. True)\<rparr>"

lemma sample_download_ok:
  "download_document sample_env ''https://e/x'' ''d'' ''j'' (Some ''e'') False 3 Map.empty =
     ([''d/j.pdf'' \<mapsto> [37, 80, 68]], Inr \<lparr>dr_file_path = ''d/j.pdf'', dr_byte_count = 3, dr_sha256 = []\<rparr>)"
proof -
  have "validate_url (\<lambda>_. True) ''https://e/x'' (Some ''e'') False = Inr ()" by code_simp
  moreover have "normal_content_type (Some ''application/PDF ; x'') = ''application/pdf''" by code_simp
  moreover have "dest_path ''d'' ''j'' = ''d/j.pdf''" by code_simp
  ultimately show ?thesis
    by (simp add: download_document_def fetch_def sample_env_def ALLOWED_CONTENT_TYPES_def Let_def)
qed

theorem download_success_witness:
  "\<exists>p. urlparse (\<lambda>_. True) ''https://e/x'' = Inr p \<and> pu_scheme p = ''https'' \<and> hostname p = Some ''e''"
proof -
  have "env_bracket_ok sample_env = (\<lambda>_. True)" by (simp add: sample_env_def)
  with download_success [OF sample_download_ok] show ?thesis by (auto simp: py_truthy_def)
qed

text \<open>
  What a download may touch. Whatever the server sends and however the download ends, the only
  file that can change is the job's own destination, it never holds more than the limit, and a URL
  that is rejected changes nothing at all.
\<close>

theorem download_touches_one_file:
  assumes "download_document env url dir j host insecure mx fs = (fs', res)"
  shows "(fs' = fs \<or> (\<exists>w. fs' = fs(dest_path dir j \<mapsto> w) \<and> length w \<le> mx)) \<and>
    (validate_url (env_bracket_ok env) url host insecure \<noteq> Inr () \<longrightarrow> fs' = fs)"
proof (cases "validate_url (env_bracket_ok env) url host insecure")
  case (Inl e)
  then show ?thesis using assms by (simp add: download_document_def)
next
  case (Inr u)
  obtain f n h e where f: "fetch env (dest_path dir j) mx fs = (f, n, h, e)" by (metis prod_cases4)
  from fetch_files [OF f] assms Inr f show ?thesis
    by (auto simp: download_document_def Let_def split: option.splits if_splits)
qed

theorem download_touches_one_file_witness:
  "\<exists>f r. download_document sample_env ''ftp://e/x'' ''d'' ''j'' None False 3 Map.empty = (f, r) \<and> f = Map.empty"
proof -
  obtain f r where d: "download_document sample_env ''ftp://e/x'' ''d'' ''j'' None False 3 Map.empty = (f, r)"
    by fastforce
  have "validate_url (\<lambda>_. True) ''ftp://e/x'' None False \<noteq> Inr ()" by code_simp
  then have "validate_url (env_bracket_ok sample_env) ''ftp://e/x'' None False \<noteq> Inr ()"
    by (simp add: sample_env_def)
  with download_touches_one_file [OF d] d show ?thesis by auto
qed

text \<open>
  A job id can name a file outside the download directory: the destination of a job whose id
  starts with a slash is that absolute path, and parent components in the id stay in the path. The
  module's docstring promises no arbitrary local file access.
\<close>

theorem job_id_escapes_directory:
  "dest_path dir (''/'' @ rest) = ''/'' @ rest @ ''.pdf'' \<and>
   dest_path dir (''../'' @ rest) = dir @ ''/../'' @ rest @ ''.pdf''"
  by (simp add: dest_path_def path_join_def starts_with_def)

text \<open>
  A URL with unbalanced brackets is not rejected as an invalid job: the parser's \<^verbatim>\<open>ValueError\<close>
  leaves the download as it is, outside the exceptions that the job worker turns into a failure.
\<close>

theorem unbalanced_bracket_unhandled:
  "download_document env ''https://[e/x'' dir j host insecure mx fs =
     (fs, Inl (Unhandled (ValueError ''Invalid IPv6 URL'')))"
proof -
  have "split_scheme (clean_url ''https://[e/x'') = (''https'', ''//[e/x'')" by code_simp
  moreover have "url_netloc ''//[e/x'' = ''[e''" by code_simp
  ultimately have "urlparse ok ''https://[e/x'' = Inl (ValueError ''Invalid IPv6 URL'')" for ok
    by (simp add: urlparse_def)
  then show ?thesis by (simp add: download_document_def validate_url_def)
qed

end
