(* ===== verification/Job_Worker.thy ===== *)
theory Job_Worker
  imports Queue_Store Ws_Client Downloader
begin

text \<open>
  The job worker of \<^verbatim>\<open>eres_print_agent/core/job_worker.py\<close>: the handlers for inbound
  \<^verbatim>\<open>print.job\<close> and \<^verbatim>\<open>print.job.cancel\<close> messages and the coroutine \<^verbatim>\<open>_process\<close> that takes one job from
  RECEIVED to a terminal status.

  The agent is one asyncio event loop plus worker threads. A coroutine runs without interruption
  from one \<^verbatim>\<open>await\<close> to the next, and \<^verbatim>\<open>asyncio.to_thread\<close> hands one call to a thread and waits for
  it. So each coroutine is a program counter, and one function says for every program counter
  what the next piece does to the shared state: either the awaited call takes effect, or the code
  between two awaits runs. Pieces of different coroutines interleave (\<^verbatim>\<open>Job_System\<close>); run one after
  another they are the coroutine itself (\<^verbatim>\<open>run_process\<close>). \<^verbatim>\<open>task.cancel()\<close> makes a coroutine raise
  \<^verbatim>\<open>CancelledError\<close> at its current await; a call already handed to a thread may still take effect.

  The state extends the WebSocket client's record. What the environment decides (clock, network,
  printer, file system) is in a \<^verbatim>\<open>choice\<close>. The list of print calls is recorded for the proofs.
\<close>

section \<open>State\<close>

text \<open>The program counters of \<^verbatim>\<open>_process\<close> and \<^verbatim>\<open>_wait_for_printer\<close>. A counter named after a call
  means that the call has been started and has not taken effect yet.\<close>

datatype pc =
    PStart
  | PGet
  | PGot "PrintJobRecord option result"
  | PDownload PrintJobRecord
  | PSetPath PrintJobRecord string
  | PSetPathDone PrintJobRecord string
  | PStatus PrintJobRecord string
  | PWaitUpd PrintJobRecord string
  | PLoop PrintJobRecord string nat
  | PSleep PrintJobRecord string nat
  | PPoll PrintJobRecord string nat
  | PCheck2 PrintJobRecord string
  | PPrintUpd PrintJobRecord string
  | PStartedSend PrintJobRecord string
  | PPrint PrintJobRecord string
  | PComplUpd
  | PComplSend
  | PFailUpd string string
  | PFailSend string string
  | PFinally
  | PCancelled bool \<comment> \<open>raising \<^verbatim>\<open>CancelledError\<close>, inside the \<^verbatim>\<open>try\<close> or not\<close>

text \<open>A call that a cancelled coroutine leaves behind in its thread.\<close>

datatype thread_call =
    TSetPath string
  | TUpdate PrintJobStatus "string option" "string option"
  | TPrint PrintJobRecord string

text \<open>The program counters of \<^verbatim>\<open>handle_dispatch\<close> and \<^verbatim>\<open>handle_cancel\<close>. The receive loop awaits the
  handler, so there is at most one.\<close>

datatype handler =
    DGet PrintJobDispatch
  | DGot PrintJobDispatch "PrintJobRecord option result"
  | DInsert PrintJobDispatch
  | DAck PrintJobDispatch
  | DSpawn PrintJobDispatch
  | DGetAgain PrintJobDispatch
  | DGotAgain PrintJobDispatch "PrintJobRecord option result"
  | DResend PrintJobRecord
  | CGet string
  | CGot string "PrintJobRecord option result"
  | CUpd string
  | CSend string

datatype life = Down | BootSend "string list" | Up

record print_call =
  pr_job :: string
  pr_printer :: string
  pr_path :: string
  pr_copies :: int
  pr_ok :: bool

record sys = ws_client +
  cf_allowed_host :: "string option"
  cf_download_dir :: string
  cf_allow_insecure :: bool
  db :: store
  fs :: files
  life :: life
  tasks :: "string set" \<comment> \<open>the keys of \<^verbatim>\<open>self._tasks\<close>\<close>
  procs :: "string \<rightharpoonup> pc" \<comment> \<open>the running \<^verbatim>\<open>_process\<close> coroutines\<close>
  cancel_requested :: "string set"
  flushing :: "OutboundAgentMessage list" \<comment> \<open>\<^verbatim>\<open>pending\<close>, of the flush in progress\<close>
  current :: "handler option"
  orphans :: "(string \<times> thread_call) list"
  prints :: "print_call list"

record choice =
  ch_now :: string
  ch_send :: send_outcome
  ch_download :: download_env
  ch_status :: "bool result" \<comment> \<open>\<^verbatim>\<open>get_status(...).online\<close>, or the exception it raises\<close>
  ch_print :: "string option" \<comment> \<open>the text of the exception that \<^verbatim>\<open>print\<close> raises, if it does\<close>

definition WAIT_FOR_PRINTER_POLL_SECONDS :: nat where "WAIT_FOR_PRINTER_POLL_SECONDS = 5"
definition WAIT_FOR_PRINTER_MAX_SECONDS :: nat where "WAIT_FOR_PRINTER_MAX_SECONDS = 60"

section \<open>Pieces of the coroutine\<close>

definition goto :: "string \<Rightarrow> pc \<Rightarrow> sys \<Rightarrow> sys" where
  "goto j p s = s\<lparr>procs := (procs s)(j \<mapsto> p)\<rparr>"

text \<open>The task ends; the dictionary entry stays.\<close>

definition drop_proc :: "string \<Rightarrow> sys \<Rightarrow> sys" where
  "drop_proc j s = s\<lparr>procs := (procs s)(j := None)\<rparr>"

text \<open>The \<^verbatim>\<open>finally\<close> clause of \<^verbatim>\<open>_process\<close>, after which the task ends.\<close>

definition finish :: "string \<Rightarrow> sys \<Rightarrow> sys" where
  "finish j s = s\<lparr>procs := (procs s)(j := None), tasks := tasks s - {j},
                  cancel_requested := cancel_requested s - {j}\<rparr>"

definition active_count :: "'a sys_scheme \<Rightarrow> nat" where
  "active_count s = card (tasks s)"

definition post :: "choice \<Rightarrow> OutboundAgentMessage \<Rightarrow> sys \<Rightarrow> sys" where
  "post ch m s = send (ch_send ch) m True s"

definition store_status :: "choice \<Rightarrow> string \<Rightarrow> PrintJobStatus \<Rightarrow> string option \<Rightarrow> string option \<Rightarrow> sys \<Rightarrow> sys" where
  "store_status ch j st ec em s = s\<lparr>db := update_status (ch_now ch) j st ec em (db s)\<rparr>"

definition offline_message :: "PrintJobRecord \<Rightarrow> string" where
  "offline_message r = ''Printer '' @ jr_printer_local_id r @ '' did not come online''"

definition call_print :: "choice \<Rightarrow> string \<Rightarrow> PrintJobRecord \<Rightarrow> string \<Rightarrow> sys \<Rightarrow> sys" where
  "call_print ch j r path s = s\<lparr>prints := prints s @
     [\<lparr>pr_job = j, pr_printer = jr_printer_local_id r, pr_path = path, pr_copies = jr_copies r,
       pr_ok = (ch_print ch = None)\<rparr>]\<rparr>"

text \<open>The test after the download: cancelled jobs stop here, the others ask for the printer.\<close>

definition check_then_wait :: "string \<Rightarrow> PrintJobRecord \<Rightarrow> string \<Rightarrow> sys \<Rightarrow> sys" where
  "check_then_wait j r path s =
     (if j \<in> cancel_requested s then finish j s else goto j (PStatus r path) s)"

definition download :: "choice \<Rightarrow> string \<Rightarrow> PrintJobRecord \<Rightarrow> sys \<Rightarrow> files \<times> (download_exc + DownloadResult)" where
  "download ch j r s = download_document (ch_download ch) (jr_document_url r) (cf_download_dir s) j
     (cf_allowed_host s) (cf_allow_insecure s) DOWNLOAD_MAX_BYTES (fs s)"

fun proc_exec :: "choice \<Rightarrow> string \<Rightarrow> pc \<Rightarrow> sys \<Rightarrow> sys" where
  "proc_exec ch j PStart s = goto j PGet s"
| "proc_exec ch j PGet s = goto j (PGot (get (db s) j)) s"
| "proc_exec ch j (PGot v) s =
     (case v of
        Inl e \<Rightarrow> drop_proc j s
      | Inr None \<Rightarrow> drop_proc j s
      | Inr (Some r) \<Rightarrow>
          (case jr_local_file_path r of
             Some path \<Rightarrow> if path \<noteq> [] \<and> fs s path \<noteq> None then check_then_wait j r path s
                          else goto j (PDownload r) s
           | None \<Rightarrow> goto j (PDownload r) s))"
| "proc_exec ch j (PDownload r) s =
     (case download ch j r s of
        (fs', Inl (DownloadError code msg)) \<Rightarrow> goto j (PFailUpd code msg) (s\<lparr>fs := fs'\<rparr>)
      | (fs', Inl (Unhandled e)) \<Rightarrow> finish j (s\<lparr>fs := fs'\<rparr>)
      | (fs', Inr result) \<Rightarrow> goto j (PSetPath r (dr_file_path result)) (s\<lparr>fs := fs'\<rparr>))"
| "proc_exec ch j (PSetPath r path) s =
     goto j (PSetPathDone r path) (s\<lparr>db := set_local_file_path (ch_now ch) j path (db s)\<rparr>)"
| "proc_exec ch j (PSetPathDone r path) s = check_then_wait j r path s"
| "proc_exec ch j (PStatus r path) s =
     (case ch_status ch of
        Inl e \<Rightarrow> goto j PFinally s
      | Inr True \<Rightarrow> goto j (PCheck2 r path) s
      | Inr False \<Rightarrow> goto j (PWaitUpd r path) s)"
| "proc_exec ch j (PWaitUpd r path) s =
     goto j (PLoop r path 0) (store_status ch j WAITING_FOR_PRINTER None None s)"
| "proc_exec ch j (PLoop r path waited) s =
     (if waited < WAIT_FOR_PRINTER_MAX_SECONDS
      then if j \<in> cancel_requested s then goto j (PFailUpd ''PRINTER_OFFLINE'' (offline_message r)) s
           else goto j (PSleep r path waited) s
      else goto j (PFailUpd ''PRINTER_OFFLINE'' (offline_message r)) s)"
| "proc_exec ch j (PSleep r path waited) s =
     goto j (PPoll r path (waited + WAIT_FOR_PRINTER_POLL_SECONDS)) s"
| "proc_exec ch j (PPoll r path waited) s =
     (case ch_status ch of
        Inl e \<Rightarrow> goto j PFinally s
      | Inr True \<Rightarrow> goto j (PCheck2 r path) s
      | Inr False \<Rightarrow> goto j (PLoop r path waited) s)"
| "proc_exec ch j (PCheck2 r path) s =
     (if j \<in> cancel_requested s then finish j s else goto j (PPrintUpd r path) s)"
| "proc_exec ch j (PPrintUpd r path) s =
     goto j (PStartedSend r path) (store_status ch j PRINTING None None s)"
| "proc_exec ch j (PStartedSend r path) s =
     goto j (PPrint r path) (post ch (PrintJobStarted (ch_now ch) j) s)"
| "proc_exec ch j (PPrint r path) s =
     (case ch_print ch of
        Some msg \<Rightarrow> goto j (PFailUpd ''PRINTER_ERROR'' msg) (call_print ch j r path s)
      | None \<Rightarrow> goto j PComplUpd (call_print ch j r path s))"
| "proc_exec ch j PComplUpd s = goto j PComplSend (store_status ch j COMPLETED None None s)"
| "proc_exec ch j PComplSend s = goto j PFinally (post ch (PrintJobCompleted (ch_now ch) j) s)"
| "proc_exec ch j (PFailUpd code msg) s =
     goto j (PFailSend code msg) (store_status ch j FAILED (Some code) (Some msg) s)"
| "proc_exec ch j (PFailSend code msg) s =
     goto j PFinally (post ch (PrintJobFailed (ch_now ch) j (Some code) (Some msg)) s)"
| "proc_exec ch j PFinally s = finish j s"
| "proc_exec ch j (PCancelled inside) s = (if inside then finish j s else drop_proc j s)"

section \<open>Cancelling a task\<close>

fun inside_try :: "pc \<Rightarrow> bool" where
  "inside_try PStart \<longleftrightarrow> False"
| "inside_try PGet \<longleftrightarrow> False"
| "inside_try (PGot _) \<longleftrightarrow> False"
| "inside_try (PCancelled inside) \<longleftrightarrow> inside"
| "inside_try _ \<longleftrightarrow> True"

fun pending_call :: "pc \<Rightarrow> thread_call option" where
  "pending_call (PSetPath r path) = Some (TSetPath path)"
| "pending_call (PWaitUpd r path) = Some (TUpdate WAITING_FOR_PRINTER None None)"
| "pending_call (PPrintUpd r path) = Some (TUpdate PRINTING None None)"
| "pending_call (PPrint r path) = Some (TPrint r path)"
| "pending_call PComplUpd = Some (TUpdate COMPLETED None None)"
| "pending_call (PFailUpd code msg) = Some (TUpdate FAILED (Some code) (Some msg))"
| "pending_call _ = None"

definition cancel_task :: "string \<Rightarrow> sys \<Rightarrow> sys" where
  "cancel_task j s =
     (if j \<notin> tasks s then s
      else case procs s j of
             None \<Rightarrow> s
           | Some p \<Rightarrow> (goto j (PCancelled (inside_try p)) s)
               \<lparr>orphans := orphans s @ (case pending_call p of None \<Rightarrow> [] | Some c \<Rightarrow> [(j, c)])\<rparr>)"

fun orphan_exec :: "choice \<Rightarrow> string \<Rightarrow> thread_call \<Rightarrow> sys \<Rightarrow> sys" where
  "orphan_exec ch j (TSetPath path) s = s\<lparr>db := set_local_file_path (ch_now ch) j path (db s)\<rparr>"
| "orphan_exec ch j (TUpdate st ec em) s = store_status ch j st ec em s"
| "orphan_exec ch j (TPrint r path) s = call_print ch j r path s"

section \<open>Pieces of the handlers\<close>

text \<open>The process ends: everything but the database, the file system, the messages already sent and
  the paper already printed is gone. An exception that escapes a handler has the same effect,
  because it ends \<^verbatim>\<open>run_forever\<close> and with it the agent.\<close>

definition crash :: "sys \<Rightarrow> sys" where
  "crash s = s\<lparr>life := Down, procs := Map.empty, tasks := {}, cancel_requested := {},
               flushing := [], current := None, orphans := [], ws_durable_queue := [], ws_socket := False,
               ws_connected := False\<rparr>"

definition idle :: "sys \<Rightarrow> sys" where
  "idle s = s\<lparr>current := None\<rparr>"

definition handler_at :: "handler \<Rightarrow> sys \<Rightarrow> sys" where
  "handler_at h s = s\<lparr>current := Some h\<rparr>"

definition spawn :: "string \<Rightarrow> sys \<Rightarrow> sys" where
  "spawn j s = s\<lparr>tasks := insert j (tasks s), procs := (procs s)(j \<mapsto> PStart)\<rparr>"

definition resend_terminal_event :: "choice \<Rightarrow> PrintJobRecord \<Rightarrow> sys \<Rightarrow> sys" where
  "resend_terminal_event ch r s =
     (case jr_status r of
        COMPLETED \<Rightarrow> post ch (PrintJobCompleted (ch_now ch) (jr_job_id r)) s
      | FAILED \<Rightarrow> post ch (PrintJobFailed (ch_now ch) (jr_job_id r) (jr_error_code r) (jr_error_message r)) s
      | CANCELLED \<Rightarrow> post ch (PrintJobCancelled (ch_now ch) (jr_job_id r)) s
      | _ \<Rightarrow> s)"

text \<open>\<^verbatim>\<open>handle_cancel\<close> honours a cancel only before printing.\<close>

definition cancellable :: "PrintJobRecord option \<Rightarrow> bool" where
  "cancellable v = (case v of None \<Rightarrow> False | Some r \<Rightarrow> jr_status r \<in> {RECEIVED, WAITING_FOR_PRINTER})"

fun handler_exec :: "choice \<Rightarrow> handler \<Rightarrow> sys \<Rightarrow> sys" where
  "handler_exec ch (DGet d) s = handler_at (DGot d (get (db s) (pd_jobId d))) s"
| "handler_exec ch (DGot d v) s =
     (case v of
        Inl e \<Rightarrow> crash s
      | Inr (Some r) \<Rightarrow> if record_is_terminal r then handler_at (DResend r) s else idle s
      | Inr None \<Rightarrow> handler_at (DInsert d) s)"
| "handler_exec ch (DInsert d) s =
     (case insert_received (ch_now ch) (pd_jobId d) (pd_printerId d) (pd_documentType d) (pd_documentId d)
             (pd_documentUrl d) (pd_copies d) (db s) of
        Inl e \<Rightarrow> crash s
      | Inr (inserted, db') \<Rightarrow> handler_at (if inserted then DAck d else DGetAgain d) (s\<lparr>db := db'\<rparr>))"
| "handler_exec ch (DAck d) s =
     handler_at (DSpawn d) (post ch (PrintJobReceived (ch_now ch) (pd_jobId d)) s)"
| "handler_exec ch (DSpawn d) s = idle (spawn (pd_jobId d) s)"
| "handler_exec ch (DGetAgain d) s = handler_at (DGotAgain d (get (db s) (pd_jobId d))) s"
| "handler_exec ch (DGotAgain d v) s =
     (case v of
        Inl e \<Rightarrow> crash s
      | Inr (Some r) \<Rightarrow> if record_is_terminal r then handler_at (DResend r) s else idle s
      | Inr None \<Rightarrow> idle s)"
| "handler_exec ch (DResend r) s = idle (resend_terminal_event ch r s)"
| "handler_exec ch (CGet j) s = handler_at (CGot j (get (db s) j)) s"
| "handler_exec ch (CGot j v) s =
     (case v of
        Inl e \<Rightarrow> crash s
      | Inr r \<Rightarrow> if cancellable r then handler_at (CUpd j) (cancel_task j s) else idle s)"
| "handler_exec ch (CUpd j) s = handler_at (CSend j) (store_status ch j CANCELLED None None s)"
| "handler_exec ch (CSend j) s = idle (post ch (PrintJobCancelled (ch_now ch) j) s)"

text \<open>The first, synchronous piece of each handler.\<close>

definition handle_dispatch :: "PrintJobDispatch \<Rightarrow> sys \<Rightarrow> sys" where
  "handle_dispatch d s = handler_at (DGet d) s"

definition handle_cancel :: "PrintJobCancel \<Rightarrow> sys \<Rightarrow> sys" where
  "handle_cancel c s =
     handler_at (CGet (pc_jobId c)) (s\<lparr>cancel_requested := insert (pc_jobId c) (cancel_requested s)\<rparr>)"

definition resume_job :: "PrintJobRecord \<Rightarrow> sys \<Rightarrow> sys" where
  "resume_job r s = spawn (jr_job_id r) s"

end
