(* ===== verification/Job_System.thy ===== *)
theory Job_System
  imports Job_Worker
begin

text \<open>
  The running agent: the step relation in which the pieces of \<^verbatim>\<open>Job_Worker\<close> interleave with each
  other, with the arrival of frames, with connection changes, with crashes at any moment and with
  the start-up recovery of \<^verbatim>\<open>core/agent.py\<close>, and what holds in every reachable state. The database,
  the files, what was sent and what was printed survive a crash; everything else is lost.
\<close>

section \<open>Start-up\<close>

text \<open>\<^verbatim>\<open>Agent._recover_on_startup\<close>, in its three pieces: mark, report, resume.\<close>

definition recover_mark :: "choice \<Rightarrow> sys \<Rightarrow> sys" where
  "recover_mark ch s =
     (let (stuck, db') = mark_stuck_printing_as_failed (ch_now ch) (db s)
      in s\<lparr>db := db', life := BootSend stuck\<rparr>)"

definition recover_send :: "choice \<Rightarrow> string \<Rightarrow> string list \<Rightarrow> sys \<Rightarrow> sys" where
  "recover_send ch j js s =
     (post ch (PrintJobFailed (ch_now ch) j (Some RESTARTED_CODE) (Some RESTARTED_MESSAGE)) s)
       \<lparr>life := BootSend js\<rparr>"

definition resumable :: "PrintJobRecord list \<Rightarrow> PrintJobRecord list" where
  "resumable = filter (\<lambda>r. jr_status r \<in> {RECEIVED, WAITING_FOR_PRINTER})"

definition recover_resume :: "sys \<Rightarrow> sys" where
  "recover_resume s =
     (case list_non_terminal (db s) of
        Inl e \<Rightarrow> crash s
      | Inr rs \<Rightarrow> (fold resume_job (resumable rs) s)\<lparr>life := Up\<rparr>)"

text \<open>The whole start-up, run without interruption.\<close>

fun recover_reports :: "(nat \<Rightarrow> choice) \<Rightarrow> string list \<Rightarrow> sys \<Rightarrow> sys" where
  "recover_reports chs [] s = s"
| "recover_reports chs (j # js) s = recover_reports (\<lambda>i. chs (Suc i)) js (recover_send (chs 0) j js s)"

definition recover_on_startup :: "choice \<Rightarrow> (nat \<Rightarrow> choice) \<Rightarrow> sys \<Rightarrow> sys" where
  "recover_on_startup ch chs s =
     recover_resume (recover_reports chs (fst (mark_stuck_printing_as_failed (ch_now ch) (db s)))
       (recover_mark ch s))"

section \<open>Steps\<close>

text \<open>The messages of the heartbeat and printer synchronisation loops, which share the socket.\<close>

fun background :: "OutboundAgentMessage \<Rightarrow> bool" where
  "background (AgentHeartbeat _ _ _) \<longleftrightarrow> True"
| "background (AgentPrintersSync _ _) \<longleftrightarrow> True"
| "background _ \<longleftrightarrow> False"

text \<open>
  \<^verbatim>\<open>_flush_durable_queue\<close> takes the buffer over and then awaits one \<^verbatim>\<open>send\<close> after the other, so other
  coroutines run in between. \<^verbatim>\<open>run_forever\<close> awaits the flush before it reads the first frame.
\<close>

definition flush_begin :: "sys \<Rightarrow> sys" where
  "flush_begin s = s\<lparr>flushing := ws_durable_queue s, ws_durable_queue := []\<rparr>"

definition flush_next :: "send_outcome \<Rightarrow> OutboundAgentMessage \<Rightarrow> OutboundAgentMessage list \<Rightarrow> sys \<Rightarrow> sys" where
  "flush_next oc m ms s = send oc m True (s\<lparr>flushing := ms\<rparr>)"

text \<open>The receive loop is at its \<^verbatim>\<open>await\<close>: no handler and no flush is in progress.\<close>

definition receiving :: "sys \<Rightarrow> bool" where
  "receiving s \<longleftrightarrow> life s = Up \<and> current s = None \<and> flushing s = []"

inductive step :: "sys \<Rightarrow> sys \<Rightarrow> bool" where
  proc: "life s = Up \<Longrightarrow> procs s j = Some p \<Longrightarrow> step s (proc_exec ch j p s)"
| handler: "life s = Up \<Longrightarrow> current s = Some h \<Longrightarrow> step s (handler_exec ch h s)"
| orphan_runs: "life s = Up \<Longrightarrow> (j, c) \<in> set (orphans s) \<Longrightarrow>
    step s (orphan_exec ch j c (s\<lparr>orphans := remove1 (j, c) (orphans s)\<rparr>))"
| orphan_dropped: "life s = Up \<Longrightarrow> (j, c) \<in> set (orphans s) \<Longrightarrow>
    step s (s\<lparr>orphans := remove1 (j, c) (orphans s)\<rparr>)"
| dispatch_frame: "receiving s \<Longrightarrow> ws_connected s \<Longrightarrow> step s (handle_dispatch d s)"
| cancel_frame: "receiving s \<Longrightarrow> ws_connected s \<Longrightarrow> step s (handle_cancel c s)"
| connect: "receiving s \<Longrightarrow> \<not> ws_socket s \<Longrightarrow> step s (s\<lparr>ws_socket := True\<rparr>)"
| authenticated: "receiving s \<Longrightarrow> ws_socket s \<Longrightarrow> \<not> ws_connected s \<Longrightarrow>
    step s (flush_begin (s\<lparr>ws_connected := True\<rparr>))"
| flush: "life s = Up \<Longrightarrow> flushing s = m # ms \<Longrightarrow> step s (flush_next oc m ms s)"
| disconnected: "receiving s \<Longrightarrow> step s (s\<lparr>ws_socket := False, ws_connected := False\<rparr>)"
| background_send: "life s = Up \<Longrightarrow> background m \<Longrightarrow> step s (send oc m False s)"
| disk: "step s (s\<lparr>fs := fs'\<rparr>)"
| crashes: "step s (crash s)"
| boot_mark: "life s = Down \<Longrightarrow> step s (recover_mark ch s)"
| boot_send: "life s = BootSend (j # js) \<Longrightarrow> step s (recover_send ch j js s)"
| boot_resume: "life s = BootSend [] \<Longrightarrow> step s (recover_resume s)"

declare step.intros [step_intros]

text \<open>A fresh installation: an empty queue, nothing sent, nothing printed, the agent not running.\<close>

definition initial :: "sys \<Rightarrow> bool" where
  "initial s \<longleftrightarrow> db s = [] \<and> life s = Down \<and> procs s = Map.empty \<and> tasks s = {} \<and>
     cancel_requested s = {} \<and> flushing s = [] \<and> current s = None \<and> orphans s = [] \<and> prints s = [] \<and>
     ws_sent s = [] \<and> ws_durable_queue s = [] \<and> \<not> ws_socket s \<and> \<not> ws_connected s"

inductive reachable :: "sys \<Rightarrow> bool" where
  start: "initial s \<Longrightarrow> reachable s"
| next_step: "reachable s \<Longrightarrow> step s t \<Longrightarrow> reachable t"

section \<open>The invariant of one job\<close>

definition prints_of :: "sys \<Rightarrow> string \<Rightarrow> bool list" where
  "prints_of s j = map pr_ok (filter (\<lambda>c. pr_job c = j) (prints s))"

definition calls_of :: "sys \<Rightarrow> string \<Rightarrow> thread_call list" where
  "calls_of s j = map snd (filter (\<lambda>x. fst x = j) (orphans s))"

fun spawns :: "handler \<Rightarrow> string option" where
  "spawns (DAck d) = Some (pd_jobId d)"
| "spawns (DSpawn d) = Some (pd_jobId d)"
| "spawns _ = None"

definition spawning :: "sys \<Rightarrow> string \<Rightarrow> bool" where
  "spawning s j \<longleftrightarrow> (case current s of None \<Rightarrow> False | Some h \<Rightarrow> spawns h = Some j)"

text \<open>Coroutines that can still reach the print call, and those that have recorded PRINTING.\<close>

fun before_print :: "pc \<Rightarrow> bool" where
  "before_print PComplUpd \<longleftrightarrow> False"
| "before_print PComplSend \<longleftrightarrow> False"
| "before_print (PFailUpd _ _) \<longleftrightarrow> False"
| "before_print (PFailSend _ _) \<longleftrightarrow> False"
| "before_print PFinally \<longleftrightarrow> False"
| "before_print (PCancelled _) \<longleftrightarrow> False"
| "before_print _ \<longleftrightarrow> True"

fun print_ready :: "pc \<Rightarrow> bool" where
  "print_ready (PStartedSend _ _) \<longleftrightarrow> True"
| "print_ready (PPrint _ _) \<longleftrightarrow> True"
| "print_ready _ \<longleftrightarrow> False"

fun completing :: "pc \<Rightarrow> bool" where
  "completing PComplUpd \<longleftrightarrow> True"
| "completing PComplSend \<longleftrightarrow> True"
| "completing _ \<longleftrightarrow> False"

fun is_cancelled :: "pc \<Rightarrow> bool" where
  "is_cancelled (PCancelled _) \<longleftrightarrow> True"
| "is_cancelled _ \<longleftrightarrow> False"

fun call_prints :: "thread_call \<Rightarrow> bool" where
  "call_prints (TPrint _ _) \<longleftrightarrow> True"
| "call_prints _ \<longleftrightarrow> False"

fun call_status :: "thread_call \<Rightarrow> PrintJobStatus option" where
  "call_status (TUpdate t _ _) = Some t"
| "call_status _ = None"

definition resumable_status :: "PrintJobStatus option \<Rightarrow> bool" where
  "resumable_status st \<longleftrightarrow> st = Some RECEIVED \<or> st = Some WAITING_FOR_PRINTER"

text \<open>
  The state of one job: its status, its coroutine, the calls its cancelled coroutine left behind,
  whether a handler is about to start its coroutine, and the outcomes of its print calls.
\<close>

definition job_ok ::
  "PrintJobStatus option \<Rightarrow> pc option \<Rightarrow> thread_call list \<Rightarrow> bool \<Rightarrow> bool list \<Rightarrow> bool" where
  "job_ok st p cs sp pr \<longleftrightarrow>
     (st = None \<longrightarrow> p = None \<and> cs = [] \<and> \<not> sp \<and> pr = []) \<and>
     (sp \<longrightarrow> p = None \<and> cs = [] \<and> pr = []) \<and>
     (\<forall>q. p = Some q \<longrightarrow>
        (before_print q \<longrightarrow> pr = []) \<and> (\<not> is_cancelled q \<longrightarrow> cs = []) \<and>
        (print_ready q \<longrightarrow> \<not> resumable_status st) \<and> (completing q \<longrightarrow> pr = [True])) \<and>
     (cs = [] \<or> (\<exists>c. cs = [c] \<and>
        (call_prints c \<longrightarrow> pr = [] \<and> \<not> resumable_status st) \<and>
        (call_status c = Some WAITING_FOR_PRINTER \<longrightarrow> pr = []) \<and>
        (call_status c = Some COMPLETED \<longrightarrow> pr = [True]) \<and>
        call_status c \<noteq> Some RECEIVED)) \<and>
     length pr \<le> 1 \<and> (pr \<noteq> [] \<longrightarrow> \<not> resumable_status st) \<and>
     (st = Some COMPLETED \<longrightarrow> pr = [True])"

definition job_inv :: "sys \<Rightarrow> string \<Rightarrow> bool" where
  "job_inv s j \<longleftrightarrow> job_ok (job_status (db s) j) (procs s j) (calls_of s j) (spawning s j) (prints_of s j)"

text \<open>What the handler in progress has read.\<close>

fun handler_reads :: "handler \<Rightarrow> PrintJobRecord option" where
  "handler_reads (DGot _ v) = (case v of Inr r \<Rightarrow> r | _ \<Rightarrow> None)"
| "handler_reads (DGotAgain _ v) = (case v of Inr r \<Rightarrow> r | _ \<Rightarrow> None)"
| "handler_reads (DResend r) = Some r"
| "handler_reads _ = None"

definition handler_ok :: "sys \<Rightarrow> bool" where
  "handler_ok s \<longleftrightarrow> (\<forall>h r. current s = Some h \<longrightarrow> handler_reads h = Some r \<longrightarrow>
     jr_status r = COMPLETED \<longrightarrow> prints_of s (jr_job_id r) = [True])"

definition event_ok :: "sys \<Rightarrow> OutboundAgentMessage \<Rightarrow> bool" where
  "event_ok s m \<longleftrightarrow>
     (case m of
        PrintJobReceived _ j \<Rightarrow> job_status (db s) j \<noteq> None
      | PrintJobCompleted _ j \<Rightarrow> prints_of s j = [True]
      | _ \<Rightarrow> True)"

text \<open>Every event posted and not lost: sent, about to be flushed, or buffered.\<close>

definition all_events :: "sys \<Rightarrow> OutboundAgentMessage multiset" where
  "all_events s = wsq.events s + mset (flushing s)"

definition events_ok :: "sys \<Rightarrow> bool" where
  "events_ok s \<longleftrightarrow> (\<forall>m \<in># all_events s. event_ok s m)"

definition quiet :: "sys \<Rightarrow> bool" where
  "quiet s \<longleftrightarrow> procs s = Map.empty \<and> current s = None \<and> orphans s = []"

definition sys_inv :: "sys \<Rightarrow> bool" where
  "sys_inv s \<longleftrightarrow> store_wf (db s) \<and> (\<forall>j. job_inv s j) \<and> (life s \<noteq> Up \<longrightarrow> quiet s) \<and>
     handler_ok s \<and> events_ok s"

section \<open>Projections of the primitive updates\<close>

lemma send_sys [simp]:
  fixes s :: sys
  shows "db (send oc m d s) = db s" "fs (send oc m d s) = fs s" "life (send oc m d s) = life s"
    "tasks (send oc m d s) = tasks s" "procs (send oc m d s) = procs s"
    "cancel_requested (send oc m d s) = cancel_requested s" "current (send oc m d s) = current s"
    "orphans (send oc m d s) = orphans s" "prints (send oc m d s) = prints s"
    "flushing (send oc m d s) = flushing s"
  by (simp_all add: send_def)

lemma flush_sys [simp]:
  "db (flush_begin s) = db s" "life (flush_begin s) = life s" "procs (flush_begin s) = procs s"
  "current (flush_begin s) = current s" "orphans (flush_begin s) = orphans s" "prints (flush_begin s) = prints s"
  "db (flush_next oc m ms s) = db s" "life (flush_next oc m ms s) = life s" "procs (flush_next oc m ms s) = procs s"
  "current (flush_next oc m ms s) = current s" "orphans (flush_next oc m ms s) = orphans s"
  "prints (flush_next oc m ms s) = prints s"
  by (simp_all add: flush_begin_def flush_next_def)

lemma receivingD [dest]:
  "receiving s \<Longrightarrow> life s = Up" "receiving s \<Longrightarrow> current s = None" "receiving s \<Longrightarrow> flushing s = []"
  by (simp_all add: receiving_def)

lemma filter_remove1_pair:
  "map snd (filter (\<lambda>x. fst x = k) (remove1 (j, c) xs)) =
     (if k = j then remove1 c (map snd (filter (\<lambda>x. fst x = k) xs)) else map snd (filter (\<lambda>x. fst x = k) xs))"
  by (induction xs) auto

lemma calls_of_update [simp]:
  "calls_of (s\<lparr>orphans := remove1 (j, c) (orphans s)\<rparr>) k =
     (if k = j then remove1 c (calls_of s j) else calls_of s k)"
  "calls_of (s\<lparr>orphans := []\<rparr>) k = []"
  by (simp_all add: calls_of_def filter_remove1_pair)

lemma calls_of_mem: "(j, c) \<in> set (orphans s) \<Longrightarrow> c \<in> set (calls_of s j)"
  by (force simp: calls_of_def)

lemma calls_of_cong: "orphans s = orphans t \<Longrightarrow> calls_of s j = calls_of t j"
  and prints_of_cong: "prints s = prints t \<Longrightarrow> prints_of s j = prints_of t j"
  and spawning_cong: "current s = current t \<Longrightarrow> spawning s j = spawning t j"
  by (simp_all add: calls_of_def prints_of_def spawning_def)

lemmas proc_defs = goto_def drop_proc_def finish_def post_def store_status_def call_print_def
  check_then_wait_def

lemmas local_defs = calls_of_def prints_of_def spawning_def

section \<open>Every piece keeps the invariant of every job\<close>

lemma proc_exec_frame:
  assumes "store_wf (db s)"
  shows "current (proc_exec ch j p s) = current s" "orphans (proc_exec ch j p s) = orphans s"
    "life (proc_exec ch j p s) = life s"
    "k \<noteq> j \<Longrightarrow> procs (proc_exec ch j p s) k = procs s k"
    "k \<noteq> j \<Longrightarrow> job_status (db (proc_exec ch j p s)) k = job_status (db s) k"
    "k \<noteq> j \<Longrightarrow> prints_of (proc_exec ch j p s) k = prints_of s k"
  using assms
  by (cases p; simp add: proc_defs store_simps prints_of_def split: sum.split option.split prod.split
      download_exc.split bool.split)+

lemma store_wf_proc_exec: "store_wf (db s) \<Longrightarrow> store_wf (db (proc_exec ch j p s))"
  by (cases p; auto simp: proc_defs split: sum.split option.split prod.split download_exc.split bool.split)

lemma job_ok_running:
  "\<not> is_cancelled q \<Longrightarrow> job_ok st (Some q) cs sp pr \<longleftrightarrow>
     st \<noteq> None \<and> cs = [] \<and> \<not> sp \<and> (before_print q \<longrightarrow> pr = []) \<and>
     (print_ready q \<longrightarrow> \<not> resumable_status st) \<and> (completing q \<longrightarrow> pr = [True]) \<and>
     length pr \<le> 1 \<and> (pr \<noteq> [] \<longrightarrow> \<not> resumable_status st) \<and> (st = Some COMPLETED \<longrightarrow> pr = [True])"
  unfolding job_ok_def by (cases st) auto

lemma job_ok_ended:
  "job_ok st (Some q) cs sp pr \<Longrightarrow> job_ok st None cs sp pr"
  unfolding job_ok_def by auto

lemma resumable_status_simps [simp]:
  "resumable_status (Some RECEIVED)" "resumable_status (Some WAITING_FOR_PRINTER)"
  "\<not> resumable_status (Some PRINTING)" "\<not> resumable_status (Some COMPLETED)"
  "\<not> resumable_status (Some FAILED)" "\<not> resumable_status (Some CANCELLED)" "\<not> resumable_status None"
  "\<not> resumable_status (Some QUEUED)"
  by (simp_all add: resumable_status_def)

lemma prints_of_update [simp]:
  "prints_of (call_print ch j r path s) k =
     (if k = j then prints_of s j @ [ch_print ch = None] else prints_of s k)"
  "prints_of (s\<lparr>db := d\<rparr>) k = prints_of s k" "prints_of (s\<lparr>fs := f\<rparr>) k = prints_of s k"
  "prints_of (s\<lparr>procs := ps\<rparr>) k = prints_of s k" "prints_of (s\<lparr>tasks := ts\<rparr>) k = prints_of s k"
  "prints_of (s\<lparr>cancel_requested := cr\<rparr>) k = prints_of s k" "prints_of (s\<lparr>current := h\<rparr>) k = prints_of s k"
  "prints_of (s\<lparr>orphans := os\<rparr>) k = prints_of s k" "prints_of (s\<lparr>life := lf\<rparr>) k = prints_of s k"
  "prints_of (s\<lparr>ws_socket := b\<rparr>) k = prints_of s k" "prints_of (s\<lparr>ws_connected := b'\<rparr>) k = prints_of s k"
  "prints_of (send oc m dur s) k = prints_of s k" "prints_of (flush_begin s) k = prints_of s k"
  "prints_of (flush_next oc m ms s) k = prints_of s k"
  by (simp_all add: prints_of_def call_print_def)

lemma procs_call_print [simp]:
  "procs (call_print ch j r path s) = procs s" "db (call_print ch j r path s) = db s"
  by (simp_all add: call_print_def)

lemmas piece_defs = goto_def drop_proc_def finish_def post_def store_status_def check_then_wait_def

text \<open>The job's own coroutine keeps its invariant.\<close>

lemma job_ok_proc_exec:
  assumes wf: "store_wf (db s)" and p: "procs s j = Some p"
    and ok: "job_ok (job_status (db s) j) (Some p) cs sp (prints_of s j)"
  shows "job_ok (job_status (db (proc_exec ch j p s)) j) (procs (proc_exec ch j p s) j) cs sp
    (prints_of (proc_exec ch j p s) j)"
proof (cases "is_cancelled p")
  case True
  with ok show ?thesis by (cases p) (auto simp: piece_defs job_ok_ended)
next
  case False
  note run = ok [unfolded job_ok_running [OF False]]
  note ended = job_ok_ended [OF ok]
  from run obtain st where "job_status (db s) j = Some st" by blast
  with run ended wf show ?thesis
    by (cases p; simp add: piece_defs store_simps job_ok_running
        split: sum.split option.split prod.split download_exc.split bool.split)
qed

lemma job_inv_proc_self:
  assumes "store_wf (db s)" and "procs s j = Some p" and "job_inv s j"
  shows "job_inv (proc_exec ch j p s) j"
proof -
  have sp: "spawning (proc_exec ch j p s) j = spawning s j" and cs: "calls_of (proc_exec ch j p s) j = calls_of s j"
    by (simp_all add: spawning_def calls_of_def proc_exec_frame [OF assms(1)])
  show ?thesis
    using job_ok_proc_exec [OF assms(1,2)] assms(2,3) unfolding job_inv_def sp cs by simp
qed

lemma job_inv_proc:
  assumes "store_wf (db s)" and "procs s j = Some p" and "\<And>k. job_inv s k"
  shows "job_inv (proc_exec ch j p s) k"
proof (cases "k = j")
  case True
  then show ?thesis using assms job_inv_proc_self by blast
next
  case False
  then have "job_inv (proc_exec ch j p s) k = job_inv s k"
    by (simp add: job_inv_def spawning_def calls_of_def proc_exec_frame [OF assms(1)])
  with assms(3) show ?thesis by blast
qed

end
