(* ===== verification/Job_Invariant.thy ===== *)
theory Job_Invariant
  imports Job_System
begin

text \<open>
  Every step of the running agent keeps the system invariant: first what the handlers, the calls
  left in threads, the crash and the start-up do to the state of one job, then that no step takes
  back a row, a print or the ground of an event already posted.
\<close>

section \<open>Moves of one job\<close>

lemma job_ok_crash: "job_ok st p cs sp pr \<Longrightarrow> job_ok st None [] False pr"
  unfolding job_ok_def by auto

lemma job_ok_insert: "job_ok None p cs sp pr \<Longrightarrow> job_ok (Some RECEIVED) p cs True pr"
  unfolding job_ok_def by auto

lemma job_ok_spawn: "job_ok st p cs True pr \<Longrightarrow> job_ok st (Some PStart) cs False pr"
  by (subst job_ok_running) (auto simp: job_ok_def)

lemma job_ok_resume:
  "job_ok st None [] False pr \<Longrightarrow> resumable_status st \<Longrightarrow> job_ok st (Some PStart) [] False pr"
  by (subst job_ok_running) (auto simp: job_ok_def resumable_status_def)

lemma job_ok_status:
  "job_ok st p cs sp pr \<Longrightarrow> t = PRINTING \<or> t = FAILED \<or> t = CANCELLED \<Longrightarrow>
     job_ok (map_option (\<lambda>_. t) st) p cs sp pr"
  by (cases st) (auto simp: job_ok_def)

lemma job_ok_recover:
  "job_ok st p cs sp pr \<Longrightarrow> job_ok (map_option (\<lambda>t. if t = PRINTING then FAILED else t) st) p cs sp pr"
  by (cases st) (auto simp: job_ok_def resumable_status_def)

lemma job_ok_cancel:
  assumes "job_ok st (Some q) cs sp pr"
  shows "job_ok st (Some (PCancelled b)) (cs @ (case pending_call q of None \<Rightarrow> [] | Some c \<Rightarrow> [c])) sp pr"
proof (cases "is_cancelled q")
  case True
  with assms show ?thesis by (cases q) (auto simp: job_ok_def)
next
  case False
  note run = assms [unfolded job_ok_running [OF False]]
  then show ?thesis by (cases q) (auto simp: job_ok_def)
qed

lemma job_ok_call_done: "job_ok st p [c] sp pr \<Longrightarrow> job_ok st p [] sp pr"
  unfolding job_ok_def by auto

lemma is_cancelledD: "is_cancelled q \<Longrightarrow> \<not> before_print q \<and> \<not> print_ready q \<and> \<not> completing q"
  by (cases q) auto

lemma job_ok_call_update:
  assumes "job_ok st p [TUpdate t ec em] sp pr"
  shows "job_ok (map_option (\<lambda>_. t) st) p [] sp pr"
  using assms by (cases t; cases st) (auto simp: job_ok_def dest: is_cancelledD)

lemma job_ok_call_print:
  "job_ok st p [TPrint r path] sp pr \<Longrightarrow> job_ok st p [] sp (pr @ [b])"
  by (auto simp: job_ok_def dest: is_cancelledD)

lemma job_ok_calls: "job_ok st p cs sp pr \<Longrightarrow> c \<in> set cs \<Longrightarrow> cs = [c]"
  unfolding job_ok_def by auto

section \<open>The invariant of one job under every step\<close>

lemma calls_of_simps [simp]:
  "calls_of (s\<lparr>db := d\<rparr>) k = calls_of s k" "calls_of (s\<lparr>fs := f\<rparr>) k = calls_of s k"
  "calls_of (s\<lparr>procs := ps\<rparr>) k = calls_of s k" "calls_of (s\<lparr>tasks := ts\<rparr>) k = calls_of s k"
  "calls_of (s\<lparr>cancel_requested := cr\<rparr>) k = calls_of s k" "calls_of (s\<lparr>current := h\<rparr>) k = calls_of s k"
  "calls_of (s\<lparr>life := lf\<rparr>) k = calls_of s k" "calls_of (s\<lparr>ws_socket := b\<rparr>) k = calls_of s k"
  "calls_of (s\<lparr>ws_connected := b'\<rparr>) k = calls_of s k" "calls_of (send oc m dur s) k = calls_of s k"
  "calls_of (flush_begin s) k = calls_of s k" "calls_of (flush_next oc m ms s) k = calls_of s k"
  "calls_of (call_print ch j r path s) k = calls_of s k"
  by (simp_all add: calls_of_def call_print_def)

lemma spawning_simps [simp]:
  "spawning (s\<lparr>db := d\<rparr>) k = spawning s k" "spawning (s\<lparr>fs := f\<rparr>) k = spawning s k"
  "spawning (s\<lparr>procs := ps\<rparr>) k = spawning s k" "spawning (s\<lparr>tasks := ts\<rparr>) k = spawning s k"
  "spawning (s\<lparr>cancel_requested := cr\<rparr>) k = spawning s k" "spawning (s\<lparr>orphans := os\<rparr>) k = spawning s k"
  "spawning (s\<lparr>life := lf\<rparr>) k = spawning s k" "spawning (s\<lparr>ws_socket := b\<rparr>) k = spawning s k"
  "spawning (s\<lparr>ws_connected := b'\<rparr>) k = spawning s k" "spawning (send oc m dur s) k = spawning s k"
  "spawning (flush_begin s) k = spawning s k" "spawning (flush_next oc m ms s) k = spawning s k"
  "spawning (call_print ch j r path s) k = spawning s k"
  "spawning (s\<lparr>current := None\<rparr>) k = False"
  "spawning (s\<lparr>current := Some h\<rparr>) k = (spawns h = Some k)"
  by (simp_all add: spawning_def call_print_def)

text \<open>Updates that leave the five parts of a job alone.\<close>

lemma job_inv_simps [simp]:
  "job_inv (s\<lparr>fs := f\<rparr>) k = job_inv s k" "job_inv (s\<lparr>cancel_requested := cr\<rparr>) k = job_inv s k"
  "job_inv (s\<lparr>life := lf\<rparr>) k = job_inv s k" "job_inv (s\<lparr>ws_socket := b\<rparr>) k = job_inv s k"
  "job_inv (s\<lparr>ws_connected := b'\<rparr>) k = job_inv s k" "job_inv (send oc m dur s) k = job_inv s k"
  "job_inv (flush_begin s) k = job_inv s k" "job_inv (flush_next oc m ms s) k = job_inv s k"
  by (simp_all add: job_inv_def)

lemma job_inv_handler_at:
  "current s = None \<Longrightarrow> spawns h = None \<Longrightarrow> job_inv (s\<lparr>current := Some h\<rparr>) k = job_inv s k"
  by (simp add: job_inv_def spawning_def)

lemma crash_sel [simp]:
  "db (crash s) = db s" "procs (crash s) = Map.empty" "calls_of (crash s) k = []"
  "spawning (crash s) k = False" "prints_of (crash s) k = prints_of s k" "life (crash s) = Down"
  "current (crash s) = None" "orphans (crash s) = []" "fs (crash s) = fs s" "prints (crash s) = prints s"
  by (simp_all add: crash_def calls_of_def spawning_def prints_of_def)

lemma job_inv_crash: "job_inv s k \<Longrightarrow> job_inv (crash s) k"
  by (simp add: job_inv_def job_ok_crash)

lemma cancel_task_sel [simp]:
  "db (cancel_task j s) = db s" "current (cancel_task j s) = current s" "prints (cancel_task j s) = prints s"
  "life (cancel_task j s) = life s" "prints_of (cancel_task j s) k = prints_of s k"
  "spawning (cancel_task j s) k = spawning s k"
  by (simp_all add: cancel_task_def goto_def prints_of_def spawning_def split: option.split)

lemma job_inv_cancel_task:
  assumes "job_inv s k"
  shows "job_inv (cancel_task j s) k"
proof (cases "j \<in> tasks s \<and> k = j \<and> procs s j \<noteq> None")
  case True
  then obtain q where q: "procs s j = Some q" and k: "k = j" and j: "j \<in> tasks s" by auto
  have "calls_of (cancel_task j s) j = calls_of s j @ (case pending_call q of None \<Rightarrow> [] | Some c \<Rightarrow> [c])"
    using q j by (simp add: cancel_task_def calls_of_def goto_def split: option.split)
  moreover have "procs (cancel_task j s) j = Some (PCancelled (inside_try q))"
    using q j by (simp add: cancel_task_def goto_def)
  ultimately show ?thesis
    using assms q job_ok_cancel by (simp add: job_inv_def k)
next
  case False
  then have "procs (cancel_task j s) k = procs s k" "calls_of (cancel_task j s) k = calls_of s k"
    by (auto simp: cancel_task_def calls_of_def goto_def split: option.split)
  with assms show ?thesis by (simp add: job_inv_def)
qed

lemmas handler_defs = handler_at_def idle_def post_def store_status_def spawn_def
  resend_terminal_event_def

lemma job_inv_handler:
  assumes wf: "store_wf (db s)" and h: "current s = Some h" and inv: "job_inv s k"
  shows "job_inv (handler_exec ch h s) k"
proof -
  have sp: "spawning s k = (spawns h = Some k)" by (simp add: spawning_def h)
  note ok = inv [unfolded job_inv_def sp]
  show ?thesis
  proof (cases h)
    case (DInsert d)
    show ?thesis
    proof (cases "insert_received (ch_now ch) (pd_jobId d) (pd_printerId d) (pd_documentType d)
        (pd_documentId d) (pd_documentUrl d) (pd_copies d) (db s)")
      case (Inl e)
      then show ?thesis using DInsert job_inv_crash [OF inv] by simp
    next
      case (Inr v)
      then obtain b db' where v: "v = (b, db')" by (cases v) auto
      note ins = job_status_insert_received [OF Inr [unfolded v] wf]
      show ?thesis
        using Inr v DInsert ok ins(1) ins(2) [of k] job_ok_insert
        by (auto simp: job_inv_def handler_defs)
    qed
  next
    case (CGot j v)
    then show ?thesis
      using inv job_inv_crash job_inv_cancel_task [OF inv] h ok sp
      by (auto simp: job_inv_def handler_defs split: sum.split)
  next
    case (CUpd j)
    then show ?thesis using ok wf job_ok_status by (auto simp: job_inv_def handler_defs store_simps)
  next
    case (DSpawn d)
    then show ?thesis using ok job_ok_spawn by (auto simp: job_inv_def handler_defs)
  qed (use ok job_inv_crash [OF inv] in \<open>auto simp: job_inv_def handler_defs
         split: sum.split option.split PrintJobStatus.split\<close>)
qed

lemma job_inv_orphan_dropped:
  assumes "(j, c) \<in> set (orphans s)" and "\<And>k. job_inv s k"
  shows "job_inv (s\<lparr>orphans := remove1 (j, c) (orphans s)\<rparr>) k"
proof (cases "k = j")
  case True
  have "calls_of s j = [c]"
    using calls_of_mem [OF assms(1)] assms(2) [of j] job_ok_calls by (auto simp: job_inv_def)
  with assms(2) [of j] True show ?thesis by (simp add: job_inv_def job_ok_call_done)
qed (use assms(2) in \<open>simp add: job_inv_def\<close>)

lemma job_inv_orphan_runs:
  assumes wf: "store_wf (db s)" and mem: "(j, c) \<in> set (orphans s)" and inv: "\<And>k. job_inv s k"
  shows "job_inv (orphan_exec ch j c (s\<lparr>orphans := remove1 (j, c) (orphans s)\<rparr>)) k"
proof (cases "k = j")
  case True
  have calls: "calls_of s j = [c]"
    using calls_of_mem [OF mem] inv [of j] job_ok_calls by (auto simp: job_inv_def)
  with inv [of j] have ok: "job_ok (job_status (db s) j) (procs s j) [c] (spawning s j) (prints_of s j)"
    by (simp add: job_inv_def)
  show ?thesis
    using ok calls True wf job_ok_call_done job_ok_call_update job_ok_call_print
    by (cases c) (simp_all add: job_inv_def store_status_def store_simps)
next
  case False
  with inv [of k] wf show ?thesis
    by (cases c) (simp_all add: job_inv_def store_status_def store_simps)
qed

lemma fold_resume_job:
  "db (fold resume_job rs s) = db s" "current (fold resume_job rs s) = current s"
  "orphans (fold resume_job rs s) = orphans s" "prints (fold resume_job rs s) = prints s"
  "wsq.events (fold resume_job rs s) = wsq.events s" "cancel_requested (fold resume_job rs s) = cancel_requested s"
  "procs (fold resume_job rs s) k = (if k \<in> jr_job_id ` set rs then Some PStart else procs s k)"
  "flushing (fold resume_job rs s) = flushing s"
  "tasks (fold resume_job rs s) = tasks s \<union> jr_job_id ` set rs"
  by (induction rs arbitrary: s) (auto simp: resume_job_def spawn_def wsq.events_def)

lemma recover_resume_Up:
  assumes "store_wf (db s)"
  shows "\<exists>rs. recover_resume s = (fold resume_job rs s)\<lparr>life := Up\<rparr> \<and>
    jr_job_id ` set rs = {j. resumable_status (job_status (db s) j)}"
proof -
  obtain rs where rs: "list_non_terminal (db s) = Inr rs"
    "set rs = {r. \<exists>j. view (db s) j = Some r \<and> \<not> is_terminal (jr_status r)}"
    using list_non_terminal_set [OF assms] by blast
  have "jr_job_id ` set (resumable rs) = {j. resumable_status (job_status (db s) j)}"
    using view_job_id [OF assms]
    by (force simp: resumable_def rs(2) job_status_def resumable_status_def image_iff)
  with rs(1) show ?thesis unfolding recover_resume_def by auto
qed

lemma job_inv_recover_resume:
  assumes wf: "store_wf (db s)" and "quiet s" and inv: "job_inv s k"
  shows "job_inv (recover_resume s) k"
proof -
  obtain rs where rs: "recover_resume s = (fold resume_job rs s)\<lparr>life := Up\<rparr>"
    "jr_job_id ` set rs = {j. resumable_status (job_status (db s) j)}"
    using recover_resume_Up [OF wf] by blast
  have "job_ok (job_status (db s) k) None [] False (prints_of s k)"
    using inv \<open>quiet s\<close> by (simp add: job_inv_def quiet_def calls_of_def spawning_def)
  then show ?thesis
    using \<open>quiet s\<close> job_ok_resume
    by (auto simp: job_inv_def rs fold_resume_job calls_of_def spawning_def prints_of_def quiet_def)
qed

lemma job_inv_recover_mark:
  assumes "store_wf (db s)" and "job_inv s k"
  shows "job_inv (recover_mark ch s) k"
  using assms job_status_mark_stuck [of "db s" "ch_now ch" k]
  by (auto simp: job_inv_def recover_mark_def job_ok_recover split: prod.split)

section \<open>Every step keeps the rows and the invariant of every job\<close>

lemma store_wf_handler:
  "store_wf (db s) \<Longrightarrow> store_wf (db (handler_exec ch h s))"
  by (cases h) (auto simp: handler_defs dest: store_wf_insert_received
      split: sum.split option.split PrintJobStatus.split)

lemma store_wf_orphan: "store_wf (db s) \<Longrightarrow> store_wf (db (orphan_exec ch j c s))"
  by (cases c) (auto simp: store_status_def)

lemma store_wf_step: "step s t \<Longrightarrow> store_wf (db s) \<Longrightarrow> store_wf (db t)"
proof (induction rule: step.induct)
  case (boot_mark s ch)
  then show ?case
    using store_wf_mark_stuck [of "db s" "ch_now ch"] by (auto simp: recover_mark_def split: prod.split)
next
  case (boot_resume s)
  then show ?case using recover_resume_Up [of s] by (auto simp: fold_resume_job)
next
  case (orphan_runs s j c ch)
  then show ?case by (simp add: store_wf_orphan)
qed (simp_all add: store_wf_proc_exec store_wf_handler handle_dispatch_def handle_cancel_def handler_at_def
      recover_send_def post_def)

lemma job_inv_step:
  assumes "step s t" and "store_wf (db s)" and "\<And>k. job_inv s k" and "life s \<noteq> Up \<Longrightarrow> quiet s"
  shows "job_inv t k"
  using assms
proof (induction rule: step.induct)
  case (boot_resume s)
  then show ?case by (simp add: job_inv_recover_resume)
qed (simp_all add: job_inv_proc job_inv_handler job_inv_orphan_runs job_inv_orphan_dropped job_inv_crash
      job_inv_recover_mark handle_dispatch_def handle_cancel_def handler_at_def recover_send_def post_def
      job_inv_handler_at receivingD)

section \<open>Nothing is taken back\<close>

lemma prints_of_proc: "\<exists>bs. prints_of (proc_exec ch j p s) k = prints_of s k @ bs"
  by (cases p) (auto simp: piece_defs split: sum.split option.split prod.split download_exc.split bool.split)

lemma prints_of_handler [simp]: "prints_of (handler_exec ch h s) k = prints_of s k"
  by (cases h) (auto simp: handler_defs split: sum.split option.split PrintJobStatus.split)

lemma prints_of_step: "step s t \<Longrightarrow> \<exists>bs. prints_of t k = prints_of s k @ bs"
proof (induction rule: step.induct)
  case (orphan_runs s j c ch)
  then show ?case by (cases c) (auto simp: store_status_def)
next
  case (boot_resume s)
  then show ?case
    by (auto simp: recover_resume_def fold_resume_job prints_of_def split: sum.split)
qed (simp_all add: prints_of_proc handle_dispatch_def handle_cancel_def handler_at_def recover_mark_def
      recover_send_def post_def split: prod.split)

lemma rows_stay_handler:
  "store_wf (db s) \<Longrightarrow> job_status (db s) k \<noteq> None \<Longrightarrow> job_status (db (handler_exec ch h s)) k \<noteq> None"
  by (cases h) (auto simp: handler_defs store_simps job_status_insert_received
      split: sum.split option.split PrintJobStatus.split)

lemma rows_stay_proc:
  "store_wf (db s) \<Longrightarrow> job_status (db s) k \<noteq> None \<Longrightarrow> job_status (db (proc_exec ch j p s)) k \<noteq> None"
  by (cases p) (auto simp: piece_defs store_simps split: sum.split option.split prod.split
      download_exc.split bool.split)

lemma rows_stay:
  "step s t \<Longrightarrow> store_wf (db s) \<Longrightarrow> job_status (db s) k \<noteq> None \<Longrightarrow> job_status (db t) k \<noteq> None"
proof (induction rule: step.induct)
  case (orphan_runs s j c ch)
  then show ?case by (cases c) (auto simp: store_status_def store_simps)
next
  case (boot_mark s ch)
  then show ?case
    using job_status_mark_stuck [of "db s" "ch_now ch" k] by (auto simp: recover_mark_def split: prod.split)
next
  case (boot_resume s)
  then show ?case using recover_resume_Up [of s] by (auto simp: fold_resume_job)
qed (simp_all add: rows_stay_handler rows_stay_proc handle_dispatch_def handle_cancel_def handler_at_def
      recover_send_def post_def del: not_None_eq)

lemma printed_stays:
  assumes "step s t" and "job_inv t k" and "prints_of s k = [True]"
  shows "prints_of t k = [True]"
  using prints_of_step [OF assms(1), of k] assms(2,3) by (auto simp: job_inv_def job_ok_def)

section \<open>What the events say\<close>

lemma events_simps [simp]:
  fixes s :: sys
  shows "wsq.events (s\<lparr>db := d\<rparr>) = wsq.events s" "wsq.events (s\<lparr>fs := f\<rparr>) = wsq.events s"
    "wsq.events (s\<lparr>procs := ps\<rparr>) = wsq.events s" "wsq.events (s\<lparr>tasks := ts\<rparr>) = wsq.events s"
    "wsq.events (s\<lparr>cancel_requested := cr\<rparr>) = wsq.events s" "wsq.events (s\<lparr>prints := pr\<rparr>) = wsq.events s"
    "wsq.events (s\<lparr>life := lf\<rparr>) = wsq.events s"
  by (simp_all add: wsq.events_def)

lemma all_events_simps [simp]:
  "all_events (s\<lparr>db := d\<rparr>) = all_events s" "all_events (s\<lparr>fs := f\<rparr>) = all_events s"
  "all_events (s\<lparr>procs := ps\<rparr>) = all_events s" "all_events (s\<lparr>tasks := ts\<rparr>) = all_events s"
  "all_events (s\<lparr>cancel_requested := cr\<rparr>) = all_events s" "all_events (s\<lparr>current := h\<rparr>) = all_events s"
  "all_events (s\<lparr>orphans := os\<rparr>) = all_events s" "all_events (s\<lparr>life := lf\<rparr>) = all_events s"
  "all_events (s\<lparr>ws_socket := b\<rparr>) = all_events s" "all_events (s\<lparr>ws_connected := b'\<rparr>) = all_events s"
  "all_events (s\<lparr>prints := pr\<rparr>) = all_events s"
  "all_events (send oc m True s) = add_mset m (all_events s)"
  "all_events (fold resume_job rs s) = all_events s"
  by (simp_all add: all_events_def fold_resume_job) (simp_all add: wsq.events_def)

lemma all_events_flush [simp]:
  "flushing s = [] \<Longrightarrow> all_events (flush_begin s) = all_events s"
  "flushing s = m # ms \<Longrightarrow> all_events (flush_next oc m ms s) = all_events s"
  by (simp_all add: all_events_def flush_begin_def flush_next_def wsq.events_def send_def)

lemma events_crash: "set_mset (all_events (crash s)) \<subseteq> set_mset (all_events s)"
  by (auto simp: all_events_def wsq.events_def crash_def)

lemma events_send_plain:
  "set_mset (all_events (send oc m False s)) \<subseteq> insert m (set_mset (all_events s))"
  by (auto simp: all_events_def wsq.events_def send_def)

lemma event_ok_background: "background m \<Longrightarrow> event_ok s m"
  by (cases m) (simp_all add: event_ok_def)

lemma event_ok_simps [simp]:
  "event_ok s (PrintJobStarted now j)" "event_ok s (PrintJobFailed now j ec em)"
  "event_ok s (PrintJobCancelled now j)"
  "event_ok s (PrintJobReceived now j) \<longleftrightarrow> job_status (db s) j \<noteq> None"
  "event_ok s (PrintJobCompleted now j) \<longleftrightarrow> prints_of s j = [True]"
  by (simp_all add: event_ok_def)

text \<open>The messages a piece adds to the events.\<close>

definition new_events_ok :: "sys \<Rightarrow> sys \<Rightarrow> bool" where
  "new_events_ok s t \<longleftrightarrow> (\<forall>m. m \<in># all_events t \<longrightarrow> m \<in># all_events s \<or> event_ok t m)"

lemma new_events_same: "all_events t = all_events s \<Longrightarrow> new_events_ok s t"
  by (simp add: new_events_ok_def)

lemma new_events_crash: "new_events_ok s (crash s)"
  using events_crash by (auto simp: new_events_ok_def)

lemma new_events_add: "all_events t = add_mset m (all_events s) \<Longrightarrow> event_ok t m \<Longrightarrow> new_events_ok s t"
  by (auto simp: new_events_ok_def)

lemma new_events_proc:
  assumes "procs s j = Some p" and "job_inv s j"
  shows "new_events_ok s (proc_exec ch j p s)"
proof (cases p)
  case PComplSend
  have "prints_of s j = [True]" using assms PComplSend by (simp add: job_inv_def job_ok_def)
  then show ?thesis using PComplSend by - (rule new_events_add, (simp add: piece_defs)+)
next
  case (PStartedSend r path)
  then show ?thesis by - (rule new_events_add, (simp add: piece_defs)+)
next
  case (PFailSend code msg)
  then show ?thesis by - (rule new_events_add, (simp add: piece_defs)+)
qed (auto simp: piece_defs call_print_def intro!: new_events_same
       split: sum.split option.split prod.split download_exc.split bool.split)

lemma events_cancel_task [simp]: "all_events (cancel_task j s) = all_events s"
  by (simp add: cancel_task_def goto_def split: option.split)

lemma new_events_handler:
  assumes h: "current s = Some h" and inv: "\<And>k. job_inv s k" and ok: "handler_ok s"
  shows "new_events_ok s (handler_exec ch h s)"
proof (cases h)
  case (DAck d)
  then have "job_status (db s) (pd_jobId d) \<noteq> None"
    using inv [of "pd_jobId d"] h by (simp add: job_inv_def job_ok_def spawning_def)
  then show ?thesis using DAck by - (rule new_events_add, (simp add: handler_defs)+)
next
  case (CSend j)
  then show ?thesis by - (rule new_events_add, (simp add: handler_defs)+)
next
  case (DResend r)
  show ?thesis
  proof (cases "jr_status r")
    case COMPLETED
    then have "prints_of s (jr_job_id r) = [True]" using ok h DResend by (simp add: handler_ok_def)
    then show ?thesis using DResend COMPLETED by - (rule new_events_add, (simp add: handler_defs)+)
  next
    case FAILED
    then show ?thesis using DResend by - (rule new_events_add, (simp add: handler_defs)+)
  next
    case CANCELLED
    then show ?thesis using DResend by - (rule new_events_add, (simp add: handler_defs)+)
  qed (use DResend in \<open>simp_all add: handler_defs new_events_same\<close>)
qed (auto simp: handler_defs intro: new_events_crash new_events_same split: sum.split option.split)

lemma new_events_step:
  assumes "step s t" and "store_wf (db s)" and "\<And>k. job_inv s k" and "handler_ok s"
  shows "new_events_ok s t"
  using assms
proof (induction rule: step.induct)
  case (orphan_runs s j c ch)
  then show ?case by (cases c) (auto simp: store_status_def call_print_def intro: new_events_same)
next
  case (background_send s m oc)
  then show ?case using events_send_plain [of oc m s] by (auto simp: new_events_ok_def event_ok_background)
next
  case (boot_mark s ch)
  then show ?case by (auto simp: recover_mark_def intro: new_events_same split: prod.split)
next
  case (boot_send s j js ch)
  then show ?case by - (rule new_events_add, (simp add: recover_send_def post_def)+)
next
  case (boot_resume s)
  then show ?case using recover_resume_Up [of s] by (auto simp: fold_resume_job intro: new_events_same)
qed (auto simp: handle_dispatch_def handle_cancel_def handler_at_def receivingD
      intro: new_events_same new_events_crash new_events_proc new_events_handler)

lemma event_ok_step:
  assumes "step s t" and "store_wf (db s)" and "\<And>k. job_inv t k" and "event_ok s m"
  shows "event_ok t m"
  using rows_stay [OF assms(1,2)] printed_stays [OF assms(1,3)] assms(4)
  by (auto simp: event_ok_def split: OutboundAgentMessage.splits)

lemma events_ok_step:
  assumes "step s t" and "sys_inv s" and "\<And>k. job_inv t k"
  shows "events_ok t"
  using new_events_step [OF assms(1)] event_ok_step [OF assms(1) _ assms(3)] assms(2)
  by (auto simp: events_ok_def sys_inv_def new_events_ok_def)

section \<open>The system invariant\<close>

lemma handler_reads_step:
  assumes "step s t" and "store_wf (db s)" and "\<And>k. job_inv s k" and "handler_ok s"
  assumes "current t = Some h" and "handler_reads h = Some r" and "jr_status r = COMPLETED"
  shows "prints_of s (jr_job_id r) = [True]"
proof -
  have read: "\<forall>g. current s = Some g \<longrightarrow> handler_reads g = Some r \<longrightarrow> prints_of s (jr_job_id r) = [True]"
    using assms(4,7) by (simp add: handler_ok_def)
  have looked: "prints_of s (jr_job_id r) = [True]" if "get (db s) j = Inr (Some r)" for j
    using that assms(2,3,7) view_job_id [OF assms(2), of j r]
    by (auto simp: get_view job_status_def job_inv_def job_ok_def)
  show ?thesis
    using assms(1,2,5,6) read looked
  proof (induction rule: step.induct)
    case (handler s g ch)
    then show ?case
      by (cases g) (auto simp: handler_defs split: sum.splits option.splits if_splits PrintJobStatus.splits)
  next
    case (proc s j p ch)
    then show ?case by (simp add: proc_exec_frame)
  next
    case (orphan_runs s j c ch)
    then show ?case by (cases c) (auto simp: store_status_def call_print_def)
  next
    case (boot_mark s ch)
    then show ?case by (simp add: recover_mark_def split: prod.splits)
  next
    case (boot_resume s)
    then show ?case using recover_resume_Up [of s] by (auto simp: fold_resume_job)
  qed (auto simp: handle_dispatch_def handle_cancel_def handler_at_def recover_send_def post_def)
qed

lemma handler_ok_step:
  assumes "step s t" and "sys_inv s" and "\<And>k. job_inv t k"
  shows "handler_ok t"
  using handler_reads_step [OF assms(1)] printed_stays [OF assms(1,3)] assms(2)
  unfolding handler_ok_def [of t] sys_inv_def by blast

lemma quiet_simps [simp]:
  "quiet (crash s)" "quiet (s\<lparr>db := d\<rparr>) = quiet s" "quiet (s\<lparr>life := lf\<rparr>) = quiet s"
  "quiet (s\<lparr>fs := f\<rparr>) = quiet s" "quiet (send oc m dur s) = quiet s"
  by (simp_all add: quiet_def)

lemma life_handler: "life (handler_exec ch h s) = life s \<or> quiet (handler_exec ch h s)"
  by (cases h) (auto simp: handler_defs split: sum.split option.split PrintJobStatus.split)

lemma quiet_step:
  "step s t \<Longrightarrow> store_wf (db s) \<Longrightarrow> (life s \<noteq> Up \<longrightarrow> quiet s) \<Longrightarrow> life t \<noteq> Up \<longrightarrow> quiet t"
proof (induction rule: step.induct)
  case (handler s h ch)
  then show ?case using life_handler [of ch h s] by auto
next
  case (orphan_runs s j c ch)
  then show ?case by (cases c) (auto simp: store_status_def call_print_def)
next
  case (boot_resume s)
  then show ?case using recover_resume_Up [of s] by auto
qed (auto simp: proc_exec_frame handle_dispatch_def handle_cancel_def handler_at_def recover_mark_def
      recover_send_def post_def split: prod.split)

lemma sys_inv_step:
  assumes "step s t" and "sys_inv s"
  shows "sys_inv t"
proof -
  have "job_inv t k" for k using job_inv_step [OF assms(1)] assms(2) by (auto simp: sys_inv_def)
  then show ?thesis
    using store_wf_step [OF assms(1)] quiet_step [OF assms(1)] handler_ok_step [OF assms] events_ok_step [OF assms]
      assms(2) by (auto simp: sys_inv_def)
qed

lemma sys_inv_initial: "initial s \<Longrightarrow> sys_inv s"
  by (simp add: initial_def sys_inv_def job_inv_def job_ok_def quiet_def handler_ok_def events_ok_def
      all_events_def wsq.events_def store_wf_def calls_of_def spawning_def prints_of_def job_status_def view_def find_row_def)

lemma reachable_sys_inv: "reachable s \<Longrightarrow> sys_inv s"
  by (induction rule: reachable.induct) (auto intro: sys_inv_initial sys_inv_step)

end
