(* ===== verification/Job_Process.thy ===== *)
theory Job_Process
  imports Job_Invariant
begin

text \<open>
  One job's coroutine, \<^verbatim>\<open>JobWorker._process\<close> with \<^verbatim>\<open>_wait_for_printer\<close> and \<^verbatim>\<open>_fail\<close>, run from its
  start to its end with nobody interfering: it ends within a fixed number of pieces (the wait for
  an offline printer is bounded), and it ends in one of three ways, each with exactly the database
  update, the events and the print call that belong to it.
\<close>

section \<open>Running to the end\<close>

text \<open>The pieces of one coroutine one after another; \<^term>\<open>chs\<close> holds what the environment decides for
  each. None means that the fuel ran out before the coroutine ended.\<close>

fun run_process :: "nat \<Rightarrow> (nat \<Rightarrow> choice) \<Rightarrow> string \<Rightarrow> sys \<Rightarrow> sys option" where
  "run_process 0 chs j s = (if procs s j = None then Some s else None)"
| "run_process (Suc n) chs j s =
     (case procs s j of
        None \<Rightarrow> Some s
      | Some p \<Rightarrow> run_process n (\<lambda>i. chs (Suc i)) j (proc_exec (chs 0) j p s))"

text \<open>The polls left once \<^term>\<open>waited\<close> seconds have been slept.\<close>

definition polls_left :: "nat \<Rightarrow> nat" where
  "polls_left waited = (64 - waited) div 5"

fun rank :: "pc \<Rightarrow> nat" where
  "rank PStart = 52"
| "rank PGet = 51"
| "rank (PGot v) = 50"
| "rank (PDownload r) = 49"
| "rank (PSetPath r path) = 48"
| "rank (PSetPathDone r path) = 47"
| "rank (PStatus r path) = 46"
| "rank (PWaitUpd r path) = 45"
| "rank (PLoop r path w) = 8 + 3 * polls_left w"
| "rank (PSleep r path w) = 10 + 3 * polls_left (w + 5)"
| "rank (PPoll r path w) = 9 + 3 * polls_left w"
| "rank (PCheck2 r path) = 7"
| "rank (PPrintUpd r path) = 6"
| "rank (PStartedSend r path) = 5"
| "rank (PPrint r path) = 4"
| "rank PComplUpd = 3"
| "rank PComplSend = 2"
| "rank (PFailUpd code msg) = 3"
| "rank (PFailSend code msg) = 2"
| "rank PFinally = 1"
| "rank (PCancelled inside) = 1"

lemma polls_left_step: "w < 60 \<Longrightarrow> polls_left w = Suc (polls_left (w + 5))"
  unfolding polls_left_def by (simp add: div_add_self2 [symmetric])

lemma rank_decreases:
  assumes "procs s j = Some p" and "procs (proc_exec ch j p s) j = Some q"
  shows "rank q < rank p"
  using assms polls_left_step
  by (cases p) (auto simp: piece_defs call_print_def WAIT_FOR_PRINTER_MAX_SECONDS_def
      WAIT_FOR_PRINTER_POLL_SECONDS_def polls_left_def
      split: sum.splits option.splits prod.splits download_exc.splits bool.splits if_splits)

lemma run_process_enough:
  "(\<And>p. procs s j = Some p \<Longrightarrow> rank p \<le> n) \<Longrightarrow> \<exists>t. run_process n chs j s = Some t \<and> procs t j = None"
proof (induction n arbitrary: chs s)
  case 0
  have "rank p \<noteq> 0" for p by (cases p) auto
  with 0 show ?case by (cases "procs s j") auto
next
  case (Suc n)
  show ?case
  proof (cases "procs s j")
    case (Some p)
    have "rank q \<le> n" if "procs (proc_exec (chs 0) j p s) j = Some q" for q
      using rank_decreases [OF Some that] Suc.prems [OF Some] by simp
    then show ?thesis using Suc.IH Some by simp
  qed simp
qed

section \<open>The outcome\<close>

text \<open>The print call that belongs to a row.\<close>

definition print_entry :: "string \<Rightarrow> PrintJobRecord \<Rightarrow> string \<Rightarrow> bool \<Rightarrow> print_call" where
  "print_entry j r path ok = \<lparr>pr_job = j, pr_printer = jr_printer_local_id r, pr_path = path,
     pr_copies = jr_copies r, pr_ok = ok\<rparr>"

definition completed_with :: "string \<Rightarrow> PrintJobRecord \<Rightarrow> sys \<Rightarrow> sys \<Rightarrow> bool" where
  "completed_with j r s t \<longleftrightarrow>
     job_status (db t) j = Some COMPLETED \<and>
     (\<exists>path now now'. prints t = prints s @ [print_entry j r path True] \<and> fs t path \<noteq> None \<and>
       wsq.events t = add_mset (PrintJobCompleted now' j) (add_mset (PrintJobStarted now j) (wsq.events s)))"

definition failed_with :: "string \<Rightarrow> PrintJobRecord \<Rightarrow> sys \<Rightarrow> sys \<Rightarrow> bool" where
  "failed_with j r s t \<longleftrightarrow>
     (\<exists>code msg r'. view (db t) j = Some r' \<and> jr_status r' = FAILED \<and> jr_error_code r' = Some code \<and>
        jr_error_message r' = Some msg \<and> code \<in> PRINT_JOB_ERROR_CODES \<and>
        (code \<noteq> ''PRINTER_ERROR'' \<and> prints t = prints s \<and>
           (\<exists>now. wsq.events t = add_mset (PrintJobFailed now j (Some code) (Some msg)) (wsq.events s)) \<or>
         code = ''PRINTER_ERROR'' \<and>
           (\<exists>path now now'. prints t = prints s @ [print_entry j r path False] \<and>
            wsq.events t = add_mset (PrintJobFailed now' j (Some code) (Some msg))
              (add_mset (PrintJobStarted now j) (wsq.events s)))))"

text \<open>An exception left the coroutine: nothing was printed or posted, and the job can be resumed.\<close>

definition abandoned :: "string \<Rightarrow> sys \<Rightarrow> sys \<Rightarrow> bool" where
  "abandoned j s t \<longleftrightarrow> resumable_status (job_status (db t) j) \<and> prints t = prints s \<and>
     wsq.events t = wsq.events s"

text \<open>What holds at each program counter; \<^term>\<open>s0\<close> is the state at the start and \<^term>\<open>r0\<close> the row then.\<close>

definition same_job :: "PrintJobRecord \<Rightarrow> PrintJobRecord \<Rightarrow> bool" where
  "same_job r0 r \<longleftrightarrow> jr_printer_local_id r = jr_printer_local_id r0 \<and> jr_copies r = jr_copies r0"

definition untouched :: "string \<Rightarrow> sys \<Rightarrow> sys \<Rightarrow> bool" where
  "untouched j s0 s \<longleftrightarrow> prints s = prints s0 \<and> wsq.events s = wsq.events s0 \<and>
     resumable_status (job_status (db s) j)"

definition failing :: "string \<Rightarrow> PrintJobRecord \<Rightarrow> sys \<Rightarrow> string \<Rightarrow> sys \<Rightarrow> bool" where
  "failing j r0 s0 code s \<longleftrightarrow> code \<in> PRINT_JOB_ERROR_CODES \<and>
     (code \<noteq> ''PRINTER_ERROR'' \<and> prints s = prints s0 \<and> wsq.events s = wsq.events s0 \<or>
      code = ''PRINTER_ERROR'' \<and>
        (\<exists>path now. prints s = prints s0 @ [print_entry j r0 path False] \<and>
           wsq.events s = add_mset (PrintJobStarted now j) (wsq.events s0)))"

fun at_pc :: "string \<Rightarrow> PrintJobRecord \<Rightarrow> sys \<Rightarrow> sys \<Rightarrow> pc \<Rightarrow> bool" where
  "at_pc j r0 s0 s PStart \<longleftrightarrow> untouched j s0 s \<and> view (db s) j = Some r0"
| "at_pc j r0 s0 s PGet \<longleftrightarrow> untouched j s0 s \<and> view (db s) j = Some r0"
| "at_pc j r0 s0 s (PGot v) \<longleftrightarrow> untouched j s0 s \<and> v = Inr (Some r0)"
| "at_pc j r0 s0 s (PDownload r) \<longleftrightarrow> untouched j s0 s \<and> same_job r0 r"
| "at_pc j r0 s0 s (PSetPath r path) \<longleftrightarrow> untouched j s0 s \<and> same_job r0 r \<and> fs s path \<noteq> None"
| "at_pc j r0 s0 s (PSetPathDone r path) \<longleftrightarrow> untouched j s0 s \<and> same_job r0 r \<and> fs s path \<noteq> None"
| "at_pc j r0 s0 s (PStatus r path) \<longleftrightarrow> untouched j s0 s \<and> same_job r0 r \<and> fs s path \<noteq> None"
| "at_pc j r0 s0 s (PWaitUpd r path) \<longleftrightarrow> untouched j s0 s \<and> same_job r0 r \<and> fs s path \<noteq> None"
| "at_pc j r0 s0 s (PLoop r path w) \<longleftrightarrow> untouched j s0 s \<and> same_job r0 r \<and> fs s path \<noteq> None"
| "at_pc j r0 s0 s (PSleep r path w) \<longleftrightarrow> untouched j s0 s \<and> same_job r0 r \<and> fs s path \<noteq> None"
| "at_pc j r0 s0 s (PPoll r path w) \<longleftrightarrow> untouched j s0 s \<and> same_job r0 r \<and> fs s path \<noteq> None"
| "at_pc j r0 s0 s (PCheck2 r path) \<longleftrightarrow> untouched j s0 s \<and> same_job r0 r \<and> fs s path \<noteq> None"
| "at_pc j r0 s0 s (PPrintUpd r path) \<longleftrightarrow> untouched j s0 s \<and> same_job r0 r \<and> fs s path \<noteq> None"
| "at_pc j r0 s0 s (PStartedSend r path) \<longleftrightarrow> prints s = prints s0 \<and> wsq.events s = wsq.events s0 \<and>
     job_status (db s) j = Some PRINTING \<and> same_job r0 r \<and> fs s path \<noteq> None"
| "at_pc j r0 s0 s (PPrint r path) \<longleftrightarrow> prints s = prints s0 \<and>
     (\<exists>now. wsq.events s = add_mset (PrintJobStarted now j) (wsq.events s0)) \<and>
     job_status (db s) j = Some PRINTING \<and> same_job r0 r \<and> fs s path \<noteq> None"
| "at_pc j r0 s0 s PComplUpd \<longleftrightarrow> job_status (db s) j \<noteq> None \<and>
     (\<exists>path now. prints s = prints s0 @ [print_entry j r0 path True] \<and> fs s path \<noteq> None \<and>
        wsq.events s = add_mset (PrintJobStarted now j) (wsq.events s0))"
| "at_pc j r0 s0 s PComplSend \<longleftrightarrow> job_status (db s) j = Some COMPLETED \<and>
     (\<exists>path now. prints s = prints s0 @ [print_entry j r0 path True] \<and> fs s path \<noteq> None \<and>
        wsq.events s = add_mset (PrintJobStarted now j) (wsq.events s0))"
| "at_pc j r0 s0 s (PFailUpd code msg) \<longleftrightarrow> failing j r0 s0 code s \<and> job_status (db s) j \<noteq> None"
| "at_pc j r0 s0 s (PFailSend code msg) \<longleftrightarrow> failing j r0 s0 code s \<and>
     (\<exists>r'. view (db s) j = Some r' \<and> jr_status r' = FAILED \<and> jr_error_code r' = Some code \<and>
        jr_error_message r' = Some msg)"
| "at_pc j r0 s0 s PFinally \<longleftrightarrow> completed_with j r0 s0 s \<or> failed_with j r0 s0 s \<or> abandoned j s0 s"
| "at_pc j r0 s0 s (PCancelled inside) \<longleftrightarrow> False"

lemma download_error_kinds:
  assumes "download_document env url dir j host ins mx f = (f', Inl (DownloadError code msg))"
  shows "code = ''INVALID_JOB'' \<or> code = ''TIMEOUT'' \<or> code = ''DOWNLOAD_FAILED''"
proof (cases "validate_url (env_bracket_ok env) url host ins")
  case (Inl e)
  then show ?thesis using assms validate_url_code by (simp add: download_document_def)
next
  case (Inr u)
  obtain f'' n h e where f: "fetch env (dest_path dir j) mx f = (f'', n, h, e)" by (metis prod_cases4)
  show ?thesis
    using assms Inr f fetch_code [of env "dest_path dir j" mx f f'' n h code msg]
    by (cases e) (simp_all add: download_document_def Let_def split: option.splits if_splits)
qed

lemma download_code:
  assumes "download_document env url dir j host ins mx f = (f', Inl (DownloadError code msg))"
  shows "code \<in> PRINT_JOB_ERROR_CODES" "code \<noteq> ''PRINTER_ERROR''"
  using download_error_kinds [OF assms] by (elim disjE; simp add: PRINT_JOB_ERROR_CODES_def)+

lemma download_file:
  "download_document env url dir j host ins mx f = (f', Inr res) \<Longrightarrow> f' (dr_file_path res) \<noteq> None"
  by (auto simp: download_document_def Let_def dest!: fetch_ok split: sum.splits option.splits prod.splits if_splits)

lemma untouched_frame:
  "untouched j s0 s \<Longrightarrow> prints t = prints s \<Longrightarrow> wsq.events t = wsq.events s \<Longrightarrow>
     job_status (db t) j = job_status (db s) j \<Longrightarrow> untouched j s0 t"
  by (simp add: untouched_def)

lemma untouched_simps [simp]:
  "untouched j s0 (s\<lparr>procs := ps\<rparr>) = untouched j s0 s" "untouched j s0 (s\<lparr>fs := f\<rparr>) = untouched j s0 s"
  by (simp_all add: untouched_def)

lemma call_print_entry:
  "same_job r0 r \<Longrightarrow> prints (call_print ch j r path s) = prints s @ [print_entry j r0 path (ch_print ch = None)]"
  by (simp add: call_print_def print_entry_def same_job_def)

lemma call_print_sel [simp]:
  "fs (call_print ch j r path s) = fs s" "wsq.events (call_print ch j r path s) = wsq.events s"
  by (simp_all add: call_print_def)

text \<open>The state after one piece, at the counter it goes to or at the end.\<close>

definition at_pc_opt :: "string \<Rightarrow> PrintJobRecord \<Rightarrow> sys \<Rightarrow> sys \<Rightarrow> bool" where
  "at_pc_opt j r0 s0 s \<longleftrightarrow> at_pc j r0 s0 s (case procs s j of None \<Rightarrow> PFinally | Some p \<Rightarrow> p)"

lemma untouched_abandoned: "untouched j s0 s \<Longrightarrow> abandoned j s0 s"
  by (simp add: untouched_def abandoned_def)

lemma outcome_simps [simp]:
  "abandoned j s0 (s\<lparr>procs := ps\<rparr>) = abandoned j s0 s" "abandoned j s0 (s\<lparr>tasks := ts\<rparr>) = abandoned j s0 s"
  "abandoned j s0 (s\<lparr>cancel_requested := cr\<rparr>) = abandoned j s0 s"
  "completed_with j r0 s0 (s\<lparr>procs := ps\<rparr>) = completed_with j r0 s0 s"
  "completed_with j r0 s0 (s\<lparr>tasks := ts\<rparr>) = completed_with j r0 s0 s"
  "completed_with j r0 s0 (s\<lparr>cancel_requested := cr\<rparr>) = completed_with j r0 s0 s"
  "failed_with j r0 s0 (s\<lparr>procs := ps\<rparr>) = failed_with j r0 s0 s"
  "failed_with j r0 s0 (s\<lparr>tasks := ts\<rparr>) = failed_with j r0 s0 s"
  "failed_with j r0 s0 (s\<lparr>cancel_requested := cr\<rparr>) = failed_with j r0 s0 s"
  "failing j r0 s0 code (s\<lparr>procs := ps\<rparr>) = failing j r0 s0 code s"
  by (simp_all add: abandoned_def completed_with_def failed_with_def failing_def)

lemma at_pc_opt_goto [simp]:
  "at_pc_opt j r0 s0 (goto j p s) = at_pc j r0 s0 (goto j p s) p"
  by (simp add: at_pc_opt_def goto_def)

lemma at_pc_opt_finish: "abandoned j s0 s \<Longrightarrow> at_pc_opt j r0 s0 (finish j s)"
  by (simp add: at_pc_opt_def finish_def)

lemma same_job_refl [simp]: "same_job r r"
  by (simp add: same_job_def)

lemma at_pc_download:
  assumes "at_pc j r0 s0 s (PDownload r)"
  shows "at_pc_opt j r0 s0 (proc_exec ch j (PDownload r) s)"
proof -
  obtain f res where d: "download ch j r s = (f, res)" by (cases "download ch j r s")
  note unfolded = d [unfolded download_def]
  show ?thesis
  proof (cases res)
    case (Inl e)
    show ?thesis
    proof (cases e)
      case (DownloadError code msg)
      have "failing j r0 s0 code s"
        using assms download_code [OF unfolded [unfolded Inl DownloadError]]
        by (simp add: failing_def untouched_def)
      then show ?thesis
        using assms d Inl DownloadError
        by (auto simp: goto_def at_pc_opt_def failing_def untouched_def resumable_status_def)
    next
      case (Unhandled x)
      then show ?thesis
        using assms d Inl by (auto intro!: at_pc_opt_finish simp: untouched_abandoned)
    qed
  next
    case (Inr result)
    then show ?thesis
      using assms d download_file [OF unfolded [unfolded Inr]] by (simp add: goto_def at_pc_opt_def)
  qed
qed

lemma completed_withI:
  "job_status (db t) j = Some COMPLETED \<Longrightarrow> prints t = prints s @ [print_entry j r path True] \<Longrightarrow>
     fs t path \<noteq> None \<Longrightarrow>
     wsq.events t = add_mset (PrintJobCompleted now' j) (add_mset (PrintJobStarted now j) (wsq.events s)) \<Longrightarrow>
     completed_with j r s t"
  unfolding completed_with_def by blast

lemma failed_withI:
  assumes "failing j r s code t" and "view (db t') j = Some r'" and "jr_status r' = FAILED"
    and "jr_error_code r' = Some code" and "jr_error_message r' = Some msg" and "prints t' = prints t"
    and "wsq.events t' = add_mset (PrintJobFailed now j (Some code) (Some msg)) (wsq.events t)"
  shows "failed_with j r s t'"
proof -
  from assms(1) consider "code \<noteq> ''PRINTER_ERROR''" "prints t = prints s" "wsq.events t = wsq.events s"
    | path now' where "code = ''PRINTER_ERROR''" "prints t = prints s @ [print_entry j r path False]"
      "wsq.events t = add_mset (PrintJobStarted now' j) (wsq.events s)"
    by (auto simp: failing_def)
  moreover have "code \<in> PRINT_JOB_ERROR_CODES" using assms(1) by (simp add: failing_def)
  ultimately show ?thesis
    using assms(2-) unfolding failed_with_def by cases metis+
qed

lemma at_pc_fail_send:
  assumes "at_pc j r0 s0 s (PFailSend code msg)"
  shows "at_pc_opt j r0 s0 (proc_exec ch j (PFailSend code msg) s)"
proof -
  let ?t = "proc_exec ch j (PFailSend code msg) s"
  have ev: "wsq.events ?t = add_mset (PrintJobFailed (ch_now ch) j (Some code) (Some msg)) (wsq.events s)"
    "prints ?t = prints s" "db ?t = db s"
    by (simp_all add: goto_def at_pc_opt_def post_def)
  then have "failed_with j r0 s0 ?t"
    using assms by (auto intro: failed_withI)
  then show ?thesis by (simp add: goto_def at_pc_opt_def)
qed

lemma offline_failing: "untouched j s0 s \<Longrightarrow> failing j r0 s0 ''PRINTER_OFFLINE'' s"
  by (simp add: failing_def untouched_def PRINT_JOB_ERROR_CODES_def)

lemma untouched_waiting:
  "store_wf (db s) \<Longrightarrow> untouched j s0 s \<Longrightarrow> untouched j s0 (store_status ch j WAITING_FOR_PRINTER None None s)"
  by (auto simp: untouched_def store_status_def store_simps resumable_status_def)

lemma at_pc_step:
  assumes wf: "store_wf (db s)" and nc: "j \<notin> cancel_requested s" and at: "at_pc j r0 s0 s p"
  shows "at_pc_opt j r0 s0 (proc_exec ch j p s)"
proof (cases p)
  case (PDownload r)
  then show ?thesis using at at_pc_download by blast
next
  case (PFailSend code msg)
  then show ?thesis using at at_pc_fail_send by blast
next
  case (PGot v)
  then show ?thesis
    using at nc by (auto simp: check_then_wait_def goto_def at_pc_opt_def split: option.split)
next
  case (PWaitUpd r path)
  then show ?thesis
    using at untouched_waiting [OF wf, of j s0 ch] by (simp add: goto_def at_pc_opt_def store_status_def)
next
  case (PFailUpd code msg)
  then obtain x where "view (db s) j = Some x" using at by (auto simp: job_status_def)
  then show ?thesis
    using PFailUpd at wf
    by (auto simp: goto_def at_pc_opt_def store_status_def view_update_status failing_def spec_status_def)
next
  case (PPrint r path)
  then show ?thesis
    using at by (cases "ch_print ch")
      (auto simp: goto_def at_pc_opt_def call_print_entry failing_def PRINT_JOB_ERROR_CODES_def)
next
  case PComplSend
  then show ?thesis
    using at by (auto simp: goto_def at_pc_opt_def post_def intro: completed_withI)
qed (use at wf nc in \<open>auto simp: piece_defs at_pc_opt_def store_simps get_view untouched_abandoned
       offline_failing untouched_def resumable_status_def abandoned_def
       split: sum.split bool.split\<close>)

section \<open>The coroutine as a whole\<close>

lemma cancel_requested_proc: "cancel_requested (proc_exec ch j p s) \<subseteq> cancel_requested s"
  by (cases p) (auto simp: piece_defs call_print_def
      split: sum.split option.split prod.split download_exc.split bool.split)

text \<open>The bookkeeping: the end of the coroutine removes its entries.\<close>

lemma finish_bookkeeping:
  assumes "procs s j = Some p" and "at_pc j r0 s0 s p" and "procs (proc_exec ch j p s) j = None"
  shows "j \<notin> tasks (proc_exec ch j p s)"
  using assms
  by (cases p) (auto simp: piece_defs call_print_def
      split: sum.splits option.splits prod.splits download_exc.splits bool.splits if_splits)

lemma run_process_at:
  assumes "store_wf (db s)" and "j \<notin> cancel_requested s" and "at_pc_opt j r0 s0 s"
    and "procs s j = None \<longrightarrow> j \<notin> tasks s" and "run_process n chs j s = Some t"
  shows "store_wf (db t) \<and> procs t j = None \<and> j \<notin> tasks t \<and> j \<notin> cancel_requested t \<and> at_pc_opt j r0 s0 t"
  using assms
proof (induction n arbitrary: chs s)
  case (Suc n)
  show ?case
  proof (cases "procs s j")
    case (Some p)
    have at: "at_pc j r0 s0 s p" using Suc.prems Some by (simp add: at_pc_opt_def)
    let ?u = "proc_exec (chs 0) j p s"
    have "at_pc_opt j r0 s0 ?u" "j \<notin> cancel_requested ?u" "procs ?u j = None \<longrightarrow> j \<notin> tasks ?u"
      using at_pc_step [OF Suc.prems(1,2) at] cancel_requested_proc [of "chs 0" j p s] Suc.prems(2)
        finish_bookkeeping [OF Some at] by auto
    then show ?thesis
      using Suc.IH [of ?u "\<lambda>i. chs (Suc i)"] Suc.prems Some by (simp add: store_wf_proc_exec)
  qed (use Suc.prems in auto)
qed (auto split: if_splits)

end
