(* ===== verification/Job_Traces.thy ===== *)
theory Job_Traces
  imports Job_Process
begin

text \<open>
  Concrete runs of the agent. A \<^verbatim>\<open>move\<close> names a step of \<^verbatim>\<open>Job_System\<close> together with what the
  environment decides, so a list of moves is a run that the kernel can evaluate; every state such
  a list reaches is reachable. The runs below exercise the usual life of a job, a crash during
  printing, and the two cancellation races.
\<close>

datatype move =
    MProc string choice
  | MHandler choice
  | MOrphan string thread_call choice
  | MDispatch PrintJobDispatch
  | MCancel PrintJobCancel
  | MConnect
  | MAuthenticated
  | MFlush send_outcome
  | MDisconnect
  | MCrash
  | MBootMark choice
  | MBootSend choice
  | MBootResume

fun perform :: "move \<Rightarrow> sys \<Rightarrow> sys option" where
  "perform (MProc j ch) s =
     (if life s = Up then map_option (\<lambda>p. proc_exec ch j p s) (procs s j) else None)"
| "perform (MHandler ch) s =
     (if life s = Up then map_option (\<lambda>h. handler_exec ch h s) (current s) else None)"
| "perform (MOrphan j c ch) s =
     (if life s = Up \<and> (j, c) \<in> set (orphans s)
      then Some (orphan_exec ch j c (s\<lparr>orphans := remove1 (j, c) (orphans s)\<rparr>)) else None)"
| "perform (MDispatch d) s =
     (if receiving s \<and> ws_connected s then Some (handle_dispatch d s) else None)"
| "perform (MCancel c) s =
     (if receiving s \<and> ws_connected s then Some (handle_cancel c s) else None)"
| "perform MConnect s =
     (if receiving s \<and> \<not> ws_socket s then Some (s\<lparr>ws_socket := True\<rparr>) else None)"
| "perform MAuthenticated s =
     (if receiving s \<and> ws_socket s \<and> \<not> ws_connected s
      then Some (flush_begin (s\<lparr>ws_connected := True\<rparr>)) else None)"
| "perform (MFlush oc) s =
     (if life s = Up then (case flushing s of [] \<Rightarrow> None | m # ms \<Rightarrow> Some (flush_next oc m ms s)) else None)"
| "perform MDisconnect s =
     (if receiving s then Some (s\<lparr>ws_socket := False, ws_connected := False\<rparr>) else None)"
| "perform MCrash s = Some (crash s)"
| "perform (MBootMark ch) s = (if life s = Down then Some (recover_mark ch s) else None)"
| "perform (MBootSend ch) s =
     (case life s of BootSend (j # js) \<Rightarrow> Some (recover_send ch j js s) | _ \<Rightarrow> None)"
| "perform MBootResume s = (case life s of BootSend [] \<Rightarrow> Some (recover_resume s) | _ \<Rightarrow> None)"

fun performs :: "move list \<Rightarrow> sys \<Rightarrow> sys option" where
  "performs [] s = Some s"
| "performs (m # ms) s = (case perform m s of None \<Rightarrow> None | Some t \<Rightarrow> performs ms t)"

lemma perform_step: "perform m s = Some t \<Longrightarrow> step s t"
  by (cases m) (auto intro: step_intros split: if_splits life.splits list.splits)

lemma performs_reachable: "performs ms s = Some t \<Longrightarrow> reachable s \<Longrightarrow> reachable t"
  by (induction ms arbitrary: s) (auto split: option.splits intro: reachable.intros perform_step)

section \<open>A concrete environment\<close>

definition fresh_install :: sys where
  "fresh_install =
     \<lparr>ws_agent_id = ''agent'', ws_agent_secret = ''secret'', ws_hostname = ''host'', ws_os_name = ''os'',
      ws_agent_version = ''1'', ws_hub_url = ''wss://hub'', ws_socket = False, ws_durable_queue = [],
      ws_stop_event = False, ws_connected = False, ws_sent = [],
      cf_allowed_host = Some ''e'', cf_download_dir = ''d'', cf_allow_insecure = False,
      db = [], fs = Map.empty, life = Down, tasks = {}, procs = Map.empty, cancel_requested = {},
      flushing = [], current = None, orphans = [], prints = []\<rparr>"

lemma initial_fresh_install: "initial fresh_install"
  by (simp add: initial_def fresh_install_def)

definition pdf_env :: download_env where
  "pdf_env = \<lparr>env_http = Response 200 (Some ''application/pdf'') [[37]] None,
     env_disk_error = (\<lambda>_. None), env_sha256 = (\<lambda>_. []), env_bracket_ok = (\<lambda>_. True)\<rparr>"

text \<open>Everything works; the printer is online, or offline, or the print call fails.\<close>

definition good :: choice where
  "good = \<lparr>ch_now = ''t'', ch_send = Accepted, ch_download = pdf_env, ch_status = Inr True, ch_print = None\<rparr>"

definition offline :: choice where
  "offline = good\<lparr>ch_status := Inr False\<rparr>"

definition jam :: choice where
  "jam = good\<lparr>ch_print := Some ''jam''\<rparr>"

definition sample_job :: PrintJobDispatch where
  "sample_job = \<lparr>pd_ts = ''t'', pd_jobId = ''j'', pd_printerId = ''p'', pd_documentType = ''T'', pd_documentId = ''D'',
     pd_documentUrl = ''https://e/x'', pd_copies = 2\<rparr>"

definition sample_cancel :: PrintJobCancel where
  "sample_cancel = \<lparr>pc_ts = ''t'', pc_jobId = ''j''\<rparr>"

definition boot :: "move list" where
  "boot = [MBootMark good, MBootResume, MConnect, MAuthenticated]"

definition accept_job :: "move list" where
  "accept_job = [MDispatch sample_job, MHandler good, MHandler good, MHandler good, MHandler good, MHandler good]"

definition work :: "nat \<Rightarrow> choice \<Rightarrow> move list" where
  "work n ch = replicate n (MProc ''j'' ch)"

lemma work_simps [simp]:
  "work 0 ch = []" "work 1 ch = [MProc ''j'' ch]" "work (Suc n) ch = MProc ''j'' ch # work n ch"
  "work (numeral k) ch = MProc ''j'' ch # work (pred_numeral k) ch"
  by (simp_all add: work_def numeral_eq_Suc)

lemma sample_download:
  assumes "jr_document_url r = ''https://e/x''" and "cf_allowed_host s = Some ''e''"
    and "cf_download_dir s = ''d''" and "cf_allow_insecure s = False" and "ch_download ch = pdf_env"
  shows "download ch ''j'' r s =
    ((fs s)(''d/j.pdf'' \<mapsto> [37]), Inr \<lparr>dr_file_path = ''d/j.pdf'', dr_byte_count = 1, dr_sha256 = []\<rparr>)"
proof -
  have "validate_url (\<lambda>_. True) ''https://e/x'' (Some ''e'') False = Inr ()" by code_simp
  moreover have "normal_content_type (Some ''application/pdf'') = ''application/pdf''" by code_simp
  moreover have "dest_path ''d'' ''j'' = ''d/j.pdf''" by code_simp
  ultimately show ?thesis using assms
    by (simp add: download_def download_document_def fetch_def pdf_env_def ALLOWED_CONTENT_TYPES_def
        DOWNLOAD_MAX_BYTES_def Let_def)
qed

text \<open>Everything that a run unfolds.\<close>

lemmas trace_simps = boot_def accept_job_def fresh_install_def good_def offline_def jam_def sample_job_def
  sample_cancel_def recover_mark_def recover_resume_def recover_send_def mark_stuck_printing_as_failed_def
  list_non_terminal_def flush_begin_def flush_next_def receiving_def resumable_def handle_dispatch_def handle_cancel_def
  handler_at_def idle_def spawn_def resend_terminal_event_def goto_def drop_proc_def finish_def post_def
  store_status_def check_then_wait_def get_def find_row_def insert_received_def fits_int64_def int64_min_def
  int64_max_def row_to_record_def row_record_def update_status_def set_local_file_path_def update_where_def
  set_status_clause_def send_def cancel_task_def call_print_def cancellable_def sample_download
  resume_job_def restart_clause_def crash_def record_is_terminal_def

lemmas observe_simps = prints_of_def calls_of_def job_status_def view_def wsq.events_def active_count_def

section \<open>Runs\<close>

text \<open>The usual life of a job.\<close>

lemma usual_run:
  "\<exists>t. performs (boot @ accept_job @ work 14 good) fresh_install = Some t \<and>
     prints_of t ''j'' = [True] \<and> job_status (db t) ''j'' = Some COMPLETED \<and> ''j'' \<notin> tasks t \<and> procs t ''j'' = None \<and> life t = Up \<and>
     ws_sent t = [PrintJobReceived ''t'' ''j'', PrintJobStarted ''t'' ''j'', PrintJobCompleted ''t'' ''j'']"
  by (simp add: trace_simps observe_simps)

text \<open>The agent stops right after the print call and is started again.\<close>

lemma crash_run:
  "\<exists>t. performs (boot @ accept_job @ work 11 good @
       [MCrash, MBootMark good, MBootSend good, MBootResume]) fresh_install = Some t \<and>
     prints_of t ''j'' = [True] \<and> job_status (db t) ''j'' = Some FAILED \<and> procs t ''j'' = None \<and> life t = Up"
  by (simp add: trace_simps observe_simps)

text \<open>A cancel that arrives before its job is remembered for ever.\<close>

lemma early_cancel_run:
  "\<exists>t. performs (boot @ [MCancel sample_cancel, MHandler good, MHandler good] @ accept_job @ work 6 good)
       fresh_install = Some t \<and>
     job_status (db t) ''j'' = Some RECEIVED \<and> procs t ''j'' = None \<and> current t = None \<and> orphans t = [] \<and> life t = Up \<and>
     wsq.events t = {#PrintJobReceived ''t'' ''j''#} \<and> prints t = [] \<and>
     map_option jr_document_url (view (db t) ''j'') = Some ''https://e/x''"
  by (simp add: trace_simps observe_simps)

text \<open>A cancel that reaches the coroutine at its first await.\<close>

lemma leaking_cancel_run:
  "\<exists>t. performs (boot @ accept_job @ work 1 good @ [MCancel sample_cancel, MHandler good, MHandler good,
       MHandler good, MHandler good] @ work 1 good) fresh_install = Some t \<and>
     job_status (db t) ''j'' = Some CANCELLED \<and> procs t ''j'' = None \<and> current t = None \<and>
     tasks t = {''j''} \<and> cancel_requested t = {''j''}"
  by (simp add: trace_simps observe_simps)

text \<open>A cancel whose status check is overtaken by the update to PRINTING.\<close>

lemma racing_cancel_run:
  "\<exists>s t. performs (boot @ accept_job @ work 8 good @ [MCancel sample_cancel, MHandler good] @ work 1 good @
       [MHandler good]) fresh_install = Some s \<and> job_status (db s) ''j'' = Some PRINTING \<and>
     perform (MHandler good) s = Some t \<and> job_status (db t) ''j'' = Some CANCELLED"
  by (simp add: trace_simps observe_simps)

text \<open>The agent stops after the insert and before the acknowledgement, and is started again; the hub
  repeats the dispatch.\<close>

lemma lost_ack_run:
  "\<exists>t. performs (boot @ [MDispatch sample_job, MHandler good, MHandler good, MHandler good, MCrash] @ boot @
       [MDispatch sample_job, MHandler good, MHandler good] @ work 14 good) fresh_install = Some t \<and>
     prints_of t ''j'' = [True] \<and> job_status (db t) ''j'' = Some COMPLETED \<and> current t = None \<and>
     ws_durable_queue t = [] \<and> ws_sent t = [PrintJobStarted ''t'' ''j'', PrintJobCompleted ''t'' ''j'']"
  by (simp add: trace_simps observe_simps)

text \<open>The connection is lost before the job's start is reported and is opened again before its end is
  reported: the socket is set before the authentication, so the end is sent at once.\<close>

lemma overtaking_run:
  "\<exists>s t. performs (boot @ accept_job @ work 9 good @ [MDisconnect] @ work 3 good @ [MConnect] @ work 1 good)
       fresh_install = Some s \<and>
     \<not> ws_connected s \<and> ws_sent s = [PrintJobReceived ''t'' ''j'', PrintJobCompleted ''t'' ''j''] \<and>
     ws_durable_queue s = [PrintJobStarted ''t'' ''j''] \<and>
     performs [MAuthenticated, MFlush Accepted] s = Some t \<and>
     ws_sent t = [PrintJobReceived ''t'' ''j'', PrintJobCompleted ''t'' ''j'', PrintJobStarted ''t'' ''j''] \<and>
     ws_durable_queue t = [] \<and> flushing t = []"
  by (simp add: trace_simps observe_simps)

text \<open>A job on its way to the printer.\<close>

lemma printing_run:
  "\<exists>s t. performs (boot @ accept_job @ work 8 good) fresh_install = Some s \<and>
     perform (MProc ''j'' good) s = Some t \<and> current s = None \<and> calls_of s ''j'' = [] \<and>
     job_status (db s) ''j'' = Some RECEIVED \<and> job_status (db t) ''j'' = Some PRINTING"
  by (simp add: trace_simps observe_simps)

end
