(* ===== verification/Job_Safety.thy ===== *)
theory Job_Safety
  imports Job_Traces
begin

text \<open>
  What the job worker guarantees: the safety properties of every reachable state of the running
  agent, the start-up recovery, the termination and the outcome of one job's coroutine, and the
  runs in which the code departs from what its comments say.
\<close>

section \<open>Start-up recovery\<close>

lemma recover_reports_sel:
  "db (recover_reports chs js s) = db s" "procs (recover_reports chs js s) = procs s"
  "prints (recover_reports chs js s) = prints s" "tasks (recover_reports chs js s) = tasks s"
  by (induction chs js s rule: recover_reports.induct) (simp_all add: recover_send_def post_def)

lemma recover_reports_life:
  "life s = BootSend js \<Longrightarrow> life (recover_reports chs js s) = BootSend []"
  by (induction chs js s rule: recover_reports.induct) (simp_all add: recover_send_def)

text \<open>The failure reports of the start-up, one for each job that was printing.\<close>

fun restart_reports :: "(nat \<Rightarrow> choice) \<Rightarrow> string list \<Rightarrow> OutboundAgentMessage list" where
  "restart_reports chs [] = []"
| "restart_reports chs (j # js) =
     PrintJobFailed (ch_now (chs 0)) j (Some RESTARTED_CODE) (Some RESTARTED_MESSAGE) #
       restart_reports (\<lambda>i. chs (Suc i)) js"

lemma recover_reports_events:
  "wsq.events (recover_reports chs js s) = wsq.events s + mset (restart_reports chs js)"
  by (induction chs js s rule: recover_reports.induct) (simp_all add: recover_send_def post_def)

lemma recover_reports_reachable:
  "reachable s \<Longrightarrow> life s = BootSend js \<Longrightarrow> reachable (recover_reports chs js s)"
proof (induction chs js s rule: recover_reports.induct)
  case (2 chs j js s)
  have "reachable (recover_send (chs 0) j js s)"
    using 2 by (blast intro: reachable.next_step step.boot_send)
  with 2 show ?case by (simp add: recover_send_def)
qed simp

lemma recover_mark_eq:
  "recover_mark ch s = s\<lparr>db := snd (mark_stuck_printing_as_failed (ch_now ch) (db s)),
     life := BootSend (fst (mark_stuck_printing_as_failed (ch_now ch) (db s)))\<rparr>"
  by (simp add: recover_mark_def split: prod.split)

lemma recover_on_startup_reachable:
  assumes "reachable s" and "life s = Down"
  shows "reachable (recover_on_startup ch chs s)"
proof -
  let ?js = "fst (mark_stuck_printing_as_failed (ch_now ch) (db s))"
  have "reachable (recover_mark ch s)" using assms by (blast intro: reachable.next_step step.boot_mark)
  moreover have "life (recover_mark ch s) = BootSend ?js" by (simp add: recover_mark_eq)
  ultimately have "reachable (recover_reports chs ?js (recover_mark ch s))"
    "life (recover_reports chs ?js (recover_mark ch s)) = BootSend []"
    by (simp_all add: recover_reports_reachable recover_reports_life)
  then show ?thesis unfolding recover_on_startup_def by (blast intro: reachable.next_step step.boot_resume)
qed

lemma resumable_recovered:
  "resumable_status (map_option (\<lambda>t. if t = PRINTING then FAILED else t) st) = resumable_status st"
  by (cases st) (auto simp: resumable_status_def)

lemma recovery_effect:
  assumes "store_wf (db s)" and "procs s = Map.empty" and "t = recover_on_startup ch chs s"
  shows "(\<forall>j. job_status (db t) j = map_option (\<lambda>st. if st = PRINTING then FAILED else st) (job_status (db s) j)) \<and>
    (\<exists>js. set js = {j. job_status (db s) j = Some PRINTING} \<and> distinct js \<and>
       wsq.events t = wsq.events s + mset (restart_reports chs js)) \<and>
    (\<forall>j. procs t j = (if resumable_status (job_status (db s) j) then Some PStart else None)) \<and>
    prints t = prints s \<and> life t = Up"
proof -
  let ?js = "fst (mark_stuck_printing_as_failed (ch_now ch) (db s))"
  let ?u = "recover_reports chs ?js (recover_mark ch s)"
  have db: "db ?u = snd (mark_stuck_printing_as_failed (ch_now ch) (db s))" "procs ?u = Map.empty"
    "prints ?u = prints s" "wsq.events ?u = wsq.events s + mset (restart_reports chs ?js)"
    by (simp_all add: recover_reports_sel recover_reports_events recover_mark_eq assms(2))
  have wf: "store_wf (db ?u)" using assms(1) by (simp add: db store_wf_mark_stuck)
  obtain rs where rs: "t = (fold resume_job rs ?u)\<lparr>life := Up\<rparr>"
    "jr_job_id ` set rs = {j. resumable_status (job_status (db ?u) j)}"
    using recover_resume_Up [OF wf] unfolding assms(3) recover_on_startup_def by blast
  note fold = fold_resume_job [of rs ?u]
  have "distinct ?js"
    using assms(1) by (auto simp: mark_stuck_printing_as_failed_def store_wf_def Let_def intro: distinct_map_filter)
  then have "\<exists>js. set js = {j. job_status (db s) j = Some PRINTING} \<and> distinct js \<and>
      wsq.events t = wsq.events s + mset (restart_reports chs js)"
    using mark_stuck_ids [OF assms(1)] by (intro exI [of _ ?js]) (simp add: rs fold db)
  then show ?thesis
    using assms(1) by (simp add: rs fold db store_simps resumable_recovered)
qed



section \<open>Every reachable state\<close>

lemma reachable_job: "reachable s \<Longrightarrow> job_ok (job_status (db s) j) (procs s j) (calls_of s j) (spawning s j) (prints_of s j)"
  using reachable_sys_inv by (simp add: sys_inv_def job_inv_def)

lemma reachable_event: "reachable s \<Longrightarrow> m \<in># all_events s \<Longrightarrow> event_ok s m"
  using reachable_sys_inv by (simp add: sys_inv_def events_ok_def)

lemma reachable_run: "performs ms fresh_install = Some t \<Longrightarrow> reachable t"
  by (blast intro: performs_reachable reachable.start initial_fresh_install)

text \<open>
  C1: A job is printed at most once. In every reachable state, whatever the interleaving of the
  coroutines, of duplicate dispatches, cancels, reconnects, crashes and restarts, at most one print
  call has been made for a job id.
\<close>

theorem printed_at_most_once:
  assumes "reachable s"
  shows "length (filter (\<lambda>c. pr_job c = j) (prints s)) \<le> 1"
  using reachable_job [OF assms, of j] by (simp add: job_ok_def prints_of_def)

theorem printed_at_most_once_witness:
  "\<exists>s. reachable s \<and> prints_of s ''j'' = [True] \<and> length (filter (\<lambda>c. pr_job c = ''j'') (prints s)) \<le> 1"
  using crash_run reachable_run printed_at_most_once by metis

text \<open>
  C4: Nothing is reported completed that was not printed. A job whose row says COMPLETED, and a job
  for which a completion event was sent, is being flushed or waits in the durable buffer, has had exactly one print
  call, and that call succeeded.
\<close>

theorem completed_was_printed:
  assumes "reachable s"
    and "job_status (db s) j = Some COMPLETED \<or> PrintJobCompleted now j \<in># all_events s"
  shows "\<exists>c. filter (\<lambda>c. pr_job c = j) (prints s) = [c] \<and> pr_ok c"
proof -
  have "PrintJobCompleted now j \<in># all_events s \<longrightarrow> prints_of s j = [True]"
    using reachable_event [OF assms(1), of "PrintJobCompleted now j"] by simp
  moreover have "job_status (db s) j = Some COMPLETED \<longrightarrow> prints_of s j = [True]"
    using reachable_job [OF assms(1), of j] by (simp add: job_ok_def)
  ultimately have "prints_of s j = [True]" using assms(2) by blast
  then show ?thesis by (auto simp: prints_of_def map_eq_Cons_conv)
qed

theorem completed_was_printed_witness:
  "\<exists>s. reachable s \<and> job_status (db s) ''j'' = Some COMPLETED \<and>
     (\<exists>c. filter (\<lambda>c. pr_job c = ''j'') (prints s) = [c] \<and> pr_ok c)"
  using usual_run reachable_run completed_was_printed by metis



text \<open>
  A job that reached the printer is never started again. Once a print call was made, the row is
  neither RECEIVED nor WAITING_FOR_PRINTER, so no start-up resumes it, and no coroutine that could
  still print it is running.
\<close>

theorem printed_never_resumed:
  assumes "reachable s" and "c \<in> set (prints s)" and "pr_job c = j"
  shows "\<not> resumable_status (job_status (db s) j) \<and> (\<forall>p. procs s j = Some p \<longrightarrow> \<not> before_print p)"
proof -
  have "prints_of s j \<noteq> []" using assms(2,3) by (auto simp: prints_of_def filter_empty_conv)
  with reachable_job [OF assms(1), of j] show ?thesis by (auto simp: job_ok_def)
qed

theorem printed_never_resumed_witness:
  "\<exists>s c. reachable s \<and> c \<in> set (prints s) \<and> pr_job c = ''j'' \<and> \<not> resumable_status (job_status (db s) ''j'')"
proof -
  obtain s where s: "performs (boot @ accept_job @ work 11 good @
       [MCrash, MBootMark good, MBootSend good, MBootResume]) fresh_install = Some s" "prints_of s ''j'' = [True]"
    using crash_run by blast
  then have "filter (\<lambda>c. pr_job c = ''j'') (prints s) \<noteq> []" by (auto simp: prints_of_def)
  then obtain c where "c \<in> set (prints s)" "pr_job c = ''j''" by (auto simp: filter_empty_conv)
  with s(1) show ?thesis using printed_never_resumed reachable_run by blast
qed

text \<open>
  C30: The queue stays well formed. In every reachable state the job ids of the table are distinct,
  every status text is one of the seven, and so no read of the queue raises.
\<close>

theorem queue_well_formed:
  assumes "reachable s"
  shows "store_wf (db s) \<and> (\<forall>j. get (db s) j = Inr (view (db s) j)) \<and>
    (\<exists>rs. list_non_terminal (db s) = Inr rs)"
proof -
  have "store_wf (db s)" using reachable_sys_inv [OF assms] by (simp add: sys_inv_def)
  then show ?thesis using get_view list_non_terminal_set by blast
qed

theorem queue_well_formed_witness:
  "\<exists>s. reachable s \<and> job_status (db s) ''j'' = Some COMPLETED \<and> store_wf (db s)"
  using usual_run reachable_run queue_well_formed by metis

section \<open>One job's coroutine\<close>

text \<open>
  C14: \<^verbatim>\<open>_process\<close> ends. Whatever the printer, the network and the disk do, the coroutine of a job ends
  after at most 52 pieces; the wait for an offline printer is bounded.
\<close>

theorem process_terminates: "\<exists>t. run_process 52 chs j (spawn j s) = Some t \<and> procs t j = None"
  by (rule run_process_enough) (simp add: spawn_def)

text \<open>
  C6: The outcome of \<^verbatim>\<open>_process\<close>. Run on a stored job that waits to be printed and that nobody cancels,
  it ends with exactly one of: COMPLETED, with one successful print call on the row's printer with
  the row's copies of a file that exists, and a started and a completed event; FAILED with a code
  of the protocol, with the matching event and no print call, or a failed one for PRINTER_ERROR;
  or an exception left it, nothing was printed or posted, and the job is still resumable. In all
  three the task table no longer holds the job.
\<close>

theorem process_outcome:
  assumes "store_wf (db s)" and "view (db s) j = Some r" and "jr_status r \<in> {RECEIVED, WAITING_FOR_PRINTER}"
    and "j \<notin> cancel_requested s"
  shows "\<exists>t. run_process 52 chs j (spawn j s) = Some t \<and> j \<notin> tasks t \<and>
    (completed_with j r s t \<or> failed_with j r s t \<or> abandoned j s t)"
proof -
  obtain t where t: "run_process 52 chs j (spawn j s) = Some t" "procs t j = None"
    using run_process_enough [of "spawn j s" j 52 chs] by (auto simp: spawn_def)
  have "at_pc_opt j r s (spawn j s)"
    using assms(2,3) by (auto simp: at_pc_opt_def spawn_def untouched_def job_status_def)
  then have "j \<notin> tasks t \<and> at_pc_opt j r s t"
    using run_process_at [OF _ _ _ _ t(1), of r s] assms(1,4) by (simp add: spawn_def)
  with t show ?thesis by (auto simp: at_pc_opt_def)
qed

theorem process_outcome_witness:
  "\<exists>s r t. view (db s) ''j'' = Some r \<and> run_process 52 (\<lambda>_. jam) ''j'' (spawn ''j'' s) = Some t \<and>
     (completed_with ''j'' r s t \<or> failed_with ''j'' r s t \<or> abandoned ''j'' s t)"
proof -
  obtain s where "performs (boot @ [MDispatch sample_job, MHandler good, MHandler good, MHandler good, MHandler good])
      fresh_install = Some s" "job_status (db s) ''j'' = Some RECEIVED" "cancel_requested s = {}"
    by (auto simp: trace_simps observe_simps)
  moreover from this have "store_wf (db s)"
    using reachable_run reachable_sys_inv sys_inv_def by blast
  ultimately show ?thesis
    using process_outcome [of s "''j''" _ "\<lambda>_. jam"] by (fastforce simp: job_status_def)
qed

section \<open>Cancellation races\<close>

text \<open>
  A cancel that arrives before its job makes the agent swallow the job: it is acknowledged,
  stays RECEIVED, nothing works on it any more, and no further event is sent. The coroutine stops
  at its first test of \<^verbatim>\<open>_cancel_requested\<close>, whose comment says that \<^verbatim>\<open>handle_cancel\<close> has already
  transitioned and notified.
\<close>

theorem early_cancel_swallows_job:
  "\<exists>s. reachable s \<and> life s = Up \<and> job_status (db s) ''j'' = Some RECEIVED \<and> procs s ''j'' = None \<and>
     current s = None \<and> orphans s = [] \<and> wsq.events s = {#PrintJobReceived ''t'' ''j''#}"
  using early_cancel_run reachable_run by blast

text \<open>
  A cancel that reaches the coroutine before its \<^verbatim>\<open>try\<close> leaks its bookkeeping: the task is over
  and the job is CANCELLED, but the task table still counts it, so the queue depth that heartbeats
  report stays too high.
\<close>

theorem cancelled_task_leaks:
  "\<exists>s. reachable s \<and> job_status (db s) ''j'' = Some CANCELLED \<and> procs s ''j'' = None \<and> current s = None \<and>
     active_count s = 1 \<and> ''j'' \<in> cancel_requested s"
proof -
  obtain s where "reachable s" "job_status (db s) ''j'' = Some CANCELLED" "procs s ''j'' = None"
    "current s = None" "tasks s = {''j''}" "cancel_requested s = {''j''}"
    using leaking_cancel_run reachable_run by metis
  then show ?thesis by (intro exI [of _ s]) (simp add: active_count_def)
qed

text \<open>
  A cancel can overwrite PRINTING. The status check of \<^verbatim>\<open>handle_cancel\<close> and its update are not
  atomic, so a step of the agent can take a job from PRINTING to CANCELLED, which the state machine
  forbids.
\<close>

theorem cancel_overwrites_printing:
  "\<exists>s t. reachable s \<and> step s t \<and> job_status (db s) ''j'' = Some PRINTING \<and>
     job_status (db t) ''j'' = Some CANCELLED \<and> \<not> is_legal_transition PRINTING CANCELLED"
proof -
  have "\<not> is_legal_transition PRINTING CANCELLED" by code_simp
  then show ?thesis using racing_cancel_run reachable_run perform_step by blast
qed

section \<open>A lost acknowledgement\<close>

text \<open>
  An acknowledgement lost in a crash is never sent. When the agent stops after storing a job and
  before acknowledging it, the restarted agent resumes and completes the job and ignores the
  repeated dispatch, and the hub hears of the job's start and completion without ever hearing that
  it was received.
\<close>

theorem lost_ack_never_sent:
  "\<exists>s. reachable s \<and> job_status (db s) ''j'' = Some COMPLETED \<and> ws_durable_queue s = [] \<and>
     ws_sent s = [PrintJobStarted ''t'' ''j'', PrintJobCompleted ''t'' ''j'']"
  using lost_ack_run reachable_run by blast

section \<open>The events of a running agent\<close>

lemma all_events_proc: "all_events s \<subseteq># all_events (proc_exec ch j p s)"
  by (cases p) (auto simp: piece_defs call_print_def split: sum.split option.split prod.split
      download_exc.split bool.split)

lemma all_events_handler:
  "life (handler_exec ch h s) \<noteq> Down \<Longrightarrow> all_events s \<subseteq># all_events (handler_exec ch h s)"
  by (cases h) (auto simp: handler_defs split: sum.splits option.splits PrintJobStatus.split)

lemma all_events_plain: "all_events s \<subseteq># all_events (send oc m False s)"
  by (simp add: all_events_def wsq.events_def send_def)

text \<open>
  C15: The running agent loses no event. Every step that does not end the process keeps every event
  that was posted: sent, taken over by the flush in progress, or still in the buffer. This holds
  with every coroutine running between the sends of a flush.
\<close>

theorem events_kept:
  assumes "step s t" and "life t \<noteq> Down"
  shows "all_events s \<subseteq># all_events t"
  using assms
proof (induction rule: step.induct)
  case (orphan_runs s j c ch)
  then show ?case by (cases c) (simp_all add: store_status_def call_print_def)
next
  case (boot_resume s)
  then show ?case by (auto simp: recover_resume_def split: sum.splits)
next
  case (boot_mark s ch)
  then show ?case by (simp add: recover_mark_def split: prod.split)
qed (auto simp: all_events_proc all_events_handler all_events_plain receivingD handle_dispatch_def handle_cancel_def
      handler_at_def recover_send_def post_def)

theorem events_kept_witness:
  "\<exists>s t. step s t \<and> flushing s = [PrintJobStarted ''t'' ''j''] \<and> PrintJobStarted ''t'' ''j'' \<in># all_events t"
proof -
  let ?m = "PrintJobStarted ''t'' ''j''"
  let ?s = "fresh_install\<lparr>life := Up, flushing := [?m]\<rparr>"
  have st: "step ?s (flush_next Closed ?m [] ?s)" by (rule step.flush) (simp_all add: fresh_install_def)
  have "all_events ?s \<subseteq># all_events (flush_next Closed ?m [] ?s)"
    by (rule events_kept [OF st]) (simp add: fresh_install_def)
  moreover have "?m \<in># all_events ?s" by (simp add: all_events_def fresh_install_def)
  ultimately have "?m \<in># all_events (flush_next Closed ?m [] ?s)" by (rule mset_subset_eqD)
  moreover have "flushing ?s = [?m]" by simp
  ultimately show ?thesis using st by blast
qed

text \<open>Undisturbed, the pieces of a flush are the whole flush.\<close>

fun flush_rest :: "(nat \<Rightarrow> send_outcome) \<Rightarrow> nat \<Rightarrow> OutboundAgentMessage list \<Rightarrow> sys \<Rightarrow> sys" where
  "flush_rest oc i [] s = s"
| "flush_rest oc i (m # ms) s = flush_rest oc (Suc i) ms (flush_next (oc i) m ms s)"

lemma send_flushing: "send oc m True (s\<lparr>flushing := f\<rparr>) = (send oc m True s)\<lparr>flushing := f\<rparr>"
  by (cases s) (simp add: send_def)

lemma flush_rest_loop: "flush_rest oc i ms (s\<lparr>flushing := ms\<rparr>) = (flush_loop oc i ms s)\<lparr>flushing := []\<rparr>"
proof (induction ms arbitrary: i s)
  case (Cons m ms)
  have "flush_next (oc i) m ms (s\<lparr>flushing := m # ms\<rparr>) = (send (oc i) m True s)\<lparr>flushing := ms\<rparr>"
    by (simp add: flush_next_def send_flushing)
  with Cons.IH show ?case by simp
qed simp

lemma flush_loop_flushing [simp]: "(flush_loop oc i ms s)\<lparr>flushing := ms'\<rparr> = flush_loop oc i ms (s\<lparr>flushing := ms'\<rparr>)"
  by (induction ms arbitrary: i s) (simp_all add: send_flushing)

theorem flush_undisturbed:
  assumes "flushing s = []"
  shows "flush_rest oc 0 (ws_durable_queue s) (flush_begin s) = flush_durable_queue oc s"
proof -
  have "flush_begin s = (s\<lparr>ws_durable_queue := []\<rparr>)\<lparr>flushing := ws_durable_queue s\<rparr>"
    by (simp add: flush_begin_def)
  moreover have "s\<lparr>ws_durable_queue := [], flushing := []\<rparr> = s\<lparr>ws_durable_queue := []\<rparr>" using assms by simp
  ultimately show ?thesis by (simp add: flush_rest_loop flush_durable_queue_def)
qed

text \<open>
  An event can overtake the buffer. \<^verbatim>\<open>run_forever\<close> sets the socket before it authenticates, and
  \<^verbatim>\<open>send\<close> only looks at the socket. So while the agent is not authenticated yet, the completion of a
  job goes out at once although its start still waits in the buffer; after the authentication the
  hub has received, in this order, received, completed and started.
\<close>

theorem event_overtakes_buffer:
  "\<exists>s t. reachable s \<and> \<not> ws_connected s \<and> PrintJobCompleted ''t'' ''j'' \<in> set (ws_sent s) \<and>
     ws_durable_queue s = [PrintJobStarted ''t'' ''j''] \<and> reachable t \<and>
     ws_sent t = [PrintJobReceived ''t'' ''j'', PrintJobCompleted ''t'' ''j'', PrintJobStarted ''t'' ''j'']"
proof -
  obtain s t where s: "reachable s" "\<not> ws_connected s" "ws_durable_queue s = [PrintJobStarted ''t'' ''j'']"
    "ws_sent s = [PrintJobReceived ''t'' ''j'', PrintJobCompleted ''t'' ''j'']"
    and t: "performs [MAuthenticated, MFlush Accepted] s = Some t"
    "ws_sent t = [PrintJobReceived ''t'' ''j'', PrintJobCompleted ''t'' ''j'', PrintJobStarted ''t'' ''j'']"
    using overtaking_run reachable_run by metis
  from t(1) s(1) have "reachable t" by (rule performs_reachable)
  with s t(2) show ?thesis by (intro exI [of _ s] exI [of _ t]) simp
qed

end
