(* ===== verification/Job_Refinement.thy ===== *)
theory Job_Refinement
  imports Job_Safety
begin

text \<open>
  The running agent of \<^verbatim>\<open>Job_System\<close> against the abstract machine of \<^verbatim>\<open>state_machine.py\<close>. The
  abstraction of a state gives every job id a status of that machine; a job the queue does not know
  is QUEUED, its status at the hub. Shown here: every step of the agent moves every job along a legal
  transition, except where a cancellation writes (\<^verbatim>\<open>handle_cancel\<close>'s own update, and the update a
  cancelled coroutine left behind in a thread); so a job that the hub does not cancel goes through a
  legal history, whatever crashes, restarts, duplicates and other jobs do.
\<close>

section \<open>Abstraction\<close>

definition abs_status :: "sys \<Rightarrow> string \<Rightarrow> PrintJobStatus" where
  "abs_status s j = (case job_status (db s) j of None \<Rightarrow> QUEUED | Some st \<Rightarrow> st)"

text \<open>A cancellation is about to write the status of the job.\<close>

definition overrides :: "sys \<Rightarrow> string \<Rightarrow> bool" where
  "overrides s j \<longleftrightarrow> current s = Some (CUpd j) \<or> (\<exists>c \<in> set (calls_of s j). call_status c \<noteq> None)"

text \<open>The statuses a job can have while its coroutine is at a program counter.\<close>

fun pc_allows :: "pc \<Rightarrow> PrintJobStatus set" where
  "pc_allows (PLoop _ _ _) = {WAITING_FOR_PRINTER}"
| "pc_allows (PSleep _ _ _) = {WAITING_FOR_PRINTER}"
| "pc_allows (PPoll _ _ _) = {WAITING_FOR_PRINTER}"
| "pc_allows (PStartedSend _ _) = {PRINTING}"
| "pc_allows (PPrint _ _) = {PRINTING}"
| "pc_allows PComplUpd = {PRINTING}"
| "pc_allows PComplSend = {COMPLETED}"
| "pc_allows (PFailUpd _ _) = {RECEIVED, WAITING_FOR_PRINTER, PRINTING}"
| "pc_allows (PFailSend _ _) = {FAILED}"
| "pc_allows PFinally = UNIV"
| "pc_allows (PCancelled _) = UNIV"
| "pc_allows _ = {RECEIVED, WAITING_FOR_PRINTER}"

definition follows :: "PrintJobStatus option \<Rightarrow> pc option \<Rightarrow> bool \<Rightarrow> bool" where
  "follows st p sp \<longleftrightarrow>
     (\<forall>q. p = Some q \<longrightarrow> \<not> is_cancelled q \<longrightarrow> (\<exists>a \<in> pc_allows q. st = Some a)) \<and>
     (sp \<longrightarrow> st = Some RECEIVED)"

definition tracked :: "sys \<Rightarrow> string \<Rightarrow> bool" where
  "tracked s j \<longleftrightarrow> follows (job_status (db s) j) (procs s j) (spawning s j) \<and>
     (procs s j \<noteq> None \<longrightarrow> j \<in> tasks s) \<and>
     (current s = Some (CUpd j) \<longrightarrow> (\<forall>q. procs s j = Some q \<longrightarrow> is_cancelled q))"

section \<open>Every step keeps the coroutines in line with the statuses\<close>

lemma pc_allows_before: "\<not> is_cancelled q \<Longrightarrow> st = Some a \<Longrightarrow> a \<in> pc_allows q \<Longrightarrow> follows st (Some q) False"
  by (auto simp: follows_def)

lemma tasks_send [simp]: "tasks (flush_begin s) = tasks s" "tasks (flush_next oc m ms s) = tasks s"
  by (simp_all add: flush_begin_def flush_next_def)

lemma tracked_simps [simp]:
  "tracked (s\<lparr>fs := f\<rparr>) j = tracked s j" "tracked (s\<lparr>cancel_requested := cr\<rparr>) j = tracked s j"
  "tracked (s\<lparr>orphans := os\<rparr>) j = tracked s j" "tracked (s\<lparr>life := lf\<rparr>) j = tracked s j"
  "tracked (s\<lparr>ws_socket := b\<rparr>) j = tracked s j" "tracked (s\<lparr>ws_connected := b'\<rparr>) j = tracked s j"
  "tracked (send oc m dur s) j = tracked s j" "tracked (flush_begin s) j = tracked s j"
  "tracked (flush_next oc m ms s) j = tracked s j" "tracked (call_print ch k r path s) j = tracked s j"
  by (simp_all add: tracked_def) (simp add: call_print_def)

lemma tracked_crash [simp]: "tracked (crash s) j"
  by (simp add: tracked_def follows_def)

lemma tracked_proc_other:
  assumes "store_wf (db s)" and "k \<noteq> j"
  shows "tracked (proc_exec ch j p s) k = tracked s k"
proof -
  have "k \<in> tasks (proc_exec ch j p s) \<longleftrightarrow> k \<in> tasks s"
    using assms(2) by (cases p) (auto simp: piece_defs call_print_def split: sum.split option.split prod.split
        download_exc.split bool.split)
  then show ?thesis using assms by (simp add: tracked_def proc_exec_frame spawning_def)
qed

lemma call_print_more [simp]:
  "tasks (call_print ch j r path s) = tasks s" "current (call_print ch j r path s) = current s"
  by (simp_all add: call_print_def)

lemma tracked_running:
  assumes "\<not> spawning t j" and "current t \<noteq> Some (CUpd j)"
  shows "tracked t j \<longleftrightarrow> (procs t j \<noteq> None \<longrightarrow> j \<in> tasks t) \<and>
    (\<forall>q. procs t j = Some q \<longrightarrow> \<not> is_cancelled q \<longrightarrow> (\<exists>a \<in> pc_allows q. job_status (db t) j = Some a))"
  using assms by (auto simp: tracked_def follows_def)

lemma tracked_proc_self:
  assumes wf: "store_wf (db s)" and p: "procs s j = Some p" and inv: "job_inv s j" and tr: "tracked s j"
  shows "tracked (proc_exec ch j p s) j"
proof (cases "is_cancelled p")
  case True
  then have "procs (proc_exec ch j p s) j = None" "spawning (proc_exec ch j p s) j = spawning s j"
    "job_status (db (proc_exec ch j p s)) j = job_status (db s) j"
    by (cases p; simp add: piece_defs spawning_def)+
  with tr show ?thesis by (simp add: tracked_def follows_def)
next
  case False
  then obtain a where a: "a \<in> pc_allows p" "job_status (db s) j = Some a" and cu: "current s \<noteq> Some (CUpd j)"
    and j: "j \<in> tasks s" using tr p by (auto simp: tracked_def follows_def)
  have sp: "\<not> spawning s j" using inv p by (auto simp: job_inv_def job_ok_def)
  have "\<not> spawning (proc_exec ch j p s) j" "current (proc_exec ch j p s) \<noteq> Some (CUpd j)"
    using sp cu by (simp_all add: spawning_def proc_exec_frame [OF wf])
  then show ?thesis
    using False j a wf
    by (cases p; simp add: tracked_running piece_defs store_simps
        split: sum.split option.split prod.split download_exc.split bool.split; blast)
qed

lemma tracked_cancel_task: "tracked s k \<Longrightarrow> current s \<noteq> Some (CUpd k) \<Longrightarrow> tracked (cancel_task j s) k"
  by (auto simp: tracked_def follows_def cancel_task_def goto_def spawning_def split: option.split)

lemma cancel_task_cancels:
  "tracked s j \<Longrightarrow> procs (cancel_task j s) j = Some q \<Longrightarrow> is_cancelled q"
  by (auto simp: tracked_def cancel_task_def goto_def split: if_splits option.splits)

lemma tracked_handler_at:
  assumes "tracked s k" and "spawns h = Some k \<longrightarrow> spawning s k"
    and "h = CUpd k \<longrightarrow> (\<forall>q. procs s k = Some q \<longrightarrow> is_cancelled q)"
  shows "tracked (handler_at h s) k"
  using assms by (auto simp: tracked_def follows_def handler_at_def)

lemma tracked_idle: "tracked s k \<Longrightarrow> tracked (idle s) k"
  by (simp add: tracked_def follows_def idle_def)

lemma tracked_post [simp]:
  "tracked (post ch m s) k = tracked s k" "spawning (post ch m s) k = spawning s k"
  by (simp_all add: post_def)

lemma tracked_insert:
  assumes ins: "insert_received now j pr dt di du co (db s) = Inr (b, db')" and wf: "store_wf (db s)"
    and inv: "job_inv s k" and tr: "tracked s k" and cur: "current s = Some (DInsert d)" "pd_jobId d = j"
  shows "tracked (handler_at (if b then DAck d else DGetAgain d) (s\<lparr>db := db'\<rparr>)) k"
proof -
  note st = job_status_insert_received [OF ins wf]
  have "procs s k = None" if "k = j" "job_status (db s) j = None"
    using inv that by (auto simp: job_inv_def job_ok_def)
  moreover have "\<not> spawning s k" by (simp add: spawning_def cur)
  ultimately show ?thesis
    using tr st cur by (auto simp: tracked_def follows_def handler_at_def)
qed

lemma tracked_handler:
  assumes wf: "store_wf (db s)" and h: "current s = Some h" and inv: "job_inv s k" and tr: "tracked s k"
  shows "tracked (handler_exec ch h s) k"
proof (cases h)
  case (DInsert d)
  then show ?thesis
    using tracked_insert [OF _ wf inv tr] h by (auto split: sum.split)
next
  case (DAck d)
  then have "spawns (DSpawn d) = Some k \<longrightarrow> spawning s k" using h by (simp add: spawning_def)
  then show ?thesis using DAck tr by (auto intro!: tracked_handler_at)
next
  case (DSpawn d)
  then have "pd_jobId d = k \<Longrightarrow> job_status (db s) k = Some RECEIVED"
    using tr h by (simp add: tracked_def follows_def spawning_def)
  with DSpawn tr h show ?thesis
    by (auto simp: tracked_def follows_def idle_def spawn_def)
next
  case (CGot j v)
  have "current s \<noteq> Some (CUpd k)" using h CGot by simp
  then have "tracked (cancel_task j s) k" by (rule tracked_cancel_task [OF tr])
  then have "tracked (handler_at (CUpd j) (cancel_task j s)) k"
    by (rule tracked_handler_at) (use cancel_task_cancels [of s k] tr in auto)
  then show ?thesis using CGot tr by (auto simp: tracked_idle split: sum.split)
next
  case (CUpd j)
  have "tracked (store_status ch j CANCELLED None None s) k"
    using tr wf h CUpd by (auto simp: tracked_def follows_def store_status_def store_simps spawning_def)
  then show ?thesis using CUpd tracked_handler_at by simp
next
  case (DResend r)
  then show ?thesis using tr by (simp add: tracked_idle resend_terminal_event_def split: PrintJobStatus.split)
qed (use tr h in \<open>auto simp: tracked_idle spawning_def intro!: tracked_handler_at split: sum.split option.split\<close>)

lemma tracked_recover_resume:
  assumes wf: "store_wf (db s)" and "quiet s"
  shows "tracked (recover_resume s) k"
proof -
  obtain rs where rs: "recover_resume s = (fold resume_job rs s)\<lparr>life := Up\<rparr>"
    "jr_job_id ` set rs = {j. resumable_status (job_status (db s) j)}"
    using recover_resume_Up [OF wf] by blast
  have "\<not> spawning (fold resume_job rs s) k" "current (fold resume_job rs s) = None"
    using \<open>quiet s\<close> by (simp_all add: spawning_def fold_resume_job quiet_def)
  then show ?thesis
    using \<open>quiet s\<close>
    by (auto simp: rs tracked_running fold_resume_job quiet_def resumable_status_def)
qed

lemma tracked_quiet: "quiet s \<Longrightarrow> tracked s k"
  by (simp add: quiet_def tracked_def follows_def spawning_def)

lemma tracked_orphan:
  assumes wf: "store_wf (db s)" and mem: "(j, c) \<in> set (orphans s)" and inv: "job_inv s k" and tr: "tracked s k"
  shows "tracked (orphan_exec ch j c (s\<lparr>orphans := remove1 (j, c) (orphans s)\<rparr>)) k"
proof (cases "k = j")
  case True
  then have "calls_of s k \<noteq> []" using calls_of_mem [OF mem] by auto
  then have "\<forall>q. procs s k = Some q \<longrightarrow> is_cancelled q" "\<not> spawning s k"
    using inv by (auto simp: job_inv_def job_ok_def)
  then show ?thesis
    using tr by (cases c) (auto simp: tracked_def follows_def store_status_def)
next
  case False
  then show ?thesis using tr wf
    by (cases c) (simp_all add: tracked_def store_status_def store_simps)
qed

lemma tracked_step:
  assumes "step s t" and "sys_inv s" and "\<And>k. tracked s k"
  shows "tracked t k"
  using assms
proof (induction rule: step.induct)
  case (proc s j p ch)
  then show ?case
    by (cases "k = j") (simp_all add: sys_inv_def tracked_proc_self tracked_proc_other)
next
  case (handler s h ch)
  then show ?case by (simp add: sys_inv_def tracked_handler)
next
  case (orphan_runs s j c ch)
  then show ?case by (simp add: sys_inv_def tracked_orphan)
next
  case (boot_mark s ch)
  then have "quiet (recover_mark ch s)" by (simp add: sys_inv_def recover_mark_eq)
  then show ?case by (rule tracked_quiet)
next
  case (boot_send s j js ch)
  then show ?case by (simp add: recover_send_def)
next
  case (boot_resume s)
  then show ?case by (simp add: sys_inv_def tracked_recover_resume)
next
  case (cancel_frame s c)
  then show ?case
    using tracked_handler_at [of "s\<lparr>cancel_requested := insert (pc_jobId c) (cancel_requested s)\<rparr>" k]
    by (simp add: handle_cancel_def)
qed (simp_all add: handle_dispatch_def tracked_handler_at)

lemma reachable_tracked: "reachable s \<Longrightarrow> tracked s k"
proof (induction arbitrary: k rule: reachable.induct)
  case (start s)
  then show ?case by (simp add: initial_def tracked_quiet quiet_def)
next
  case (next_step s t)
  then show ?case using tracked_step reachable_sys_inv by blast
qed

section \<open>Every step is a legal transition\<close>

lemma abs_status_cong: "job_status (db s) j = job_status (db t) j \<Longrightarrow> abs_status s j = abs_status t j"
  by (simp add: abs_status_def)

lemma legal_proc:
  assumes wf: "store_wf (db s)" and p: "procs s j = Some p" and tr: "tracked s j"
  shows "is_legal_transition (abs_status s k) (abs_status (proc_exec ch j p s) k)"
proof (cases "k = j \<and> \<not> is_cancelled p")
  case True
  then obtain a where "a \<in> pc_allows p" "job_status (db s) j = Some a"
    using tr p by (auto simp: tracked_def follows_def)
  with True wf show ?thesis
    by (cases p) (auto simp: abs_status_def piece_defs store_simps is_legal_transition_def
        split: sum.split option.split prod.split download_exc.split bool.split)
next
  case False
  then have "job_status (db (proc_exec ch j p s)) k = job_status (db s) k"
    by (cases "k = j") (use False in \<open>cases p, simp_all add: piece_defs\<close>, simp add: proc_exec_frame(5) [OF wf])
  then show ?thesis by (simp add: abs_status_def)
qed

lemma legal_handler:
  assumes wf: "store_wf (db s)" and h: "current s = Some h" and "\<not> overrides s k"
  shows "is_legal_transition (abs_status s k) (abs_status (handler_exec ch h s) k)"
proof (cases "\<exists>d. h = DInsert d")
  case True
  then obtain d where h': "h = DInsert d" by blast
  show ?thesis
  proof (cases "insert_received (ch_now ch) (pd_jobId d) (pd_printerId d) (pd_documentType d)
        (pd_documentId d) (pd_documentUrl d) (pd_copies d) (db s)")
    case (Inl e)
    with h' show ?thesis by (simp add: abs_status_def)
  next
    case (Inr v)
    then obtain b db' where v: "v = (b, db')" by (cases v) auto
    show ?thesis
      using job_status_insert_received [OF Inr [unfolded v] wf] Inr v h'
      by (auto simp: abs_status_def handler_at_def is_legal_transition_def)
  qed
next
  case False
  have "h \<noteq> CUpd k" using assms(2,3) by (auto simp: overrides_def)
  then have "job_status (db (handler_exec ch h s)) k = job_status (db s) k"
    using wf False by (cases h) (auto simp: handler_defs store_simps split: sum.split option.split PrintJobStatus.split)
  then show ?thesis by (simp add: abs_status_def)
qed

lemma legal_orphan:
  assumes wf: "store_wf (db s)" and mem: "(j, c) \<in> set (orphans s)" and "\<not> overrides s k"
  shows "is_legal_transition (abs_status s k)
    (abs_status (orphan_exec ch j c (s\<lparr>orphans := remove1 (j, c) (orphans s)\<rparr>)) k)"
proof -
  have "j = k \<Longrightarrow> call_status c = None" using assms(3) calls_of_mem [OF mem] by (auto simp: overrides_def)
  then show ?thesis
    using wf by (cases c; cases "k = j") (simp_all add: abs_status_def store_status_def store_simps)
qed

lemma step_moves_legally:
  assumes "reachable s" and "step s t" and "\<not> overrides s j"
  shows "is_legal_transition (abs_status s j) (abs_status t j)"
proof -
  have wf: "store_wf (db s)" using reachable_sys_inv [OF assms(1)] by (simp add: sys_inv_def)
  have tr: "tracked s k" for k by (rule reachable_tracked [OF assms(1)])
  from assms(2,3) wf tr show ?thesis
  proof (induction rule: step.induct)
    case (proc s i p ch)
    then show ?case by (simp add: legal_proc)
  next
    case (handler s h ch)
    then show ?case by (simp add: legal_handler)
  next
    case (orphan_runs s i c ch)
    then show ?case by (simp add: legal_orphan)
  next
    case (boot_mark s ch)
    then show ?case
      by (cases "job_status (db s) j") (auto simp: abs_status_def recover_mark_eq job_status_mark_stuck is_legal_transition_def)
  next
    case (boot_resume s)
    then show ?case using recover_resume_Up [of s] by (auto simp: abs_status_def fold_resume_job)
  qed (simp_all add: abs_status_def handle_dispatch_def handle_cancel_def handler_at_def recover_send_def post_def)
qed

text \<open>
  C2: The agent refines the print job state machine. In every reachable state, every step moves
  every job along a transition that \<^verbatim>\<open>is_legal_transition\<close> allows; the only exceptions are the two
  writes of a cancellation, \<^verbatim>\<open>handle_cancel\<close>'s own and the one a cancelled coroutine had already
  handed to a thread. A job the queue does not know counts as QUEUED.
\<close>

theorem refines_state_machine:
  assumes "reachable s" and "step s t" and "\<not> overrides s j"
  shows "is_legal_transition (abs_status s j) (abs_status t j)"
  using assms by (rule step_moves_legally)

theorem refines_state_machine_witness:
  "\<exists>s t. reachable s \<and> step s t \<and> abs_status s ''j'' = RECEIVED \<and> abs_status t ''j'' = PRINTING \<and>
     is_legal_transition (abs_status s ''j'') (abs_status t ''j'')"
proof -
  obtain s t where run: "performs (boot @ accept_job @ work 8 good) fresh_install = Some s"
      "perform (MProc ''j'' good) s = Some t"
    and idle: "current s = None" "calls_of s ''j'' = []"
    and st: "job_status (db s) ''j'' = Some RECEIVED" "job_status (db t) ''j'' = Some PRINTING"
    using printing_run by blast
  have "\<not> overrides s ''j''" using idle by (simp add: overrides_def)
  from refines_state_machine [OF reachable_run [OF run(1)] perform_step [OF run(2)] this]
  have "is_legal_transition (abs_status s ''j'') (abs_status t ''j'')" .
  moreover have "abs_status s ''j'' = RECEIVED" "abs_status t ''j'' = PRINTING"
    using st by (simp_all add: abs_status_def)
  ultimately show ?thesis using reachable_run [OF run(1)] perform_step [OF run(2)] by blast
qed

section \<open>The history of a job that is not cancelled\<close>

fun cancels :: "handler \<Rightarrow> string option" where
  "cancels (CGet j) = Some j"
| "cancels (CGot j _) = Some j"
| "cancels (CUpd j) = Some j"
| "cancels (CSend j) = Some j"
| "cancels _ = None"

definition uncancelled :: "sys \<Rightarrow> string \<Rightarrow> bool" where
  "uncancelled s j \<longleftrightarrow> calls_of s j = [] \<and> (\<forall>h. current s = Some h \<longrightarrow> cancels h \<noteq> Some j)"

text \<open>A run in which the hub sends no cancel for the job.\<close>

fun uncancelled_run :: "string \<Rightarrow> sys \<Rightarrow> sys list \<Rightarrow> bool" where
  "uncancelled_run j s [] \<longleftrightarrow> True"
| "uncancelled_run j s (t # ts) \<longleftrightarrow>
     step s t \<and> (\<forall>c. receiving s \<longrightarrow> pc_jobId c = j \<longrightarrow> t \<noteq> handle_cancel c s) \<and> uncancelled_run j t ts"

text \<open>The statuses the job takes in a run, without repetitions of the same one.\<close>

definition history :: "string \<Rightarrow> sys \<Rightarrow> sys list \<Rightarrow> PrintJobStatus list" where
  "history j s ts = remdups_adj (map (\<lambda>u. abs_status u j) (s # ts))"

lemma uncancelled_overrides: "uncancelled s j \<Longrightarrow> \<not> overrides s j"
  by (auto simp: uncancelled_def overrides_def)

lemma calls_of_cancel_task: "k \<noteq> j \<Longrightarrow> calls_of (cancel_task j s) k = calls_of s k"
  by (auto simp: cancel_task_def calls_of_def goto_def split: option.split)

lemma uncancelled_simps [simp]:
  "uncancelled (s\<lparr>fs := f\<rparr>) j = uncancelled s j" "uncancelled (s\<lparr>db := d\<rparr>) j = uncancelled s j"
  "uncancelled (s\<lparr>life := lf\<rparr>) j = uncancelled s j" "uncancelled (s\<lparr>ws_socket := b\<rparr>) j = uncancelled s j"
  "uncancelled (s\<lparr>ws_connected := b'\<rparr>) j = uncancelled s j" "uncancelled (send oc m dur s) j = uncancelled s j"
  "uncancelled (flush_begin s) j = uncancelled s j" "uncancelled (flush_next oc m ms s) j = uncancelled s j"
  "uncancelled (call_print ch k r path s) j = uncancelled s j" "uncancelled (crash s) j"
  "uncancelled (handler_at h s) j \<longleftrightarrow> calls_of s j = [] \<and> cancels h \<noteq> Some j"
  "uncancelled (idle s) j \<longleftrightarrow> calls_of s j = []"
  by (simp_all add: uncancelled_def handler_at_def idle_def)

lemma uncancelled_handler:
  assumes "current s = Some h" and "uncancelled s j"
  shows "uncancelled (handler_exec ch h s) j"
proof -
  have "calls_of s j = []" "cancels h \<noteq> Some j" using assms by (simp_all add: uncancelled_def)
  then show ?thesis
    by (cases h) (auto simp: post_def store_status_def spawn_def resend_terminal_event_def calls_of_cancel_task
        split: sum.split option.split PrintJobStatus.split)
qed

lemma uncancelled_step:
  assumes "step s t" and "store_wf (db s)" and "uncancelled s j" and "\<forall>c. receiving s \<longrightarrow> pc_jobId c = j \<longrightarrow> t \<noteq> handle_cancel c s"
  shows "uncancelled t j"
  using assms
proof (induction rule: step.induct)
  case (proc s i p ch)
  then show ?case by (simp add: uncancelled_def calls_of_def proc_exec_frame)
next
  case (handler s h ch)
  then show ?case by (simp add: uncancelled_handler)
next
  case (orphan_runs s i c ch)
  then have "i \<noteq> j" using calls_of_mem by (fastforce simp: uncancelled_def)
  with orphan_runs show ?case by (cases c) (simp_all add: uncancelled_def store_status_def)
next
  case (orphan_dropped s i c)
  then have "i \<noteq> j" using calls_of_mem by (fastforce simp: uncancelled_def)
  with orphan_dropped show ?case by (simp add: uncancelled_def)
next
  case (boot_mark s ch)
  then show ?case by (simp add: recover_mark_eq)
next
  case (boot_resume s)
  then show ?case
    using recover_resume_Up [of s] by (auto simp: uncancelled_def calls_of_def fold_resume_job)
next
  case (dispatch_frame s d)
  then have "calls_of s j = []" by (simp add: uncancelled_def)
  then show ?case by (simp add: handle_dispatch_def)
next
  case (cancel_frame s c)
  then have "pc_jobId c \<noteq> j" "calls_of s j = []" by (auto simp: uncancelled_def)
  then show ?case by (simp add: handle_cancel_def)
qed (auto simp: handle_dispatch_def recover_send_def post_def uncancelled_def)

lemma remdups_adj_legal:
  "successively is_legal_transition (x # zs) \<Longrightarrow> \<exists>ys. remdups_adj (x # zs) = x # ys \<and> legal_chain x ys"
proof (induction zs arbitrary: x)
  case (Cons b zs)
  then obtain ys where "remdups_adj (b # zs) = b # ys" "legal_chain b ys" by auto
  with Cons.prems show ?case by (cases "x = b") auto
qed simp

lemma run_successively:
  assumes "reachable s" and "uncancelled s j" and "uncancelled_run j s ts"
  shows "successively is_legal_transition (map (\<lambda>u. abs_status u j) (s # ts))"
  using assms
proof (induction ts arbitrary: s)
  case (Cons t ts)
  then have st: "step s t" and nc: "\<forall>c. receiving s \<longrightarrow> pc_jobId c = j \<longrightarrow> t \<noteq> handle_cancel c s" by simp_all
  have "store_wf (db s)" using reachable_sys_inv [OF Cons.prems(1)] by (simp add: sys_inv_def)
  then have "uncancelled t j" using uncancelled_step [OF st _ Cons.prems(2) nc] by simp
  moreover have "reachable t" using Cons.prems(1) st by (rule reachable.next_step)
  ultimately have "successively is_legal_transition (map (\<lambda>u. abs_status u j) (t # ts))"
    using Cons by simp
  moreover have "is_legal_transition (abs_status s j) (abs_status t j)"
    using step_moves_legally [OF Cons.prems(1) st] uncancelled_overrides [OF Cons.prems(2)] by blast
  ultimately show ?case by simp
qed simp

lemma legal_chain_never_queued: "legal_chain s ts \<Longrightarrow> QUEUED \<notin> set ts"
proof (induction ts arbitrary: s)
  case (Cons t ts)
  then have "s \<noteq> t" "is_legal_transition s t" by simp_all
  then have "t \<noteq> QUEUED" by (cases s) (auto simp: is_legal_transition_def)
  with Cons show ?case by auto
qed simp

text \<open>
  C3: The life of a job that the hub does not cancel. From a fresh installation on, through any number
  of crashes, restarts, duplicate dispatches, reconnects and cancels of other jobs, the statuses of
  the job form a legal chain of the state machine that starts in QUEUED: no status comes back, a
  terminal one is never left, and there are at most four changes.
\<close>

theorem uncancelled_history:
  assumes "initial s" and "uncancelled_run j s ts"
  shows "\<exists>hs. history j s ts = QUEUED # hs \<and> legal_chain QUEUED hs \<and> distinct (QUEUED # hs) \<and> length hs \<le> 4"
proof -
  have q: "abs_status s j = QUEUED" and un: "uncancelled s j"
    using assms(1) by (simp_all add: initial_def abs_status_def job_status_def view_def find_row_def
        uncancelled_def calls_of_def)
  obtain hs where hs: "history j s ts = QUEUED # hs" "legal_chain QUEUED hs"
    using remdups_adj_legal [OF run_successively [OF reachable.start [OF assms(1)] un assms(2), simplified]]
    unfolding history_def by (auto simp: q)
  with job_life_bounded [OF hs(2)] show ?thesis by blast
qed

text \<open>The states a list of moves passes through.\<close>

fun states_of :: "move list \<Rightarrow> sys \<Rightarrow> sys list" where
  "states_of [] s = []"
| "states_of (m # ms) s = (case perform m s of None \<Rightarrow> [] | Some t \<Rightarrow> t # states_of ms t)"

lemma perform_uncancelled:
  assumes "perform m s = Some t" and "store_wf (db s)" and "receiving s" and "\<And>c. m \<noteq> MCancel c"
  shows "t \<noteq> handle_cancel c s"
proof -
  have "current t = None \<or> (\<exists>d. current t = Some (DGet d))"
  proof (cases m)
    case (MOrphan j c ch)
    then show ?thesis using assms by (cases c) (auto simp: store_status_def split: if_splits)
  next
    case MBootResume
    then show ?thesis using assms by (auto split: life.splits list.splits)
  qed (use assms in \<open>auto simp: receivingD proc_exec_frame handle_dispatch_def handler_at_def recover_mark_eq
      recover_send_def post_def split: if_splits life.splits list.splits\<close>)
  then show ?thesis by (auto simp: handle_cancel_def handler_at_def)
qed

lemma performs_uncancelled_run:
  "performs ms s = Some t \<Longrightarrow> reachable s \<Longrightarrow> \<forall>c. MCancel c \<notin> set ms \<Longrightarrow>
     uncancelled_run j s (states_of ms s) \<and> last (s # states_of ms s) = t"
proof (induction ms arbitrary: s)
  case (Cons m ms)
  then obtain u where u: "perform m s = Some u" "performs ms u = Some t" by (auto split: option.splits)
  have "store_wf (db s)" using reachable_sys_inv [OF Cons.prems(2)] by (simp add: sys_inv_def)
  then have "\<forall>c. receiving s \<longrightarrow> u \<noteq> handle_cancel c s" using perform_uncancelled [OF u(1)] Cons.prems(3) by auto
  moreover have "reachable u" using Cons.prems(2) perform_step [OF u(1)] by (rule reachable.next_step)
  ultimately show ?case using Cons.IH [OF u(2)] Cons.prems(3) perform_step [OF u(1)] u(1) by auto
qed simp

theorem uncancelled_history_witness:
  "\<exists>ts hs. history ''j'' fresh_install ts = QUEUED # hs \<and> abs_status (last (fresh_install # ts)) ''j'' = FAILED \<and>
     length hs \<le> 4"
proof -
  let ?ms = "boot @ accept_job @ work 11 good @ [MCrash, MBootMark good, MBootSend good, MBootResume]"
  obtain t where t: "performs ?ms fresh_install = Some t" "job_status (db t) ''j'' = Some FAILED"
    using crash_run by blast
  have "\<forall>c. MCancel c \<notin> set ?ms" by (simp add: boot_def accept_job_def work_def)
  from performs_uncancelled_run [OF t(1) reachable.start [OF initial_fresh_install] this]
  have run: "uncancelled_run ''j'' fresh_install (states_of ?ms fresh_install)"
    and end_state: "last (fresh_install # states_of ?ms fresh_install) = t" by blast+
  have "abs_status t ''j'' = FAILED" using t(2) by (simp add: abs_status_def)
  with uncancelled_history [OF initial_fresh_install run] show ?thesis unfolding end_state [symmetric] by blast
qed

end
