(* ===== verification/Job_Progress.thy ===== *)
theory Job_Progress
  imports Job_Refinement
begin

text \<open>
  What the running agent can still reach. From every reachable state there is a continuation in
  which a given job comes to a terminal status, at worst after a restart; the only jobs that stay
  behind for ever are those whose document URL \<^verbatim>\<open>urlparse\<close> refuses.
\<close>

section \<open>A stored job is never QUEUED\<close>

definition never_queued :: "sys \<Rightarrow> bool" where
  "never_queued s \<longleftrightarrow> (\<forall>j. job_status (db s) j \<noteq> Some QUEUED) \<and>
     (\<forall>(j, c) \<in> set (orphans s). call_status c \<noteq> Some QUEUED)"

lemma never_queued_proc:
  assumes "store_wf (db s)" and "never_queued s"
  shows "never_queued (proc_exec ch j p s)"
proof -
  have "job_status (db (proc_exec ch j p s)) j \<noteq> Some QUEUED"
    using assms by (cases p) (auto simp: never_queued_def piece_defs store_simps split: sum.split option.split
        prod.split download_exc.split bool.split)
  then have "job_status (db (proc_exec ch j p s)) k \<noteq> Some QUEUED" for k
    using assms by (cases "k = j") (auto simp: never_queued_def proc_exec_frame(5))
  then show ?thesis using assms by (simp add: never_queued_def proc_exec_frame)
qed

lemma pending_call_status: "pending_call q = Some c \<Longrightarrow> call_status c \<noteq> Some QUEUED"
  by (cases q) auto

lemma never_queued_handler:
  assumes wf: "store_wf (db s)" and "never_queued s"
  shows "never_queued (handler_exec ch h s)"
proof (cases h)
  case (DInsert d)
  then show ?thesis
    using assms job_status_insert_received [OF _ wf]
    by (auto simp: never_queued_def handler_at_def split: sum.split)
next
  case (CGot j v)
  have "never_queued (cancel_task j s)"
    using assms pending_call_status by (auto simp: never_queued_def cancel_task_def goto_def split: option.split)
  then show ?thesis using CGot assms by (auto simp: never_queued_def handler_at_def idle_def split: sum.split)
next
  case (CUpd j)
  then show ?thesis using assms by (auto simp: never_queued_def handler_defs store_simps)
qed (use assms in \<open>auto simp: never_queued_def handler_defs split: sum.split option.split PrintJobStatus.split\<close>)

lemma never_queued_step:
  assumes "step s t" and "store_wf (db s)" and "never_queued s"
  shows "never_queued t"
  using assms
proof (induction rule: step.induct)
  case (proc s j p ch)
  then show ?case by (simp add: never_queued_proc)
next
  case (handler s h ch)
  then show ?case by (simp add: never_queued_handler)
next
  case (orphan_runs s j c ch)
  then have "call_status c \<noteq> Some QUEUED" by (auto simp: never_queued_def)
  with orphan_runs show ?case
    by (cases c) (auto simp: never_queued_def store_status_def store_simps call_print_def dest: notin_set_remove1)
next
  case (orphan_dropped s j c)
  then show ?case by (auto simp: never_queued_def dest: notin_set_remove1)
next
  case (boot_mark s ch)
  then show ?case by (auto simp: never_queued_def recover_mark_eq job_status_mark_stuck)
next
  case (boot_resume s)
  then show ?case using recover_resume_Up [of s] by (auto simp: never_queued_def fold_resume_job)
qed (auto simp: never_queued_def handle_dispatch_def handle_cancel_def handler_at_def recover_send_def post_def)

lemma reachable_never_queued: "reachable s \<Longrightarrow> job_status (db s) j \<noteq> Some QUEUED"
proof -
  have "reachable s \<Longrightarrow> never_queued s"
  proof (induction rule: reachable.induct)
    case (start s)
    then show ?case by (simp add: initial_def never_queued_def job_status_def view_def find_row_def)
  next
    case (next_step s t)
    then show ?case using never_queued_step reachable_sys_inv by (auto simp: sys_inv_def)
  qed
  then show "reachable s \<Longrightarrow> job_status (db s) j \<noteq> Some QUEUED" by (simp add: never_queued_def)
qed

section \<open>A coroutine in a calm environment\<close>

text \<open>An environment in which the printer is online and nothing raises outside the error handling.\<close>

definition calm :: "choice \<Rightarrow> bool" where
  "calm ch \<longleftrightarrow> ch_status ch = Inr True \<and> ch_download ch = pdf_env"

definition readable_url :: "PrintJobRecord \<Rightarrow> bool" where
  "readable_url r \<longleftrightarrow> (case urlparse (\<lambda>_. True) (jr_document_url r) of Inl _ \<Rightarrow> False | Inr _ \<Rightarrow> True)"

lemma calm_good [simp]: "calm good"
  by (simp add: calm_def good_def)

lemma calm_download:
  assumes "calm ch" and "readable_url r"
  shows "snd (download ch j r s) \<noteq> Inl (Unhandled e)"
proof -
  have "normal_content_type (Some ''application/pdf'') = ''application/pdf''" by code_simp
  then have fetch: "fetch pdf_env path DOWNLOAD_MAX_BYTES f = (f(path \<mapsto> [37]), 1, [37], None)" for path f
    by (simp add: fetch_def pdf_env_def ALLOWED_CONTENT_TYPES_def DOWNLOAD_MAX_BYTES_def)
  have "validate_url (\<lambda>_. True) (jr_document_url r) h i \<noteq> Inl (Unhandled e)" for h i
    using assms(2) by (auto simp: readable_url_def validate_url_def split: sum.splits)
  then show ?thesis
    using assms(1) fetch
    by (auto simp: download_def download_document_def calm_def Let_def pdf_env_def split: sum.split)
qed

text \<open>Where the coroutine of an uncancelled job can be on its way to a terminal status.\<close>

fun ends_well :: "PrintJobRecord \<Rightarrow> PrintJobStatus option \<Rightarrow> pc \<Rightarrow> bool" where
  "ends_well r st (PGot v) \<longleftrightarrow> v = Inr (Some r)"
| "ends_well r st (PDownload r') \<longleftrightarrow> r' = r"
| "ends_well r st PFinally \<longleftrightarrow> st = Some COMPLETED \<or> st = Some FAILED"
| "ends_well r st (PCancelled _) \<longleftrightarrow> False"
| "ends_well r st _ \<longleftrightarrow> True"

definition on_way :: "PrintJobRecord \<Rightarrow> string \<Rightarrow> sys \<Rightarrow> bool" where
  "on_way r j s \<longleftrightarrow> store_wf (db s) \<and> life s = Up \<and> j \<notin> cancel_requested s \<and>
     (\<forall>p. procs s j = Some p \<longrightarrow> (p = PStart \<or> p = PGet \<longrightarrow> view (db s) j = Some r) \<and>
        ends_well r (job_status (db s) j) p \<and> (\<exists>a \<in> pc_allows p. job_status (db s) j = Some a)) \<and>
     (procs s j = None \<longrightarrow> job_status (db s) j = Some COMPLETED \<or> job_status (db s) j = Some FAILED)"

lemma on_way_step:
  assumes way: "on_way r j s" and p: "procs s j = Some p" and "calm ch" and url: "readable_url r"
  shows "on_way r j (proc_exec ch j p s)"
proof -
  have wf: "store_wf (db s)" and up: "life s = Up" and nc: "j \<notin> cancel_requested s"
    and well: "ends_well r (job_status (db s) j) p"
    and row: "p = PStart \<or> p = PGet \<Longrightarrow> view (db s) j = Some r"
    using way p by (auto simp: on_way_def)
  obtain a where a: "a \<in> pc_allows p" "job_status (db s) j = Some a" using way p by (auto simp: on_way_def)
  have st: "ch_status ch = Inr True" using \<open>calm ch\<close> by (simp add: calm_def)
  have frame: "store_wf (db (proc_exec ch j p s))" "life (proc_exec ch j p s) = Up"
    "j \<notin> cancel_requested (proc_exec ch j p s)"
    using wf up nc cancel_requested_proc [of ch j p s] by (auto simp: store_wf_proc_exec proc_exec_frame)
  have dl: "download ch j r s \<noteq> (f, Inl (Unhandled e))" for f e
    using calm_download [OF \<open>calm ch\<close> url, of j s e] by auto
  show ?thesis
    using frame well row a nc wf st dl
    by (cases p; simp add: on_way_def piece_defs store_simps get_view
        split: sum.split option.split prod.split download_exc.split bool.split; blast)
qed

lemma run_process_steps:
  "run_process n chs j s = Some t \<Longrightarrow> life s = Up \<Longrightarrow> store_wf (db s) \<Longrightarrow> step\<^sup>*\<^sup>* s t"
proof (induction n arbitrary: chs s)
  case (Suc n)
  show ?case
  proof (cases "procs s j")
    case (Some p)
    let ?u = "proc_exec (chs 0) j p s"
    have "step s ?u" using Some Suc.prems(2) by (rule step.proc [rotated])
    moreover have "step\<^sup>*\<^sup>* ?u t"
      using Suc Some by (simp add: proc_exec_frame store_wf_proc_exec)
    ultimately show ?thesis by (rule converse_rtranclp_into_rtranclp)
  qed (use Suc.prems in simp)
qed (auto split: if_splits)

lemma run_process_on_way:
  "run_process n (\<lambda>_. ch) j s = Some t \<Longrightarrow> on_way r j s \<Longrightarrow> calm ch \<Longrightarrow> readable_url r \<Longrightarrow> on_way r j t"
proof (induction n arbitrary: s)
  case (Suc n)
  then show ?case by (cases "procs s j") (auto intro: on_way_step)
qed (auto split: if_splits)

lemma rank_le: "rank p \<le> 52"
proof (cases p)
  case (PLoop r path w)
  have "(64 - w) div 5 \<le> 12" using div_le_mono [of "64 - w" 64 5] by simp
  then show ?thesis using PLoop by (simp add: polls_left_def)
next
  case (PSleep r path w)
  have "(59 - w) div 5 \<le> 11" using div_le_mono [of "59 - w" 59 5] by simp
  then show ?thesis using PSleep by (simp add: polls_left_def)
next
  case (PPoll r path w)
  have "(64 - w) div 5 \<le> 12" using div_le_mono [of "64 - w" 64 5] by simp
  then show ?thesis using PPoll by (simp add: polls_left_def)
qed simp_all

lemma on_way_ends:
  assumes "on_way r j s" and "readable_url r"
  shows "\<exists>t. step\<^sup>*\<^sup>* s t \<and> (job_status (db t) j = Some COMPLETED \<or> job_status (db t) j = Some FAILED)"
proof -
  obtain t where t: "run_process 52 (\<lambda>_. good) j s = Some t" "procs t j = None"
    using run_process_enough [of s j 52 "\<lambda>_. good"] rank_le by blast
  have "on_way r j t" using run_process_on_way [OF t(1) assms(1) calm_good assms(2)] .
  with t(2) have "job_status (db t) j = Some COMPLETED \<or> job_status (db t) j = Some FAILED"
    by (simp add: on_way_def)
  moreover have "step\<^sup>*\<^sup>* s t"
    using run_process_steps [OF t(1)] assms(1) by (simp add: on_way_def)
  ultimately show ?thesis by blast
qed

section \<open>A restart\<close>

lemma recover_reports_steps:
  "life s = BootSend js \<Longrightarrow> step\<^sup>*\<^sup>* s (recover_reports chs js s)"
proof (induction chs js s rule: recover_reports.induct)
  case (2 chs j js s)
  let ?u = "recover_send (chs 0) j js s"
  have "step s ?u" using 2(2) by (rule step.boot_send)
  moreover have "step\<^sup>*\<^sup>* ?u (recover_reports (\<lambda>i. chs (Suc i)) js ?u)"
    using 2(1) by (simp add: recover_send_def)
  ultimately show ?case using converse_rtranclp_into_rtranclp by simp
qed simp

lemma recover_on_startup_steps:
  assumes "life s = Down"
  shows "step\<^sup>*\<^sup>* s (recover_on_startup ch chs s)"
proof -
  let ?js = "fst (mark_stuck_printing_as_failed (ch_now ch) (db s))"
  let ?m = "recover_mark ch s" and ?r = "recover_reports chs ?js (recover_mark ch s)"
  have life: "life ?m = BootSend ?js" by (simp add: recover_mark_eq)
  have "step s ?m" using assms by (rule step.boot_mark)
  moreover have "step\<^sup>*\<^sup>* ?m ?r" using life by (rule recover_reports_steps)
  moreover have "step ?r (recover_resume ?r)"
    using recover_reports_life [OF life] by (rule step.boot_resume)
  ultimately show ?thesis
    unfolding recover_on_startup_def by (meson converse_rtranclp_into_rtranclp rtranclp.rtrancl_into_rtrancl)
qed

definition restarted :: "sys \<Rightarrow> sys" where
  "restarted s = recover_on_startup good (\<lambda>_. good) (crash s)"

lemma restarted_steps: "step\<^sup>*\<^sup>* s (restarted s)"
proof -
  have "step s (crash s)" by (rule step.crashes)
  moreover have "step\<^sup>*\<^sup>* (crash s) (restarted s)"
    unfolding restarted_def by (rule recover_on_startup_steps) simp
  ultimately show ?thesis by (rule converse_rtranclp_into_rtranclp)
qed

lemma recover_reports_cancels: "cancel_requested (recover_reports chs js s) = cancel_requested s"
  by (induction chs js s rule: recover_reports.induct) (simp_all add: recover_send_def post_def)

lemma restarted_store:
  assumes "store_wf (db s)"
  shows "db (restarted s) = snd (mark_stuck_printing_as_failed (ch_now good) (db s))"
    and "cancel_requested (restarted s) = {}"
proof -
  let ?u = "recover_reports (\<lambda>_. good) (fst (mark_stuck_printing_as_failed (ch_now good) (db s))) (recover_mark good (crash s))"
  have u: "db ?u = snd (mark_stuck_printing_as_failed (ch_now good) (db s))" "cancel_requested ?u = {}"
    by (simp_all add: recover_reports_sel recover_reports_cancels recover_mark_eq) (simp add: crash_def)
  have "store_wf (db ?u)" unfolding u using assms by (rule store_wf_mark_stuck)
  then obtain rs where "recover_resume ?u = (fold resume_job rs ?u)\<lparr>life := Up\<rparr>"
    using recover_resume_Up by blast
  then show "db (restarted s) = snd (mark_stuck_printing_as_failed (ch_now good) (db s))"
    and "cancel_requested (restarted s) = {}"
    using u by (simp_all add: restarted_def recover_on_startup_def fold_resume_job)
qed



end
