(* ===== verification/Job_Events.thy ===== *)
theory Job_Events
  imports Job_Refinement
begin

text \<open>
  How often the hub is told. The acknowledgement and the start of a job are posted at most once over
  all restarts, duplicates and reconnects; the terminal events may be repeated, on purpose, when the
  hub repeats a dispatch.
\<close>

section \<open>Counting events\<close>

fun is_received :: "string \<Rightarrow> OutboundAgentMessage \<Rightarrow> bool" where
  "is_received j (PrintJobReceived _ k) \<longleftrightarrow> k = j"
| "is_received j _ \<longleftrightarrow> False"

fun is_started :: "string \<Rightarrow> OutboundAgentMessage \<Rightarrow> bool" where
  "is_started j (PrintJobStarted _ k) \<longleftrightarrow> k = j"
| "is_started j _ \<longleftrightarrow> False"

definition posted :: "(OutboundAgentMessage \<Rightarrow> bool) \<Rightarrow> sys \<Rightarrow> nat" where
  "posted P s = size (filter_mset P (all_events s))"

lemma posted_simps [simp]:
  "posted P (s\<lparr>db := d\<rparr>) = posted P s" "posted P (s\<lparr>fs := f\<rparr>) = posted P s"
  "posted P (s\<lparr>procs := ps\<rparr>) = posted P s" "posted P (s\<lparr>tasks := ts\<rparr>) = posted P s"
  "posted P (s\<lparr>cancel_requested := cr\<rparr>) = posted P s" "posted P (s\<lparr>current := h\<rparr>) = posted P s"
  "posted P (s\<lparr>orphans := os\<rparr>) = posted P s" "posted P (s\<lparr>life := lf\<rparr>) = posted P s"
  "posted P (s\<lparr>ws_socket := b\<rparr>) = posted P s" "posted P (s\<lparr>ws_connected := b'\<rparr>) = posted P s"
  "posted P (send oc m True s) = posted P s + (if P m then 1 else 0)"
  "posted P (fold resume_job rs s) = posted P s" "posted P (cancel_task j s) = posted P s"
  "posted P (call_print ch j r path s) = posted P s"
  by (simp_all add: posted_def) (simp_all add: call_print_def)

lemma posted_flush [simp]:
  "flushing s = [] \<Longrightarrow> posted P (flush_begin s) = posted P s"
  "flushing s = m # ms \<Longrightarrow> posted P (flush_next oc m ms s) = posted P s"
  by (simp_all add: posted_def)

lemma posted_crash: "posted P (crash s) \<le> posted P s"
  unfolding posted_def
  by (intro size_mset_mono multiset_filter_mono) (simp add: all_events_def wsq.events_def crash_def)

lemma posted_background: "background m \<Longrightarrow> posted (is_received j) (send oc m False s) = posted (is_received j) s"
    "background m \<Longrightarrow> posted (is_started j) (send oc m False s) = posted (is_started j) s"
  by (cases m; simp add: posted_def all_events_def wsq.events_def send_def)+

lemma posted_proc:
  "posted (is_received k) (proc_exec ch j p s) = posted (is_received k) s"
  "posted (is_started k) (proc_exec ch j p s) =
     posted (is_started k) s + (if k = j \<and> (\<exists>r path. p = PStartedSend r path) then 1 else 0)"
  by (cases p; simp add: piece_defs split: sum.split option.split prod.split download_exc.split bool.split)+

lemma posted_handler:
  "posted (is_received k) (handler_exec ch h s) \<le>
     posted (is_received k) s + (if \<exists>d. h = DAck d \<and> pd_jobId d = k then 1 else 0)"
  "posted (is_started k) (handler_exec ch h s) \<le> posted (is_started k) s"
  by (cases h; simp add: handler_defs posted_crash split: sum.split option.split PrintJobStatus.split)+

section \<open>The invariant\<close>

text \<open>Program counters from which a start can still be posted.\<close>

fun unstarted :: "pc \<Rightarrow> bool" where
  "unstarted (PPrint _ _) \<longleftrightarrow> False"
| "unstarted p \<longleftrightarrow> before_print p"

definition acking :: "sys \<Rightarrow> string \<Rightarrow> bool" where
  "acking s j \<longleftrightarrow> (\<exists>d. current s = Some (DAck d) \<and> pd_jobId d = j)"

definition ev_ok ::
  "PrintJobStatus option \<Rightarrow> pc option \<Rightarrow> thread_call list \<Rightarrow> bool \<Rightarrow> bool \<Rightarrow> nat \<Rightarrow> nat \<Rightarrow> bool" where
  "ev_ok st p cs sp ack rc sc \<longleftrightarrow>
     rc \<le> 1 \<and> sc \<le> 1 \<and> (st = None \<or> ack \<longrightarrow> rc = 0) \<and>
     (st = None \<or> resumable_status st \<or> sp \<or> (\<exists>q. p = Some q \<and> unstarted q) \<or>
       (\<exists>c \<in> set cs. resumable_status (call_status c)) \<longrightarrow> sc = 0)"

definition ev_inv :: "sys \<Rightarrow> string \<Rightarrow> bool" where
  "ev_inv s j \<longleftrightarrow> ev_ok (job_status (db s) j) (procs s j) (calls_of s j) (spawning s j) (acking s j)
     (posted (is_received j) s) (posted (is_started j) s)"

lemma ev_ok_mono: "ev_ok st p cs sp ack rc sc \<Longrightarrow> rc' \<le> rc \<Longrightarrow> sc' \<le> sc \<Longrightarrow> ev_ok st p cs sp ack rc' sc'"
  by (auto simp: ev_ok_def)

lemma acking_spawning: "acking s j \<Longrightarrow> spawning s j"
  by (auto simp: acking_def spawning_def)

section \<open>Every step keeps it\<close>

lemma acking_simps [simp]:
  "acking (s\<lparr>db := d\<rparr>) k = acking s k" "acking (s\<lparr>fs := f\<rparr>) k = acking s k"
  "acking (s\<lparr>procs := ps\<rparr>) k = acking s k" "acking (s\<lparr>tasks := ts\<rparr>) k = acking s k"
  "acking (s\<lparr>cancel_requested := cr\<rparr>) k = acking s k" "acking (s\<lparr>orphans := os\<rparr>) k = acking s k"
  "acking (s\<lparr>life := lf\<rparr>) k = acking s k" "acking (s\<lparr>ws_socket := b\<rparr>) k = acking s k"
  "acking (s\<lparr>ws_connected := b'\<rparr>) k = acking s k" "acking (send oc m dur s) k = acking s k"
  "acking (flush_begin s) k = acking s k" "acking (flush_next oc m ms s) k = acking s k"
  "acking (call_print ch j r path s) k = acking s k" "acking (crash s) k = False"
  "acking (cancel_task j s) k = acking s k" "acking (s\<lparr>current := None\<rparr>) k = False"
  "acking (s\<lparr>current := Some h\<rparr>) k = (\<exists>d. h = DAck d \<and> pd_jobId d = k)"
  by (simp_all add: acking_def)

lemma ev_inv_simps [simp]:
  "ev_inv (s\<lparr>fs := f\<rparr>) j = ev_inv s j" "ev_inv (s\<lparr>cancel_requested := cr\<rparr>) j = ev_inv s j"
  "ev_inv (s\<lparr>life := lf\<rparr>) j = ev_inv s j" "ev_inv (s\<lparr>ws_socket := b\<rparr>) j = ev_inv s j"
  "ev_inv (s\<lparr>ws_connected := b'\<rparr>) j = ev_inv s j"
  "flushing s = [] \<Longrightarrow> ev_inv (flush_begin s) j = ev_inv s j"
  "flushing s = m # ms \<Longrightarrow> ev_inv (flush_next oc m ms s) j = ev_inv s j"
  by (simp_all add: ev_inv_def)

lemma ev_inv_crash: "ev_inv s j \<Longrightarrow> ev_inv (crash s) j"
  unfolding ev_inv_def
  by (rule ev_ok_mono [where rc = "posted (is_received j) s" and sc = "posted (is_started j) s"])
    (auto simp: posted_crash ev_ok_def)

lemma ev_inv_proc_self:
  assumes wf: "store_wf (db s)" and p: "procs s j = Some p" and inv: "job_inv s j" and ev: "ev_inv s j"
  shows "ev_inv (proc_exec ch j p s) j"
proof -
  have frame: "spawning (proc_exec ch j p s) j = spawning s j" "acking (proc_exec ch j p s) j = acking s j"
    "calls_of (proc_exec ch j p s) j = calls_of s j"
    by (simp_all add: spawning_def acking_def calls_of_def proc_exec_frame [OF wf])
  have ok: "job_ok (job_status (db s) j) (Some p) (calls_of s j) (spawning s j) (prints_of s j)"
    using inv p by (simp add: job_inv_def)
  have ev': "ev_ok (job_status (db s) j) (Some p) (calls_of s j) (spawning s j) (acking s j)
      (posted (is_received j) s) (posted (is_started j) s)" using ev p by (simp add: ev_inv_def)
  show ?thesis
  proof (cases "is_cancelled p")
    case True
    then show ?thesis using ev'
      by (cases p) (auto simp: ev_inv_def frame [unfolded piece_defs] piece_defs ev_ok_def)
  next
    case False
    note run = ok [unfolded job_ok_running [OF False]]
    then obtain st where st: "job_status (db s) j = Some st" by blast
    have na: "\<not> acking s j" using run acking_spawning by blast
    show ?thesis
      unfolding ev_inv_def frame posted_proc
      using ev' run na st wf
      by (cases p; simp add: ev_ok_def piece_defs store_simps
          split: sum.split option.split prod.split download_exc.split bool.split)
  qed
qed

lemma ev_inv_proc:
  assumes wf: "store_wf (db s)" and p: "procs s j = Some p" and "job_inv s j" and "\<And>k. ev_inv s k"
  shows "ev_inv (proc_exec ch j p s) k"
proof (cases "k = j")
  case False
  then have "ev_inv (proc_exec ch j p s) k = ev_inv s k"
    by (simp add: ev_inv_def posted_proc spawning_def acking_def calls_of_def proc_exec_frame [OF wf])
  with assms(4) show ?thesis by simp
qed (use assms ev_inv_proc_self in simp)

lemma pending_call_resumable: "pending_call q = Some c \<Longrightarrow> resumable_status (call_status c) \<Longrightarrow> unstarted q"
  by (cases q) auto

lemma ev_inv_cancel_task:
  assumes "ev_inv s k"
  shows "ev_inv (cancel_task j s) k"
proof (cases "k = j \<and> j \<in> tasks s \<and> procs s j \<noteq> None")
  case True
  then obtain q where q: "procs s j = Some q" and j: "k = j" "j \<in> tasks s" by auto
  have "calls_of (cancel_task j s) j = calls_of s j @ (case pending_call q of None \<Rightarrow> [] | Some c \<Rightarrow> [c])"
    "procs (cancel_task j s) j = Some (PCancelled (inside_try q))"
    using q j by (simp_all add: cancel_task_def calls_of_def goto_def split: option.split)
  then show ?thesis
    using assms q j pending_call_resumable [of q] by (auto simp: ev_inv_def ev_ok_def split: option.splits)
next
  case False
  then have "procs (cancel_task j s) k = procs s k" "calls_of (cancel_task j s) k = calls_of s k"
    by (auto simp: cancel_task_def calls_of_def goto_def split: option.split)
  with assms show ?thesis by (simp add: ev_inv_def)
qed

lemma ev_inv_insert:
  assumes ins: "insert_received now j pr dt di du co (db s) = Inr (b, db')" and wf: "store_wf (db s)"
    and inv: "job_inv s k" and ev: "ev_inv s k" and cur: "current s = Some (DInsert d)" "pd_jobId d = j"
  shows "ev_inv (handler_at (if b then DAck d else DGetAgain d) (s\<lparr>db := db'\<rparr>)) k"
proof -
  note st = job_status_insert_received [OF ins wf]
  have "procs s k = None \<and> calls_of s k = []" if "job_status (db s) k = None"
    using inv that by (simp add: job_inv_def job_ok_def)
  moreover have "\<not> spawning s k" "\<not> acking s k" by (simp_all add: spawning_def acking_def cur)
  ultimately show ?thesis
    using ev st cur by (auto simp: ev_inv_def ev_ok_def handler_at_def)
qed

lemma ev_inv_handler:
  assumes wf: "store_wf (db s)" and h: "current s = Some h" and inv: "job_inv s k" and ev: "ev_inv s k"
  shows "ev_inv (handler_exec ch h s) k"
proof (cases h)
  case (DInsert d)
  then show ?thesis
    using ev_inv_insert [OF _ wf inv ev] h ev_inv_crash [OF ev] by (auto split: sum.split)
next
  case (CGot j v)
  have "ev_inv (handler_at (CUpd j) (cancel_task j s)) k" "ev_inv (idle s) k"
    using ev_inv_cancel_task [OF ev, of j] ev h CGot
    by (auto simp: ev_inv_def ev_ok_def handler_at_def idle_def spawning_def acking_def)
  then show ?thesis using CGot ev_inv_crash [OF ev] by (auto split: sum.split)
next
  case (DAck d)
  then have "job_status (db s) k \<noteq> None" if "pd_jobId d = k"
    using inv h that by (auto simp: job_inv_def job_ok_def spawning_def)
  then show ?thesis
    using DAck ev h by (auto simp: ev_inv_def ev_ok_def handler_defs spawning_def acking_def)
next
  case (DSpawn d)
  then have "pd_jobId d = k \<Longrightarrow> job_ok (job_status (db s) k) (procs s k) (calls_of s k) True (prints_of s k)"
    using inv h by (simp add: job_inv_def spawning_def)
  then show ?thesis
    using DSpawn ev h by (auto simp: ev_inv_def ev_ok_def handler_defs spawning_def acking_def job_ok_def)
next
  case (CUpd j)
  then show ?thesis
    using ev h wf by (auto simp: ev_inv_def ev_ok_def handler_defs store_simps spawning_def acking_def)
qed (use ev h ev_inv_crash [OF ev] in \<open>auto simp: ev_inv_def ev_ok_def handler_defs spawning_def acking_def
       split: sum.split option.split PrintJobStatus.split\<close>)

lemma ev_ok_calls: "ev_ok st p cs sp ack rc sc \<Longrightarrow> set cs' \<subseteq> set cs \<Longrightarrow> ev_ok st p cs' sp ack rc sc"
  by (auto simp: ev_ok_def)

lemma ev_ok_update:
  assumes ok: "ev_ok (Some st) p cs sp ack rc sc" and c: "c \<in> set cs" "call_status c = Some st'"
  shows "ev_ok (Some st') p cs sp ack rc sc"
proof -
  have "sc = 0" if "resumable_status (Some st')"
  proof -
    have "\<exists>c \<in> set cs. resumable_status (call_status c)" using c that by (intro bexI [of _ c]) simp_all
    with ok show ?thesis by (simp add: ev_ok_def)
  qed
  then show ?thesis using ok by (auto simp: ev_ok_def)
qed

lemma ev_inv_orphan_dropped:
  assumes "ev_inv s k"
  shows "ev_inv (s\<lparr>orphans := remove1 (j, c) (orphans s)\<rparr>) k"
proof -
  have "calls_of (s\<lparr>orphans := remove1 (j, c) (orphans s)\<rparr>) k =
      (if k = j then remove1 c (calls_of s j) else calls_of s k)" by simp
  then show ?thesis
    using assms ev_ok_calls [OF _ set_remove1_subset] by (auto simp: ev_inv_def)
qed

lemma ev_inv_orphan_runs:
  assumes wf: "store_wf (db s)" and mem: "(j, c) \<in> set (orphans s)" and ev: "ev_inv s k"
  shows "ev_inv (orphan_exec ch j c (s\<lparr>orphans := remove1 (j, c) (orphans s)\<rparr>)) k"
proof (cases "k = j \<and> call_status c \<noteq> None \<and> job_status (db s) j \<noteq> None")
  case True
  then obtain st st' em ec where st: "job_status (db s) j = Some st" and c: "c = TUpdate st' em ec" "k = j"
    by (cases c) auto
  have "ev_ok (Some st') (procs s j) (calls_of s j) (spawning s j) (acking s j)
      (posted (is_received j) s) (posted (is_started j) s)"
    using ev_ok_update [of st _ _ _ _ _ _ c st'] ev calls_of_mem [OF mem] c st by (simp add: ev_inv_def)
  then have "ev_ok (Some st') (procs s j) (remove1 c (calls_of s j)) (spawning s j) (acking s j)
      (posted (is_received j) s) (posted (is_started j) s)"
    by (rule ev_ok_calls) (rule set_remove1_subset)
  then show ?thesis using c st wf by (simp add: ev_inv_def store_status_def store_simps)
next
  case False
  have "ev_inv (s\<lparr>orphans := remove1 (j, c) (orphans s)\<rparr>) k" using ev by (rule ev_inv_orphan_dropped)
  then show ?thesis
    using False wf by (cases c) (auto simp: ev_inv_def store_status_def store_simps)
qed

lemma ev_inv_recover_resume:
  assumes wf: "store_wf (db s)" and q: "quiet s" and ev: "ev_inv s k"
  shows "ev_inv (recover_resume s) k"
proof -
  obtain rs where rs: "recover_resume s = (fold resume_job rs s)\<lparr>life := Up\<rparr>"
    "jr_job_id ` set rs = {j. resumable_status (job_status (db s) j)}"
    using recover_resume_Up [OF wf] by blast
  then show ?thesis
    using ev q by (auto simp: ev_inv_def ev_ok_def fold_resume_job calls_of_def spawning_def acking_def quiet_def)
qed

lemma ev_inv_step:
  assumes "step s t" and "sys_inv s" and "\<And>k. ev_inv s k"
  shows "ev_inv t k"
  using assms
proof (induction rule: step.induct)
  case (proc s j p ch)
  then show ?case by (simp add: sys_inv_def ev_inv_proc)
next
  case (handler s h ch)
  then show ?case by (simp add: sys_inv_def ev_inv_handler)
next
  case (orphan_runs s j c ch)
  then show ?case by (simp add: sys_inv_def ev_inv_orphan_runs)
next
  case (orphan_dropped s j c)
  then show ?case by (simp add: ev_inv_orphan_dropped)
next
  case (dispatch_frame s d)
  then show ?case
    by (auto simp: handle_dispatch_def handler_at_def ev_inv_def ev_ok_def spawning_def acking_def receivingD)
next
  case (cancel_frame s c)
  then show ?case
    by (auto simp: handle_cancel_def handler_at_def ev_inv_def ev_ok_def spawning_def acking_def receivingD)
next
  case (background_send s m oc)
  then show ?case by (simp add: ev_inv_def posted_background)
next
  case (boot_mark s ch)
  then show ?case
    by (cases "job_status (db s) k")
      (auto simp: sys_inv_def recover_mark_eq ev_inv_def ev_ok_def job_status_mark_stuck resumable_status_def)
next
  case (boot_send s j js ch)
  then show ?case by (simp add: recover_send_def post_def ev_inv_def)
next
  case (boot_resume s)
  then show ?case by (simp add: sys_inv_def ev_inv_recover_resume)
qed (simp_all add: receivingD ev_inv_crash)

lemma reachable_ev_inv: "reachable s \<Longrightarrow> ev_inv s k"
proof (induction arbitrary: k rule: reachable.induct)
  case (start s)
  then show ?case
    by (simp add: initial_def ev_inv_def ev_ok_def posted_def all_events_def wsq.events_def job_status_def
        view_def find_row_def calls_of_def spawning_def)
next
  case (next_step s t)
  then show ?case using ev_inv_step reachable_sys_inv by blast
qed

text \<open>
  C11: The hub hears of a job's receipt and of its start at most once. In every reachable state, at
  most one acknowledgement and at most one start event of a job has been posted and not lost:
  repeated dispatches, restarts, resumed jobs and reconnects never repeat them. A start event is
  only posted for a job that will not be taken up again.
\<close>

theorem told_at_most_once:
  assumes "reachable s"
  shows "posted (is_received j) s \<le> 1 \<and> posted (is_started j) s \<le> 1 \<and>
    (posted (is_started j) s = 0 \<or> \<not> resumable_status (job_status (db s) j))"
  using reachable_ev_inv [OF assms, of j] by (auto simp: ev_inv_def ev_ok_def)

theorem told_at_most_once_witness:
  "\<exists>s. reachable s \<and> PrintJobStarted ''t'' ''j'' \<in># all_events s \<and> posted (is_received ''j'') s \<le> 1 \<and>
     posted (is_started ''j'') s \<le> 1"
proof -
  obtain s where run: "performs (boot @ accept_job @ work 14 good) fresh_install = Some s"
    and sent: "ws_sent s = [PrintJobReceived ''t'' ''j'', PrintJobStarted ''t'' ''j'', PrintJobCompleted ''t'' ''j'']"
    using usual_run by blast
  have "PrintJobStarted ''t'' ''j'' \<in># all_events s" by (simp add: all_events_def wsq.events_def sent)
  then show ?thesis using told_at_most_once [OF reachable_run [OF run]] reachable_run [OF run] by blast
qed

end
