(* ===== verification/Job_Cancel.thy ===== *)
theory Job_Cancel
  imports Job_Events
begin

text \<open>
  What a cancellation is worth. When no write of the job's status is on its way in a thread, the
  cancel is final: the job stays CANCELLED and never prints, over restarts and repeated dispatches
  too. When one is on its way, it can come after the cancellation and undo it.
\<close>

section \<open>A job that is over\<close>

definition harmless :: "thread_call \<Rightarrow> bool" where
  "harmless c \<longleftrightarrow> call_status c = None \<and> \<not> call_prints c"

definition sealed :: "sys \<Rightarrow> string \<Rightarrow> bool" where
  "sealed s k \<longleftrightarrow> job_status (db s) k = Some CANCELLED \<and> prints_of s k = [] \<and> \<not> spawning s k \<and>
     (\<forall>q. procs s k = Some q \<longrightarrow> is_cancelled q) \<and> (\<forall>c \<in> set (calls_of s k). harmless c)"

text \<open>No thread is about to write the status of the job, and none will if its coroutine is cancelled.\<close>

definition no_write_pending :: "sys \<Rightarrow> string \<Rightarrow> bool" where
  "no_write_pending s j \<longleftrightarrow> (\<forall>c \<in> set (calls_of s j). call_status c = None) \<and>
     (\<forall>q c. procs s j = Some q \<longrightarrow> pending_call q = Some c \<longrightarrow> call_status c = None)"

lemma sealed_simps [simp]:
  "sealed (s\<lparr>fs := f\<rparr>) k = sealed s k" "sealed (s\<lparr>cancel_requested := cr\<rparr>) k = sealed s k"
  "sealed (s\<lparr>life := lf\<rparr>) k = sealed s k" "sealed (s\<lparr>ws_socket := b\<rparr>) k = sealed s k"
  "sealed (s\<lparr>ws_connected := b'\<rparr>) k = sealed s k" "sealed (send oc m d s) k = sealed s k"
  "sealed (post ch m s) k = sealed s k" "sealed (flush_begin s) k = sealed s k"
  "sealed (flush_next oc m ms s) k = sealed s k"
  by (simp_all add: sealed_def post_def flush_begin_def flush_next_def local_defs)

lemma sealed_crash: "sealed s k \<Longrightarrow> sealed (crash s) k"
  by (simp add: sealed_def crash_def local_defs)

lemma sealed_handler_at: "sealed s k \<Longrightarrow> spawns h \<noteq> Some k \<Longrightarrow> sealed (handler_at h s) k"
  by (simp add: sealed_def handler_at_def local_defs)

lemma sealed_idle: "sealed s k \<Longrightarrow> sealed (idle s) k"
  by (simp add: sealed_def idle_def local_defs)

lemma sealed_proc:
  assumes wf: "store_wf (db s)" and p: "procs s j = Some p" and sealed: "sealed s k"
  shows "sealed (proc_exec ch j p s) k"
proof (cases "k = j")
  case True
  then have "is_cancelled p" using p sealed by (simp add: sealed_def)
  then obtain b where "p = PCancelled b" by (cases p) simp_all
  with True sealed show ?thesis by (auto simp: sealed_def piece_defs local_defs)
next
  case False
  with sealed show ?thesis by (simp add: sealed_def spawning_def calls_of_def proc_exec_frame [OF wf])
qed

lemma sealed_cancel_task: "sealed s k \<Longrightarrow> sealed (cancel_task j s) k"
proof (cases "k = j")
  case True
  assume "sealed s k"
  moreover from this True have "pending_call q = None" if "procs s j = Some q" for q
    using that by (cases q) (auto simp: sealed_def)
  ultimately show ?thesis using True by (auto simp: sealed_def cancel_task_def goto_def local_defs split: option.split)
next
  case False
  assume "sealed s k"
  then show ?thesis using False by (auto simp: sealed_def cancel_task_def goto_def local_defs split: option.split)
qed

lemma sealed_handler:
  assumes wf: "store_wf (db s)" and h: "current s = Some h" and sealed: "sealed s k"
  shows "sealed (handler_exec ch h s) k"
proof (cases h)
  case (DInsert d)
  have "sealed (handler_at (if b then DAck d else DGetAgain d) (s\<lparr>db := db'\<rparr>)) k"
    if "insert_received (ch_now ch) (pd_jobId d) (pd_printerId d) (pd_documentType d) (pd_documentId d)
      (pd_documentUrl d) (pd_copies d) (db s) = Inr (b, db')" for b db'
    using job_status_insert_received [OF that wf] sealed by (auto simp: sealed_def handler_at_def local_defs)
  then show ?thesis using DInsert sealed_crash [OF sealed] by (auto split: sum.split)
next
  case (CGot j v)
  have "sealed (handler_at (CUpd j) (cancel_task j s)) k"
    using sealed by (intro sealed_handler_at sealed_cancel_task) simp_all
  with CGot sealed show ?thesis by (auto simp: sealed_crash sealed_idle split: sum.split)
next
  case (DAck d)
  then have "pd_jobId d \<noteq> k" using h sealed by (auto simp: sealed_def spawning_def)
  with DAck sealed show ?thesis by (auto intro!: sealed_handler_at)
next
  case (DSpawn d)
  then have "pd_jobId d \<noteq> k" using h sealed by (auto simp: sealed_def spawning_def)
  with DSpawn sealed show ?thesis by (auto simp: sealed_def idle_def spawn_def local_defs)
next
  case (CUpd j)
  then show ?thesis
    using wf sealed by (auto simp: sealed_def handler_at_def store_status_def store_simps local_defs)
next
  case (DResend r)
  then show ?thesis using sealed by (simp add: sealed_idle resend_terminal_event_def split: PrintJobStatus.split)
qed (use sealed in \<open>auto simp: sealed_crash sealed_idle intro!: sealed_handler_at split: sum.split option.split\<close>)

lemma sealed_orphan_dropped: "sealed s k \<Longrightarrow> sealed (s\<lparr>orphans := remove1 (j, c) (orphans s)\<rparr>) k"
  using set_remove1_subset [of c "calls_of s j"]
  by (auto simp: sealed_def prints_of_def spawning_def split: if_splits)

lemma sealed_orphan_runs:
  assumes wf: "store_wf (db s)" and mem: "(j, c) \<in> set (orphans s)" and sealed: "sealed s k"
  shows "sealed (orphan_exec ch j c (s\<lparr>orphans := remove1 (j, c) (orphans s)\<rparr>)) k"
proof -
  let ?s = "s\<lparr>orphans := remove1 (j, c) (orphans s)\<rparr>"
  have "k = j \<Longrightarrow> harmless c" using calls_of_mem [OF mem] sealed by (auto simp: sealed_def)
  moreover have "sealed ?s k" "store_wf (db ?s)" using sealed wf by (simp_all add: sealed_orphan_dropped)
  ultimately show ?thesis
    by (cases c) (auto simp: sealed_def harmless_def store_status_def call_print_def store_simps local_defs)
qed

lemma sealed_recover_resume:
  assumes wf: "store_wf (db s)" and "sealed s k"
  shows "sealed (recover_resume s) k"
proof -
  obtain rs where rs: "recover_resume s = (fold resume_job rs s)\<lparr>life := Up\<rparr>"
    "jr_job_id ` set rs = {j. resumable_status (job_status (db s) j)}"
    using recover_resume_Up [OF wf] by blast
  with assms(2) show ?thesis
    by (auto simp: sealed_def fold_resume_job local_defs resumable_status_def)
qed

lemma sealed_step: "step s t \<Longrightarrow> store_wf (db s) \<Longrightarrow> sealed s k \<Longrightarrow> sealed t k"
proof (induction rule: step.induct)
  case (boot_mark s ch)
  then show ?case
    by (simp add: recover_mark_eq sealed_def job_status_mark_stuck local_defs)
qed (simp_all add: sealed_proc sealed_handler sealed_orphan_runs sealed_orphan_dropped sealed_crash
      sealed_recover_resume handle_dispatch_def handle_cancel_def sealed_handler_at recover_send_def)

lemma sealed_steps: "step\<^sup>*\<^sup>* s t \<Longrightarrow> store_wf (db s) \<Longrightarrow> sealed s k \<Longrightarrow> sealed t k \<and> store_wf (db t)"
  by (induction rule: rtranclp_induct) (auto intro: sealed_step store_wf_step)

section \<open>An uninterrupted cancel\<close>

definition cancel_run :: "PrintJobCancel \<Rightarrow> choice \<Rightarrow> choice \<Rightarrow> move list" where
  "cancel_run c ch ch' = [MCancel c, MHandler ch, MHandler ch, MHandler ch, MHandler ch']"

lemma cancel_run_result:
  assumes wf: "store_wf (db s)" and rcv: "receiving s" "ws_connected s"
    and st: "resumable_status (job_status (db s) (pc_jobId c))"
  shows "performs (cancel_run c ch ch') s = Some (idle (post ch' (PrintJobCancelled (ch_now ch') (pc_jobId c))
    (handler_at (CSend (pc_jobId c)) (store_status ch (pc_jobId c) CANCELLED None None
      (handler_at (CUpd (pc_jobId c)) (cancel_task (pc_jobId c)
        (handler_at (CGot (pc_jobId c) (Inr (view (db s) (pc_jobId c)))) (handle_cancel c s))))))))"
proof -
  have "cancellable (view (db s) (pc_jobId c))"
    using st by (auto simp: cancellable_def resumable_status_def job_status_def)
  then show ?thesis
    using rcv receivingD [OF rcv(1)]
    by (simp add: cancel_run_def handle_cancel_def handler_at_def get_view [OF wf] cancel_task_def goto_def
        store_status_def split: option.split)
qed

lemma cancel_run_seals:
  assumes inv: "sys_inv s" and tr: "tracked s j" and rcv: "receiving s"
    and st: "resumable_status (job_status (db s) j)" and quiet: "no_write_pending s j"
  shows "sealed (idle (post ch' m (handler_at (CSend j) (store_status ch j CANCELLED None None
      (handler_at (CUpd j) (cancel_task j (handler_at (CGot j v) (s\<lparr>cancel_requested := cr\<rparr>)))))))) j"
proof -
  have ok: "job_ok (job_status (db s) j) (procs s j) (calls_of s j) (spawning s j) (prints_of s j)"
    and wf: "store_wf (db s)" using inv by (simp_all add: sys_inv_def job_inv_def)
  have printed: "prints_of s j = []" using ok st by (auto simp: job_ok_def)
  have calls: "harmless c" if "(j, c) \<in> set (orphans s)" for c
    using calls_of_mem [OF that] ok st quiet that by (auto simp: job_ok_def no_write_pending_def harmless_def)
  have pending: "harmless c" if "procs s j = Some q" "pending_call q = Some c" for q c
    using ok st quiet that by (cases q) (auto simp: job_ok_def no_write_pending_def harmless_def)
  obtain b where b: "job_status (db s) j = Some b" using st by (auto simp: resumable_status_def)
  have task: "procs s j \<noteq> None \<Longrightarrow> j \<in> tasks s" using tr by (auto simp: tracked_def)
  show ?thesis
    using printed calls pending b task wf
    by (auto simp: sealed_def cancel_task_def goto_def idle_def post_def handler_at_def store_status_def
        store_simps local_defs split: option.split)
qed

section \<open>Runs\<close>

lemma performs_steps: "performs ms s = Some t \<Longrightarrow> step\<^sup>*\<^sup>* s t"
  by (induction ms arbitrary: s)
    (auto split: option.splits intro: converse_rtranclp_into_rtranclp dest: perform_step)

text \<open>A job that waits for its printer.\<close>

lemma waiting_run:
  "\<exists>t. performs (boot @ accept_job @ work 9 offline) fresh_install = Some t \<and>
     receiving t \<and> ws_connected t \<and> job_status (db t) ''j'' = Some WAITING_FOR_PRINTER \<and> no_write_pending t ''j''"
  by (simp add: trace_simps observe_simps no_write_pending_def WAIT_FOR_PRINTER_MAX_SECONDS_def)

text \<open>A cancel overtakes the thread that stores WAITING_FOR_PRINTER.\<close>

lemma reviving_run:
  "\<exists>s t. performs (boot @ accept_job @ work 7 offline @ [MCancel sample_cancel, MHandler good, MHandler good,
       MHandler good, MOrphan ''j'' (TUpdate WAITING_FOR_PRINTER None None) good, MHandler good]) fresh_install = Some s \<and>
     ws_sent s = [PrintJobReceived ''t'' ''j'', PrintJobCancelled ''t'' ''j''] \<and> prints_of s ''j'' = [] \<and>
     performs (MCrash # boot @ work 11 good) s = Some t \<and> prints_of t ''j'' = [True] \<and>
     ws_sent t = [PrintJobReceived ''t'' ''j'', PrintJobCancelled ''t'' ''j'', PrintJobStarted ''t'' ''j'',
       PrintJobCompleted ''t'' ''j'']"
  by (simp add: trace_simps observe_simps)

section \<open>Properties\<close>



text \<open>
  A cancel can be undone. When the cancel arrives while a thread stores WAITING_FOR_PRINTER, that
  thread can come second; the hub has been told that the job is cancelled, and after the next
  restart the job is taken up again and printed.
\<close>

theorem cancelled_job_prints:
  "\<exists>s t. reachable s \<and> PrintJobCancelled ''t'' ''j'' \<in> set (ws_sent s) \<and> prints_of s ''j'' = [] \<and>
     step\<^sup>*\<^sup>* s t \<and> prints_of t ''j'' = [True]"
proof -
  obtain s t where run: "performs (boot @ accept_job @ work 7 offline @ [MCancel sample_cancel, MHandler good,
      MHandler good, MHandler good, MOrphan ''j'' (TUpdate WAITING_FOR_PRINTER None None) good, MHandler good])
      fresh_install = Some s"
    and s: "ws_sent s = [PrintJobReceived ''t'' ''j'', PrintJobCancelled ''t'' ''j'']" "prints_of s ''j'' = []"
    and later: "performs (MCrash # boot @ work 11 good) s = Some t" "prints_of t ''j'' = [True]"
    using reviving_run by blast
  have "PrintJobCancelled ''t'' ''j'' \<in> set (ws_sent s)" using s(1) by simp
  then show ?thesis using reachable_run [OF run] s(2) performs_steps [OF later(1)] later(2) by blast
qed

end
