(* ===== verification/Job_Reports.thy ===== *)
theory Job_Reports
  imports Job_Events
begin

text \<open>
  The end of a job is reported. As long as the process runs and the job is not cancelled, every job that
  ends while it runs is reported; when the process stops between storing the end and sending the
  event, or with the event in its buffer, the next one does not report it.
\<close>

section \<open>Runs of one process\<close>

text \<open>Once up, the process does not go down.\<close>

fun stays_up :: "sys \<Rightarrow> sys list \<Rightarrow> bool" where
  "stays_up s [] \<longleftrightarrow> True"
| "stays_up s (t # ts) \<longleftrightarrow> (life s \<noteq> Down \<longrightarrow> life t \<noteq> Down) \<and> stays_up t ts"

definition ended :: "PrintJobStatus option \<Rightarrow> bool" where
  "ended st \<longleftrightarrow> st \<in> {Some COMPLETED, Some FAILED, Some CANCELLED}"

fun is_completed :: "string \<Rightarrow> OutboundAgentMessage \<Rightarrow> bool" where
  "is_completed j (PrintJobCompleted _ k) \<longleftrightarrow> k = j"
| "is_completed j _ \<longleftrightarrow> False"

fun is_failed :: "string \<Rightarrow> OutboundAgentMessage \<Rightarrow> bool" where
  "is_failed j (PrintJobFailed _ k _ _) \<longleftrightarrow> k = j"
| "is_failed j _ \<longleftrightarrow> False"

definition told :: "(OutboundAgentMessage \<Rightarrow> bool) \<Rightarrow> sys \<Rightarrow> bool" where
  "told P s \<longleftrightarrow> (\<exists>m \<in># all_events s. P m)"

definition boot_reports :: "life \<Rightarrow> string set" where
  "boot_reports lf = (case lf of BootSend js \<Rightarrow> set js | _ \<Rightarrow> {})"

fun failing_at :: "pc \<Rightarrow> bool" where
  "failing_at (PFailSend _ _) \<longleftrightarrow> True"
| "failing_at _ \<longleftrightarrow> False"

text \<open>An end is reported, or the report is the next thing the program does for the job.\<close>

definition rep_ok :: "PrintJobStatus option \<Rightarrow> pc option \<Rightarrow> life \<Rightarrow> bool \<Rightarrow> bool \<Rightarrow> bool \<Rightarrow> bool" where
  "rep_ok st p lf due c f \<longleftrightarrow>
     (lf = Down \<longrightarrow> \<not> ended st) \<and> st \<noteq> Some CANCELLED \<and>
     (st = Some COMPLETED \<longrightarrow> c \<or> p = Some PComplSend) \<and>
     (st = Some FAILED \<longrightarrow> f \<or> (\<exists>q. p = Some q \<and> failing_at q) \<or> due)"

definition rep_inv :: "sys \<Rightarrow> string \<Rightarrow> bool" where
  "rep_inv s j \<longleftrightarrow> rep_ok (job_status (db s) j) (procs s j) (life s) (j \<in> boot_reports (life s))
     (told (is_completed j) s) (told (is_failed j) s)"

lemma told_simps [simp]:
  "told P (s\<lparr>db := d\<rparr>) = told P s" "told P (s\<lparr>fs := f\<rparr>) = told P s"
  "told P (s\<lparr>procs := ps\<rparr>) = told P s" "told P (s\<lparr>tasks := ts\<rparr>) = told P s"
  "told P (s\<lparr>cancel_requested := cr\<rparr>) = told P s" "told P (s\<lparr>current := h\<rparr>) = told P s"
  "told P (s\<lparr>orphans := os\<rparr>) = told P s" "told P (s\<lparr>life := lf\<rparr>) = told P s"
  "told P (s\<lparr>ws_socket := b\<rparr>) = told P s" "told P (s\<lparr>ws_connected := b'\<rparr>) = told P s"
  "told P (send oc m True s) \<longleftrightarrow> P m \<or> told P s"
  "told P (fold resume_job rs s) = told P s" "told P (cancel_task j s) = told P s"
  "told P (call_print ch j r path s) = told P s"
  by (auto simp: told_def call_print_def)

lemma life_call_print [simp]: "life (call_print ch j r path s) = life s"
  by (simp add: call_print_def)

lemma told_mono: "all_events s \<subseteq># all_events t \<Longrightarrow> told P s \<Longrightarrow> told P t"
  by (auto simp: told_def dest: mset_subset_eqD)

lemma told_flush [simp]:
  "flushing s = [] \<Longrightarrow> told P (flush_begin s) = told P s"
  "flushing s = m # ms \<Longrightarrow> told P (flush_next oc m ms s) = told P s"
  by (simp_all add: told_def)

lemma rep_inv_simps [simp]:
  "rep_inv (s\<lparr>fs := f\<rparr>) j = rep_inv s j" "rep_inv (s\<lparr>cancel_requested := cr\<rparr>) j = rep_inv s j"
  "rep_inv (s\<lparr>ws_socket := b\<rparr>) j = rep_inv s j" "rep_inv (s\<lparr>ws_connected := b'\<rparr>) j = rep_inv s j"
  "rep_inv (s\<lparr>orphans := os\<rparr>) j = rep_inv s j"
  "rep_inv (handler_at h s) j = rep_inv s j" "rep_inv (idle s) j = rep_inv s j"
  "flushing s = [] \<Longrightarrow> rep_inv (flush_begin s) j = rep_inv s j"
  "flushing s = m # ms \<Longrightarrow> rep_inv (flush_next oc m ms s) j = rep_inv s j"
  by (simp_all add: rep_inv_def handler_at_def idle_def)

lemma rep_ok_told: "rep_ok st p lf due c f \<Longrightarrow> (c \<Longrightarrow> c') \<Longrightarrow> (f \<Longrightarrow> f') \<Longrightarrow> rep_ok st p lf due c' f'"
  by (auto simp: rep_ok_def)

lemma rep_inv_send: "rep_inv s j \<Longrightarrow> rep_inv (send oc m d s) j"
proof -
  assume "rep_inv s j"
  moreover have "told P s \<Longrightarrow> told P (send oc m d s)" for P
    using told_mono [of s "send oc m d s" P] all_events_plain [of s oc m] by (cases d) auto
  ultimately show ?thesis by (auto simp: rep_inv_def elim!: rep_ok_told)
qed

lemma rep_inv_proc:
  assumes wf: "store_wf (db s)" and up: "life s = Up" and p: "procs s i = Some p" and inv: "rep_inv s j"
  shows "rep_inv (proc_exec ch i p s) j"
proof (cases "j = i")
  case True
  have ok: "rep_ok (job_status (db s) i) (Some p) Up False (told (is_completed i) s) (told (is_failed i) s)"
    using inv p up True by (simp add: rep_inv_def boot_reports_def)
  show ?thesis
    using ok up True wf
    by (cases p; simp add: rep_inv_def rep_ok_def boot_reports_def piece_defs store_simps ended_def
        split: sum.split option.split prod.split download_exc.split bool.split)
next
  case False
  have "told P s \<Longrightarrow> told P (proc_exec ch i p s)" for P by (rule told_mono [OF all_events_proc])
  then show ?thesis
    using inv False by (auto simp: rep_inv_def proc_exec_frame [OF wf] elim!: rep_ok_told)
qed

lemma rep_inv_handler:
  assumes wf: "store_wf (db s)" and up: "life s = Up" "life (handler_exec ch h s) \<noteq> Down"
    and h: "current s = Some h" and un: "cancels h \<noteq> Some j" and inv: "rep_inv s j" and job: "job_inv s j"
  shows "rep_inv (handler_exec ch h s) j"
proof (cases h)
  case (DInsert d)
  have "rep_inv (s\<lparr>db := db'\<rparr>) j"
    if "insert_received (ch_now ch) (pd_jobId d) (pd_printerId d) (pd_documentType d) (pd_documentId d)
      (pd_documentUrl d) (pd_copies d) (db s) = Inr (b, db')" for b db'
    using job_status_insert_received [OF that wf] inv up(1) by (auto simp: rep_inv_def rep_ok_def)
  then show ?thesis using DInsert up by (auto simp: crash_def split: sum.split)
next
  case (DSpawn d)
  then have "pd_jobId d = j \<Longrightarrow> procs s j = None"
    using job h by (auto simp: job_inv_def job_ok_def spawning_def)
  then show ?thesis using DSpawn inv by (auto simp: rep_inv_def rep_ok_def idle_def spawn_def)
next
  case (CGot i v)
  then have "j \<noteq> i" using un by simp
  then have "rep_inv (cancel_task i s) j"
    using inv by (auto simp: rep_inv_def cancel_task_def goto_def split: option.split)
  then show ?thesis using CGot up inv by (auto simp: crash_def split: sum.split)
next
  case (CUpd i)
  then have "j \<noteq> i" using un by simp
  then show ?thesis using CUpd inv wf by (simp add: store_status_def rep_inv_def store_simps handler_at_def)
next
  case (DResend r)
  then show ?thesis using inv by (simp add: resend_terminal_event_def post_def rep_inv_send split: PrintJobStatus.split)
qed (use inv up in \<open>auto simp: post_def rep_inv_send crash_def split: sum.split option.split\<close>)

lemma rep_inv_boot_mark:
  assumes wf: "store_wf (db s)" and "life s = Down" and "rep_inv s j"
  shows "rep_inv (recover_mark ch s) j"
  using assms(2,3) mark_stuck_ids [OF wf, of "ch_now ch"]
  by (cases "job_status (db s) j")
    (auto simp: rep_inv_def rep_ok_def recover_mark_eq job_status_mark_stuck [OF wf] ended_def boot_reports_def)

lemma rep_inv_boot_resume:
  assumes wf: "store_wf (db s)" and "life s = BootSend []" and "quiet s" and "rep_inv s j"
  shows "rep_inv (recover_resume s) j"
proof -
  obtain rs where "recover_resume s = (fold resume_job rs s)\<lparr>life := Up\<rparr>"
    using recover_resume_Up [OF wf] by blast
  with assms(2-4) show ?thesis
    by (auto simp: rep_inv_def rep_ok_def fold_resume_job quiet_def boot_reports_def)
qed

lemma rep_inv_step:
  assumes "step s t" and "sys_inv s" and "uncancelled s j" and "rep_inv s j" and "life s \<noteq> Down \<longrightarrow> life t \<noteq> Down"
  shows "rep_inv t j"
  using assms
proof (induction rule: step.induct)
  case (proc s i p ch)
  then show ?case by (simp add: sys_inv_def rep_inv_proc)
next
  case (handler s h ch)
  then show ?case by (auto simp: sys_inv_def uncancelled_def intro!: rep_inv_handler)
next
  case (orphan_runs s i c ch)
  then have "i \<noteq> j" using calls_of_mem by (fastforce simp: uncancelled_def)
  with orphan_runs show ?case
    by (cases c) (simp_all add: sys_inv_def rep_inv_def store_status_def store_simps)
next
  case (crashes s)
  then show ?case by (simp add: rep_inv_def rep_ok_def crash_def ended_def)
next
  case (boot_mark s ch)
  then show ?case by (simp add: sys_inv_def rep_inv_boot_mark)
next
  case (boot_resume s)
  then show ?case by (simp add: sys_inv_def rep_inv_boot_resume)
next
  case (boot_send s i js ch)
  then show ?case by (auto simp: recover_send_def post_def rep_inv_def rep_ok_def boot_reports_def)
next
  case (authenticated s)
  then show ?case by (auto dest: receivingD)
qed (simp_all add: rep_inv_send handle_dispatch_def handle_cancel_def)

lemma rep_inv_run:
  assumes "reachable s" and "uncancelled s j" and "rep_inv s j" and "uncancelled_run j s ts" and "stays_up s ts"
  shows "rep_inv (last (s # ts)) j"
  using assms
proof (induction ts arbitrary: s)
  case (Cons t ts)
  then have st: "step s t" and nc: "\<forall>c. receiving s \<longrightarrow> pc_jobId c = j \<longrightarrow> t \<noteq> handle_cancel c s" by simp_all
  have inv: "sys_inv s" by (rule reachable_sys_inv [OF Cons.prems(1)])
  have "reachable t" using Cons.prems(1) st by (rule reachable.next_step)
  moreover have "uncancelled t j" using uncancelled_step [OF st _ Cons.prems(2) nc] inv by (simp add: sys_inv_def)
  moreover have "rep_inv t j" using rep_inv_step [OF st inv Cons.prems(2,3)] Cons.prems(5) by simp
  ultimately show ?case using Cons.IH [of t] Cons.prems(4,5) by simp
qed simp

section \<open>Runs\<close>

lemma usual_run_stays_up: "stays_up fresh_install (states_of (boot @ accept_job @ work 14 good) fresh_install)"
  by (simp add: trace_simps)

text \<open>The agent stops after it has stored the end of the job and before it has sent the event.\<close>

lemma lost_end_run:
  "\<exists>t. performs (boot @ accept_job @ work 12 good @ MCrash # boot) fresh_install = Some t \<and> life t = Up \<and>
     ws_connected t \<and> current t = None \<and> procs t ''j'' = None \<and> prints_of t ''j'' = [True] \<and>
     job_status (db t) ''j'' = Some COMPLETED \<and> flushing t = [] \<and> ws_durable_queue t = [] \<and>
     ws_sent t = [PrintJobReceived ''t'' ''j'', PrintJobStarted ''t'' ''j'']"
  by (simp add: trace_simps observe_simps)

section \<open>Properties\<close>

text \<open>
  C9: Every end is reported. While a process runs, from its start on, through any schedule, reconnects,
  duplicate dispatches and cancels of other jobs: a job that was stored and not over when the
  process started, or came later, and that the hub does not cancel, is never CANCELLED; and once its
  coroutine is gone, a COMPLETED job has its completion and a FAILED one its failure among the
  events that were sent or are still buffered.
\<close>

theorem ends_are_reported:
  assumes "reachable s" and "life s = Down" and "\<not> ended (job_status (db s) j)"
    and "uncancelled_run j s ts" and "stays_up s ts"
    and "t = last (s # ts)" and "life t = Up" and "procs t j = None"
  shows "job_status (db t) j \<noteq> Some CANCELLED \<and>
    (job_status (db t) j = Some COMPLETED \<longrightarrow> (\<exists>ts. PrintJobCompleted ts j \<in># all_events t)) \<and>
    (job_status (db t) j = Some FAILED \<longrightarrow> (\<exists>ts ec em. PrintJobFailed ts j ec em \<in># all_events t))"
proof -
  have "quiet s" using reachable_sys_inv [OF assms(1)] assms(2) by (simp add: sys_inv_def)
  then have "uncancelled s j" by (simp add: uncancelled_def quiet_def calls_of_def)
  moreover have "rep_inv s j" using assms(2,3) by (auto simp: rep_inv_def rep_ok_def ended_def)
  ultimately have inv: "rep_inv t j" using rep_inv_run assms(1,4,5,6) by blast
  have "is_completed j m \<longleftrightarrow> (\<exists>ts. m = PrintJobCompleted ts j)" for m by (cases m) auto
  moreover have "is_failed j m \<longleftrightarrow> (\<exists>ts ec em. m = PrintJobFailed ts j ec em)" for m by (cases m) auto
  ultimately show ?thesis
    using inv assms(7,8) by (auto simp: rep_inv_def rep_ok_def told_def boot_reports_def)
qed

theorem ends_are_reported_witness:
  "\<exists>ts t. t = last (fresh_install # ts) \<and> job_status (db t) ''j'' = Some COMPLETED \<and>
     (\<exists>u. PrintJobCompleted u ''j'' \<in># all_events t)"
proof -
  let ?ms = "boot @ accept_job @ work 14 good"
  obtain t where t: "performs ?ms fresh_install = Some t" "job_status (db t) ''j'' = Some COMPLETED" "life t = Up" "procs t ''j'' = None"
    using usual_run by blast
  have start: "reachable fresh_install" "life fresh_install = Down" "\<not> ended (job_status (db fresh_install) ''j'')"
    using reachable.start [OF initial_fresh_install]
    by (simp_all add: fresh_install_def ended_def job_status_def view_def find_row_def)
  have "\<forall>c. MCancel c \<notin> set ?ms" by (simp add: boot_def accept_job_def work_def)
  from performs_uncancelled_run [OF t(1) start(1) this]
  have run: "uncancelled_run ''j'' fresh_install (states_of ?ms fresh_install)"
    and last: "t = last (fresh_install # states_of ?ms fresh_install)" by blast+
  from ends_are_reported [OF start run usual_run_stays_up last t(3,4)] t(2) last show ?thesis by blast
qed

text \<open>
  An end that is not reported. The agent stops between storing COMPLETED and sending the event. The
  next process recovers, connects and has nothing to send: the document lies in the printer, and
  the hub, unless it repeats the dispatch, sees a job that is printing for ever.
\<close>

theorem lost_end_not_reported:
  "\<exists>s. reachable s \<and> life s = Up \<and> ws_connected s \<and> current s = None \<and> procs s ''j'' = None \<and>
     job_status (db s) ''j'' = Some COMPLETED \<and> prints_of s ''j'' = [True] \<and>
     all_events s = {#PrintJobReceived ''t'' ''j'', PrintJobStarted ''t'' ''j''#}"
proof -
  obtain s where run: "performs (boot @ accept_job @ work 12 good @ MCrash # boot) fresh_install = Some s"
    and s: "life s = Up" "ws_connected s" "current s = None" "procs s ''j'' = None" "prints_of s ''j'' = [True]"
      "job_status (db s) ''j'' = Some COMPLETED" "flushing s = []" "ws_durable_queue s = []"
      "ws_sent s = [PrintJobReceived ''t'' ''j'', PrintJobStarted ''t'' ''j'']"
    using lost_end_run by blast
  then show ?thesis
    by (intro exI [of _ s]) (simp add: reachable_run all_events_def wsq.events_def add_mset_commute)
qed

end
