(* ===== verification/Credentials.thy ===== *)
theory Credentials
  imports Protocol Url
begin

text \<open>
  The agent's identity on disk: \<^verbatim>\<open>eres_print_agent/config.py\<close>, \<^verbatim>\<open>credentials.py\<close> and \<^verbatim>\<open>core/pairing.py\<close>. The
  configuration is a JSON file whose values are not checked, so its fields are JSON values. The
  secret can be in three places: a blob that Windows DPAPI protects, the operating system's
  keyring, or a plain file; the third-party stores are arguments, the UTF-8 coding of the DPAPI
  blob's content included. Pairing ties the two together.
\<close>

section \<open>Configuration\<close>

record AgentConfig =
  cfg_agentId :: json
  cfg_hubUrl :: json
  cfg_logLevel :: json
  cfg_allowedDocumentHost :: json

definition default_config :: AgentConfig where
  "default_config = \<lparr>cfg_agentId = JNull, cfg_hubUrl = JNull, cfg_logLevel = JStr ''INFO'',
     cfg_allowedDocumentHost = JNull\<rparr>"

fun json_truthy :: "json \<Rightarrow> bool" where
  "json_truthy JNull \<longleftrightarrow> False"
| "json_truthy (JBool b) \<longleftrightarrow> b"
| "json_truthy (JInt i) \<longleftrightarrow> i \<noteq> 0"
| "json_truthy (JFloat q) \<longleftrightarrow> q \<noteq> 0"
| "json_truthy (JStr s) \<longleftrightarrow> s \<noteq> []"
| "json_truthy (JList vs) \<longleftrightarrow> vs \<noteq> []"
| "json_truthy (JObj kvs) \<longleftrightarrow> kvs \<noteq> []"

definition is_paired :: "AgentConfig \<Rightarrow> bool" where
  "is_paired c \<longleftrightarrow> json_truthy (cfg_agentId c) \<and> json_truthy (cfg_hubUrl c)"

datatype disk_file = Missing | Unreadable | NotUtf8 | Text string

definition field_or :: "json \<Rightarrow> json \<Rightarrow> string \<Rightarrow> json" where
  "field_or d obj k = (case json_get obj k of None \<Rightarrow> d | Some v \<Rightarrow> v)"

definition load_config :: "(string \<Rightarrow> loads_outcome) \<Rightarrow> disk_file \<Rightarrow> AgentConfig result" where
  "load_config loads f =
     (case f of
        Missing \<Rightarrow> Inr default_config
      | Unreadable \<Rightarrow> Inr default_config
      | NotUtf8 \<Rightarrow> Inl UnicodeError
      | Text s \<Rightarrow> (case loads s of
          NotJson \<Rightarrow> Inr default_config
        | LoadsRaises e \<Rightarrow> Inl e
        | Loaded data \<Rightarrow>
            if \<not> is_dict data then Inl AttributeError
            else Inr \<lparr>cfg_agentId = field_or JNull data ''agentId'', cfg_hubUrl = field_or JNull data ''hubUrl'',
                      cfg_logLevel = field_or (JStr ''INFO'') data ''logLevel'',
                      cfg_allowedDocumentHost = field_or JNull data ''allowedDocumentHost''\<rparr>))"

definition config_json :: "AgentConfig \<Rightarrow> json" where
  "config_json c = JObj [(''agentId'', cfg_agentId c), (''hubUrl'', cfg_hubUrl c), (''logLevel'', cfg_logLevel c),
     (''allowedDocumentHost'', cfg_allowedDocumentHost c)]"

definition save_config :: "(json \<Rightarrow> string) \<Rightarrow> AgentConfig \<Rightarrow> disk_file" where
  "save_config dumps c = Text (dumps (config_json c))"

section \<open>Files\<close>

text \<open>Where the agent keeps its files. A path is its parts with the separator of the platform between them;
  \<^term>\<open>program_data\<close> is the environment variable and \<^term>\<open>home\<close> the home directory.\<close>

datatype platform = Win32 | Darwin | OtherPlatform

definition path_separator :: "platform \<Rightarrow> string" where
  "path_separator pf = (if pf = Win32 then [CHR 0x5C] else ''/'')"

definition path_of :: "platform \<Rightarrow> string list \<Rightarrow> string" where
  "path_of pf = py_join (path_separator pf)"

definition config_dir :: "platform \<Rightarrow> string option \<Rightarrow> string \<Rightarrow> string" where
  "config_dir pf program_data home =
     (if pf = Win32
      then path_of pf [case program_data of None \<Rightarrow> path_of pf [''C:'', ''ProgramData''] | Some d \<Rightarrow> d, ''ERES'', ''PrintAgent'']
      else path_of pf [home, ''.eres-print-agent''])"

text \<open>The files in that directory; the temporary status file is the status file with another suffix.\<close>

definition CONFIG_PATH :: "platform \<Rightarrow> string \<Rightarrow> string" where "CONFIG_PATH pf dir = path_of pf [dir, ''config.json'']"
definition LOG_DIR :: "platform \<Rightarrow> string \<Rightarrow> string" where "LOG_DIR pf dir = path_of pf [dir, ''logs'']"
definition DB_PATH :: "platform \<Rightarrow> string \<Rightarrow> string" where "DB_PATH pf dir = path_of pf [dir, ''queue.sqlite3'']"
definition STATUS_PATH :: "platform \<Rightarrow> string \<Rightarrow> string" where "STATUS_PATH pf dir = path_of pf [dir, ''status.json'']"
definition STATUS_TMP_PATH :: "platform \<Rightarrow> string \<Rightarrow> string" where "STATUS_TMP_PATH pf dir = path_of pf [dir, ''status.json.tmp'']"
definition FALLBACK_PATH :: "platform \<Rightarrow> string \<Rightarrow> string" where "FALLBACK_PATH pf dir = path_of pf [dir, ''credential.fallback'']"
definition WINDOWS_SECRET_PATH :: "platform \<Rightarrow> string \<Rightarrow> string" where "WINDOWS_SECRET_PATH pf dir = path_of pf [dir, ''credential.dpapi'']"
definition DOWNLOADS_DIR :: "platform \<Rightarrow> string \<Rightarrow> string" where "DOWNLOADS_DIR pf dir = path_of pf [dir, ''downloads'']"

text \<open>They are different files whatever the directory, which the models of the single files rely on: writing
  one leaves the others as they are.\<close>

lemma files_apart:
  "distinct (map (\<lambda>p. p pf dir) [CONFIG_PATH, LOG_DIR, DB_PATH, STATUS_PATH, STATUS_TMP_PATH, FALLBACK_PATH,
     WINDOWS_SECRET_PATH, DOWNLOADS_DIR])"
  by (simp add: path_of_def CONFIG_PATH_def LOG_DIR_def DB_PATH_def STATUS_PATH_def STATUS_TMP_PATH_def FALLBACK_PATH_def
      WINDOWS_SECRET_PATH_def DOWNLOADS_DIR_def)

section \<open>The secret\<close>

record cred_env =
  ce_platform :: platform
  ce_crypt :: bool \<comment> \<open>\<^verbatim>\<open>win32crypt\<close> can be imported\<close>
  ce_protect :: "string \<Rightarrow> string result"
  ce_unprotect :: "string \<Rightarrow> string result"
  ce_keyring :: bool \<comment> \<open>\<^verbatim>\<open>keyring\<close> can be imported\<close>
  ce_keyring_works :: bool \<comment> \<open>its operations do not raise \<^verbatim>\<open>KeyringError\<close>\<close>

record cred_store =
  cs_dpapi :: "string option"
  cs_keyring :: "string \<rightharpoonup> string"
  cs_fallback :: "string option"

definition newline :: char where "newline = char_of (10 :: nat)"

definition has_win32crypt :: "cred_env \<Rightarrow> bool" where
  "has_win32crypt env \<longleftrightarrow> ce_platform env = Win32 \<and> ce_crypt env"

definition save_windows_secret :: "cred_env \<Rightarrow> string \<Rightarrow> string \<Rightarrow> cred_store \<Rightarrow> cred_store option" where
  "save_windows_secret env agent_id secret st =
     (if \<not> has_win32crypt env then None
      else case ce_protect env (agent_id @ newline # secret) of
             Inl _ \<Rightarrow> None
           | Inr blob \<Rightarrow> Some (st\<lparr>cs_dpapi := Some blob\<rparr>))"

definition load_windows_secret :: "cred_env \<Rightarrow> string \<Rightarrow> cred_store \<Rightarrow> string option" where
  "load_windows_secret env agent_id st =
     (if \<not> has_win32crypt env then None
      else case cs_dpapi st of
             None \<Rightarrow> None
           | Some blob \<Rightarrow> (case ce_unprotect env blob of
               Inl _ \<Rightarrow> None
             | Inr data \<Rightarrow>
                 (case partition_at newline data of
                    (stored_id, _, secret) \<Rightarrow>
                      if stored_id \<noteq> agent_id \<or> secret = [] then None else Some (py_strip secret))))"

definition save_agent_secret :: "cred_env \<Rightarrow> string \<Rightarrow> string \<Rightarrow> cred_store \<Rightarrow> cred_store" where
  "save_agent_secret env agent_id secret st =
     (case save_windows_secret env agent_id secret st of
        Some st' \<Rightarrow> st'
      | None \<Rightarrow>
          if ce_platform env \<noteq> Darwin \<and> ce_keyring env \<and> ce_keyring_works env
          then st\<lparr>cs_keyring := (cs_keyring st)(agent_id \<mapsto> secret)\<rparr>
          else st\<lparr>cs_fallback := Some (agent_id @ newline # secret @ [newline])\<rparr>)"

definition fallback_secret :: "string \<Rightarrow> cred_store \<Rightarrow> string option" where
  "fallback_secret agent_id st =
     (case cs_fallback st of
        None \<Rightarrow> None
      | Some t \<Rightarrow> (case py_splitlines t of
          l0 # l1 # _ \<Rightarrow> if l0 = agent_id then Some l1 else None
        | _ \<Rightarrow> None))"

definition keyring_secret :: "cred_env \<Rightarrow> string \<Rightarrow> cred_store \<Rightarrow> string option" where
  "keyring_secret env agent_id st =
     (if ce_keyring env \<and> ce_keyring_works env
      then (case cs_keyring st agent_id of Some s \<Rightarrow> if s = [] then None else Some s | None \<Rightarrow> None) else None)"

definition load_agent_secret :: "cred_env \<Rightarrow> string \<Rightarrow> cred_store \<Rightarrow> string option" where
  "load_agent_secret env agent_id st =
     (if py_truthy (load_windows_secret env agent_id st) then load_windows_secret env agent_id st
      else case fallback_secret agent_id st of
             Some s \<Rightarrow> Some s
           | None \<Rightarrow> (case keyring_secret env agent_id st of
               Some s \<Rightarrow> Some s
             | None \<Rightarrow> fallback_secret agent_id st))"

text \<open>Each of the three removals may fail; the failure is swallowed.\<close>

record removals =
  rm_dpapi :: bool
  rm_keyring :: bool
  rm_fallback :: bool

definition delete_agent_secret :: "cred_env \<Rightarrow> removals \<Rightarrow> string \<Rightarrow> cred_store \<Rightarrow> cred_store" where
  "delete_agent_secret env rm agent_id st =
     \<lparr>cs_dpapi = (if rm_dpapi rm then None else cs_dpapi st),
      cs_keyring = (if ce_keyring env \<and> rm_keyring rm then (cs_keyring st)(agent_id := None) else cs_keyring st),
      cs_fallback = (if rm_fallback rm then None else cs_fallback st)\<rparr>"

section \<open>Pairing\<close>

record PairingResult =
  pr_success :: bool
  pr_agent_id :: "string option"
  pr_error :: "json option"

text \<open>What the HTTP request ends with: the text of an \<^verbatim>\<open>HTTPError\<close>, or a response with its status, its
  content type and what \<^verbatim>\<open>response.json()\<close> does.\<close>

datatype http_reply = HttpFails string | HttpReply int string loads_outcome

text \<open>\<^verbatim>\<open>d[k]\<close> on the object that carries the credential. The web application answers with texts; a
  member of another type is outside the model, which answers \<^verbatim>\<open>TypeError\<close> there, and the theorems
  on pairing assume texts.\<close>

definition need_str :: "json \<Rightarrow> string \<Rightarrow> string result" where
  "need_str d k =
     (if \<not> is_dict d then Inl (TypeError k)
      else case json_get d k of
             None \<Rightarrow> Inl (KeyError k)
           | Some (JStr s) \<Rightarrow> Inr s
           | Some _ \<Rightarrow> Inl (TypeError k))"

definition reply_body :: "string \<Rightarrow> loads_outcome \<Rightarrow> json result" where
  "reply_body ctype body =
     (if \<not> starts_with ''application/json'' ctype then Inr (JObj [])
      else case body of Loaded v \<Rightarrow> Inr v | NotJson \<Rightarrow> Inl (ValueError ''json'') | LoadsRaises e \<Rightarrow> Inl e)"

definition pairing_error :: "int \<Rightarrow> json \<Rightarrow> json" where
  "pairing_error status body =
     (if json_truthy (field_or JNull body ''error'') then field_or JNull body ''error''
      else JStr (''Pairing failed (HTTP '' @ int_digits status @ '')''))"

definition strip_slashes :: "string \<Rightarrow> string" where
  "strip_slashes u = rev (dropWhile (\<lambda>c. c = CHR ''/'') (rev u))"

text \<open>The request: where it goes and what it holds.\<close>

definition local_hostname :: "string result \<Rightarrow> string" where
  "local_hostname r = (case r of Inl _ \<Rightarrow> ''unknown-host'' | Inr h \<Rightarrow> h)"

definition pairing_url :: "string \<Rightarrow> string" where
  "pairing_url web_url = strip_slashes web_url @ ''/api/print-agent/pair''"

definition pairing_payload :: "string \<Rightarrow> string result \<Rightarrow> string \<Rightarrow> string \<Rightarrow> json" where
  "pairing_payload code host os version =
     JObj [(''code'', JStr (py_strip code)), (''hostname'', JStr (local_hostname host)), (''os'', JStr os),
           (''agentVersion'', JStr version)]"

record pairing_world =
  pw_secrets :: cred_store
  pw_config :: disk_file

text \<open>The credential is saved before the origin is parsed and the configuration written.\<close>

definition finish_pairing ::
  "cred_env \<Rightarrow> (json \<Rightarrow> string) \<Rightarrow> (string \<Rightarrow> bool) \<Rightarrow> string \<Rightarrow> json \<Rightarrow> pairing_world \<Rightarrow>
     pairing_world \<times> PairingResult result" where
  "finish_pairing env dumps bracket_ok web_url body w =
     (case json_get body ''data'' of
        None \<Rightarrow> (w, Inl (KeyError ''data''))
      | Some data \<Rightarrow>
         (case (need_str data ''agentId'', need_str data ''agentSecret'', need_str data ''hubUrl'') of
            (Inr agent_id, Inr secret, Inr hub_url) \<Rightarrow>
              (case (case json_get data ''webUrl'' of None \<Rightarrow> Inr web_url | Some (JStr s) \<Rightarrow> Inr s
                     | Some _ \<Rightarrow> Inl (TypeError ''webUrl'')) of
                 Inl e \<Rightarrow> (w\<lparr>pw_secrets := save_agent_secret env agent_id secret (pw_secrets w)\<rparr>, Inl e)
               | Inr origin \<Rightarrow>
                   let w' = w\<lparr>pw_secrets := save_agent_secret env agent_id secret (pw_secrets w)\<rparr>
                   in (case urlparse bracket_ok origin of
                         Inl e \<Rightarrow> (w', Inl e)
                       | Inr p \<Rightarrow>
                           (w'\<lparr>pw_config := save_config dumps \<lparr>cfg_agentId = JStr agent_id, cfg_hubUrl = JStr hub_url,
                                 cfg_logLevel = JStr ''INFO'',
                                 cfg_allowedDocumentHost = (case hostname p of None \<Rightarrow> JNull | Some h \<Rightarrow> JStr h)\<rparr>\<rparr>,
                            Inr \<lparr>pr_success = True, pr_agent_id = Some agent_id, pr_error = None\<rparr>)))
          | (Inl e, _, _) \<Rightarrow> (w, Inl e)
          | (_, Inl e, _) \<Rightarrow> (w, Inl e)
          | (_, _, Inl e) \<Rightarrow> (w, Inl e)))"

definition pair ::
  "cred_env \<Rightarrow> (json \<Rightarrow> string) \<Rightarrow> (string \<Rightarrow> bool) \<Rightarrow> string \<Rightarrow> http_reply \<Rightarrow> pairing_world \<Rightarrow>
     pairing_world \<times> PairingResult result" where
  "pair env dumps bracket_ok url reply w =
     (let web_url = strip_slashes url
      in case reply of
           HttpFails text \<Rightarrow>
             (w, Inr \<lparr>pr_success = False, pr_agent_id = None,
                      pr_error = Some (JStr (''Could not reach '' @ web_url @ '': '' @ text))\<rparr>)
         | HttpReply status ctype raw \<Rightarrow>
             (case reply_body ctype raw of
                Inl e \<Rightarrow> (w, Inl e)
              | Inr body \<Rightarrow>
                  if status \<noteq> 200
                  then if \<not> is_dict body then (w, Inl AttributeError)
                       else (w, Inr \<lparr>pr_success = False, pr_agent_id = None, pr_error = Some (pairing_error status body)\<rparr>)
                  else if \<not> is_dict body then (w, Inl AttributeError)
                  else if \<not> json_truthy (field_or JNull body ''success'')
                  then (w, Inr \<lparr>pr_success = False, pr_agent_id = None, pr_error = Some (pairing_error status body)\<rparr>)
                  else finish_pairing env dumps bracket_ok web_url body w))"

section \<open>Lemmas\<close>

definition plain_line :: "string \<Rightarrow> bool" where
  "plain_line s \<longleftrightarrow> list_all (\<lambda>c. \<not> is_linebreak c) s"

lemma newline_break: "is_linebreak newline"
  by (simp add: newline_def is_linebreak_def)

lemma plain_line_newline: "plain_line s \<Longrightarrow> newline \<notin> set s"
  using newline_break by (auto simp: plain_line_def list_all_iff)

lemma fallback_saved:
  assumes "plain_line agent_id" and "plain_line secret"
  shows "fallback_secret agent_id (st\<lparr>cs_fallback := Some (agent_id @ newline # secret @ [newline])\<rparr>) = Some secret"
proof -
  have "py_splitlines (agent_id @ newline # secret @ [newline]) = agent_id # secret # py_splitlines []"
    using assms py_splitlines_nl [of agent_id "secret @ [newline]"] py_splitlines_nl [of secret "[]"]
    by (simp add: plain_line_def newline_def)
  then show ?thesis by (simp add: fallback_secret_def)
qed

lemma windows_saved:
  assumes "save_windows_secret env agent_id secret st = Some st'"
    and "\<And>x y. ce_protect env x = Inr y \<Longrightarrow> ce_unprotect env y = Inr x"
    and "plain_line agent_id" and "secret \<noteq> []"
  shows "load_windows_secret env agent_id st' = Some (py_strip secret)"
proof -
  obtain blob where "has_win32crypt env" "ce_protect env (agent_id @ newline # secret) = Inr blob"
    "st' = st\<lparr>cs_dpapi := Some blob\<rparr>"
    using assms(1) by (auto simp: save_windows_secret_def split: if_splits sum.splits)
  with assms(2-4) partition_at_found [OF plain_line_newline [OF assms(3)], of secret] show ?thesis
    by (simp add: load_windows_secret_def)
qed

lemma config_read_back:
  assumes "loads (dumps (config_json c)) = Loaded (config_json c)"
  shows "load_config loads (save_config dumps c) = Inr c"
  using assms by (cases c) (simp add: load_config_def save_config_def config_json_def field_or_def)

lemma secret_saved:
  assumes "load_agent_secret env agent_id st = None"
    and "\<And>x y. ce_protect env x = Inr y \<Longrightarrow> ce_unprotect env y = Inr x"
    and "plain_line agent_id" and "plain_line secret" and "secret \<noteq> []" and "py_strip secret = secret"
  shows "load_agent_secret env agent_id (save_agent_secret env agent_id secret st) = Some secret"
proof (cases "save_windows_secret env agent_id secret st")
  case (Some st')
  then show ?thesis
    using windows_saved [OF Some assms(2,3,5)] assms(5,6)
    by (simp add: save_agent_secret_def load_agent_secret_def py_truthy_def)
next
  case None
  have old: "\<not> py_truthy (load_windows_secret env agent_id st)" "fallback_secret agent_id st = None"
    using assms(1) by (auto simp: load_agent_secret_def py_truthy_def split: if_splits option.splits)
  have same: "load_windows_secret env agent_id (st\<lparr>cs_keyring := k\<rparr>) = load_windows_secret env agent_id st"
    "load_windows_secret env agent_id (st\<lparr>cs_fallback := f\<rparr>) = load_windows_secret env agent_id st"
    "fallback_secret agent_id (st\<lparr>cs_keyring := k\<rparr>) = fallback_secret agent_id st" for k f
    by (simp_all add: load_windows_secret_def fallback_secret_def)
  show ?thesis
    using None old assms(5) fallback_saved [OF assms(3,4)]
    by (simp add: save_agent_secret_def load_agent_secret_def same keyring_secret_def)
qed

section \<open>Properties\<close>

text \<open>
  The configuration round-trips: what \<^verbatim>\<open>save_config\<close> writes, \<^verbatim>\<open>load_config\<close> reads back unchanged, for
  every JSON reader that undoes the writer on it.
\<close>

theorem config_roundtrip:
  assumes "loads (dumps (config_json c)) = Loaded (config_json c)"
  shows "load_config loads (save_config dumps c) = Inr c"
  using assms by (rule config_read_back)

theorem config_roundtrip_witness:
  "load_config (\<lambda>_. Loaded (config_json default_config)) (save_config (\<lambda>_. ''x'') default_config) = Inr default_config"
  by (rule config_roundtrip) simp

text \<open>
  C25: The secret round-trips. For an agent id that no store knows yet, and a secret of one line
  without surrounding blanks, saving and then loading gives the secret back, on every platform and
  whichever of the three stores had to take it, provided DPAPI undoes itself.
\<close>

theorem secret_roundtrip:
  assumes "load_agent_secret env agent_id st = None"
    and "\<And>x y. ce_protect env x = Inr y \<Longrightarrow> ce_unprotect env y = Inr x"
    and "plain_line agent_id" and "plain_line secret" and "secret \<noteq> []" and "py_strip secret = secret"
  shows "load_agent_secret env agent_id (save_agent_secret env agent_id secret st) = Some secret"
  using assms by (rule secret_saved)

definition linux_env :: cred_env where
  "linux_env = \<lparr>ce_platform = OtherPlatform, ce_crypt = False, ce_protect = (\<lambda>_. Inl (OSError [])),
     ce_unprotect = (\<lambda>_. Inl (OSError [])), ce_keyring = True, ce_keyring_works = True\<rparr>"

definition no_secrets :: cred_store where
  "no_secrets = \<lparr>cs_dpapi = None, cs_keyring = Map.empty, cs_fallback = None\<rparr>"

theorem secret_roundtrip_witness:
  "load_agent_secret linux_env ''a'' (save_agent_secret linux_env ''a'' ''s'' no_secrets) = Some ''s''"
proof (rule secret_roundtrip)
  show "load_agent_secret linux_env ''a'' no_secrets = None" by code_simp
  show "plain_line ''a''" "plain_line ''s''" "py_strip ''s'' = ''s''" by code_simp+
qed (simp_all add: linux_env_def)

text \<open>
  When the removals succeed, deleting is complete: no store gives the secret back, whatever was
  stored before.
\<close>

lemma delete_forgets:
  "load_agent_secret env agent_id
     (delete_agent_secret env \<lparr>rm_dpapi = True, rm_keyring = True, rm_fallback = True\<rparr> agent_id st) = None"
  by (simp add: load_agent_secret_def delete_agent_secret_def load_windows_secret_def fallback_secret_def
      keyring_secret_def py_truthy_def)

text \<open>
  A stale fallback file hides a new secret. When the keyring was once unavailable and works
  again, saving a new secret for the same agent id goes to the keyring, but loading still answers
  the old one from the file.
\<close>

theorem stale_fallback_wins:
  "load_agent_secret linux_env ''a'' (save_agent_secret linux_env ''a'' ''new''
     (save_agent_secret (linux_env\<lparr>ce_keyring_works := False\<rparr>) ''a'' ''old'' no_secrets)) = Some ''old''"
  by code_simp

text \<open>
  Pairing makes the agent startable. When the web application accepts the code and answers with
  the agent id, the secret and the hub's address, and the origin parses, \<^verbatim>\<open>pair\<close> reports success; the
  configuration on disk then reads back as a paired one that names this agent and hub and pins
  documents to the host of the origin, and the secret of that agent id loads from the stores,
  whichever of them took it.
\<close>

lemma pair_enables_start:
  assumes reply: "reply = HttpReply 200 ctype (Loaded body)" "starts_with ''application/json'' ctype"
      "is_dict body" "json_truthy (field_or JNull body ''success'')" "json_get body ''data'' = Some data"
    and members: "is_dict data" "json_get data ''agentId'' = Some (JStr agent_id)"
      "json_get data ''agentSecret'' = Some (JStr secret)" "json_get data ''hubUrl'' = Some (JStr hub_url)"
      "field_or (JStr (strip_slashes url)) data ''webUrl'' = JStr origin"
    and origin: "urlparse bracket_ok origin = Inr p"
    and c: "c = \<lparr>cfg_agentId = JStr agent_id, cfg_hubUrl = JStr hub_url, cfg_logLevel = JStr ''INFO'',
      cfg_allowedDocumentHost = (case hostname p of None \<Rightarrow> JNull | Some h \<Rightarrow> JStr h)\<rparr>"
      "loads (dumps (config_json c)) = Loaded (config_json c)"
    and stores: "load_agent_secret env agent_id (pw_secrets w) = None"
      "\<And>x y. ce_protect env x = Inr y \<Longrightarrow> ce_unprotect env y = Inr x"
    and texts: "plain_line agent_id" "agent_id \<noteq> []" "hub_url \<noteq> []"
      "plain_line secret" "secret \<noteq> []" "py_strip secret = secret"
  shows "\<exists>w'. pair env dumps bracket_ok url reply w =
             (w', Inr \<lparr>pr_success = True, pr_agent_id = Some agent_id, pr_error = None\<rparr>) \<and>
           load_config loads (pw_config w') = Inr c \<and> is_paired c \<and>
           load_agent_secret env agent_id (pw_secrets w') = Some secret"
proof -
  have "pair env dumps bracket_ok url reply w =
      (w\<lparr>pw_secrets := save_agent_secret env agent_id secret (pw_secrets w), pw_config := save_config dumps c\<rparr>,
       Inr \<lparr>pr_success = True, pr_agent_id = Some agent_id, pr_error = None\<rparr>)"
    using reply members origin c(1)
    by (auto simp: pair_def reply_body_def finish_pairing_def need_str_def field_or_def Let_def split: option.splits)
  moreover have "is_paired c" using c(1) texts(2,3) by (simp add: is_paired_def)
  ultimately show ?thesis
    using config_read_back [of loads dumps c, OF c(2)] secret_saved [OF stores texts(1,4,5,6)] by simp
qed

definition sample_data :: json where
  "sample_data = JObj [(''agentId'', JStr ''a''), (''agentSecret'', JStr ''s''), (''hubUrl'', JStr ''wss://h'')]"

definition sample_paired :: AgentConfig where
  "sample_paired = \<lparr>cfg_agentId = JStr ''a'', cfg_hubUrl = JStr ''wss://h'', cfg_logLevel = JStr ''INFO'',
     cfg_allowedDocumentHost = JStr ''x.y''\<rparr>"

text \<open>An attempt that reports failure has changed neither the stores nor the configuration.\<close>

lemma pair_failure_keeps:
  assumes "pair env dumps bracket_ok url reply w = (w', Inr r)" and "\<not> pr_success r"
  shows "w' = w"
  using assms
  by (auto simp: pair_def finish_pairing_def Let_def
      split: http_reply.splits sum.splits if_splits option.splits json.splits)

end
