(* ===== verification/Secret_Files.thy ===== *)
theory Secret_Files
  imports Credentials
begin

text \<open>
  The secret as files with owners: \<^verbatim>\<open>eres_print_agent/credentials.py\<close> once more, each operation on the disk
  and on the keyring in the order in which the code makes them, with who can open the file at each
  moment. \<^verbatim>\<open>Credentials\<close> is the abstraction that forgets the protection.
\<close>

section \<open>Protected files\<close>

text \<open>Permission bits, or the accounts that an access control list lets in.\<close>

datatype protection = Mode nat | Acl "string list"

definition LOCAL_SYSTEM_SID :: string where "LOCAL_SYSTEM_SID = ''*S-1-5-18''"
definition ADMINISTRATORS_SID :: string where "ADMINISTRATORS_SID = ''*S-1-5-32-544''"

text \<open>The last two octal digits are the rights of the group and of everybody.\<close>

fun owner_only :: "protection \<Rightarrow> bool" where
  "owner_only (Mode m) \<longleftrightarrow> m mod 64 = 0"
| "owner_only (Acl sids) \<longleftrightarrow> set sids \<subseteq> {LOCAL_SYSTEM_SID, ADMINISTRATORS_SID}"

record secret_disk =
  sd_dir :: bool \<comment> \<open>the configuration directory exists\<close>
  sd_files :: "string \<rightharpoonup> string \<times> protection"
  sd_keys :: "string \<rightharpoonup> string"

text \<open>A new file gets the protection \<^term>\<open>fe_new\<close>. \<^term>\<open>fe_icacls\<close> is the program \<^verbatim>\<open>icacls\<close>: what it makes of the file's
  protection, or the error that \<^verbatim>\<open>subprocess.run\<close> raises.\<close>

record file_env =
  fe_new :: protection
  fe_icacls :: "string list \<Rightarrow> protection \<Rightarrow> protection result"
  fe_chmod_works :: bool

datatype secret_op =
    MakeDir
  | WriteFile string string
  | Restrict string "string list"
  | Chmod string nat
  | SetPassword string string

text \<open>A file that is written again keeps its protection. On Windows \<^verbatim>\<open>os.chmod\<close> only sets the read-only flag.\<close>

fun secret_op_exec :: "file_env \<Rightarrow> secret_op \<Rightarrow> secret_disk \<Rightarrow> secret_disk" where
  "secret_op_exec fe MakeDir d = d\<lparr>sd_dir := True\<rparr>"
| "secret_op_exec fe (WriteFile p t) d =
     d\<lparr>sd_files := (sd_files d)(p \<mapsto> (t, case sd_files d p of None \<Rightarrow> fe_new fe | Some (_, pr) \<Rightarrow> pr))\<rparr>"
| "secret_op_exec fe (Restrict p args) d =
     (case sd_files d p of
        None \<Rightarrow> d
      | Some (t, pr) \<Rightarrow> (case fe_icacls fe args pr of
          Inl _ \<Rightarrow> d
        | Inr pr' \<Rightarrow> d\<lparr>sd_files := (sd_files d)(p \<mapsto> (t, pr'))\<rparr>))"
| "secret_op_exec fe (Chmod p m) d =
     (case sd_files d p of
        Some (t, Mode _) \<Rightarrow> if fe_chmod_works fe then d\<lparr>sd_files := (sd_files d)(p \<mapsto> (t, Mode m))\<rparr> else d
      | _ \<Rightarrow> d)"
| "secret_op_exec fe (SetPassword a s) d = d\<lparr>sd_keys := (sd_keys d)(a \<mapsto> s)\<rparr>"

definition run_ops :: "file_env \<Rightarrow> secret_op list \<Rightarrow> secret_disk \<Rightarrow> secret_disk" where
  "run_ops fe ops d = fold (secret_op_exec fe) ops d"

section \<open>Saving\<close>

definition S_IRUSR_S_IWUSR :: nat where "S_IRUSR_S_IWUSR = 384"

definition icacls_args :: "string \<Rightarrow> string list" where
  "icacls_args path = [''icacls'', path, ''/inheritance:r'', ''/grant:r'', LOCAL_SYSTEM_SID @ '':F'', ADMINISTRATORS_SID @ '':F'']"

definition restrict_to_system_and_admins :: "string \<Rightarrow> secret_op" where
  "restrict_to_system_and_admins path = Restrict path (icacls_args path)"

definition save_windows_ops :: "cred_env \<Rightarrow> string \<Rightarrow> string \<Rightarrow> string \<Rightarrow> secret_op list option" where
  "save_windows_ops env dir agent_id secret =
     (if \<not> has_win32crypt env then None
      else case ce_protect env (agent_id @ newline # secret) of
             Inl _ \<Rightarrow> None
           | Inr blob \<Rightarrow>
               let path = WINDOWS_SECRET_PATH (ce_platform env) dir
               in Some [MakeDir, WriteFile path blob, restrict_to_system_and_admins path])"

definition save_ops :: "cred_env \<Rightarrow> string \<Rightarrow> string \<Rightarrow> string \<Rightarrow> secret_op list" where
  "save_ops env dir agent_id secret =
     (case save_windows_ops env dir agent_id secret of
        Some ops \<Rightarrow> ops
      | None \<Rightarrow>
          if ce_platform env \<noteq> Darwin \<and> ce_keyring env \<and> ce_keyring_works env
          then [SetPassword agent_id secret]
          else let path = FALLBACK_PATH (ce_platform env) dir
               in [MakeDir, WriteFile path (agent_id @ newline # secret @ [newline]), Chmod path S_IRUSR_S_IWUSR])"

section \<open>What the abstraction sees\<close>

definition store_of :: "platform \<Rightarrow> string \<Rightarrow> secret_disk \<Rightarrow> cred_store" where
  "store_of pf dir d =
     \<lparr>cs_dpapi = map_option fst (sd_files d (WINDOWS_SECRET_PATH pf dir)), cs_keyring = sd_keys d,
      cs_fallback = map_option fst (sd_files d (FALLBACK_PATH pf dir))\<rparr>"

text \<open>Somebody else can read a file that holds the secret.\<close>

definition exposed_at :: "secret_disk \<Rightarrow> string \<Rightarrow> bool" where
  "exposed_at d p \<longleftrightarrow> (case sd_files d p of None \<Rightarrow> False | Some (_, pr) \<Rightarrow> \<not> owner_only pr)"

definition exposed :: "platform \<Rightarrow> string \<Rightarrow> secret_disk \<Rightarrow> bool" where
  "exposed pf dir d \<longleftrightarrow> exposed_at d (WINDOWS_SECRET_PATH pf dir) \<or> exposed_at d (FALLBACK_PATH pf dir)"

text \<open>The documented effect of these arguments of \<^verbatim>\<open>icacls\<close>: no inherited entry, and the two accounts only.\<close>

definition restricting_works :: "file_env \<Rightarrow> bool" where
  "restricting_works fe \<longleftrightarrow> fe_chmod_works fe \<and>
     (\<forall>path pr. fe_icacls fe (icacls_args path) pr = Inr (Acl [LOCAL_SYSTEM_SID, ADMINISTRATORS_SID]))"

lemma secret_paths_apart: "WINDOWS_SECRET_PATH pf dir \<noteq> FALLBACK_PATH pf dir"
  using files_apart [of pf dir] by auto

lemma owner_only_restricted: "owner_only (Acl [LOCAL_SYSTEM_SID, ADMINISTRATORS_SID])" "owner_only (Mode S_IRUSR_S_IWUSR)"
  by (simp_all add: S_IRUSR_S_IWUSR_def)

lemma run_ops_simps [simp]:
  "run_ops fe [] d = d" "run_ops fe (op # ops) d = run_ops fe ops (secret_op_exec fe op d)"
  by (simp_all add: run_ops_def)

text \<open>The three shapes of a save.\<close>

lemma save_ops_cases:
  obtains (dpapi) blob where "save_windows_ops env dir a s = Some (save_ops env dir a s)"
      "ce_protect env (a @ newline # s) = Inr blob" "has_win32crypt env"
      "save_ops env dir a s = [MakeDir, WriteFile (WINDOWS_SECRET_PATH (ce_platform env) dir) blob,
         restrict_to_system_and_admins (WINDOWS_SECRET_PATH (ce_platform env) dir)]"
  | (keyring) "save_windows_ops env dir a s = None" "ce_platform env \<noteq> Darwin \<and> ce_keyring env \<and> ce_keyring_works env"
      "save_ops env dir a s = [SetPassword a s]"
  | (fallback) "save_windows_ops env dir a s = None" "\<not> (ce_platform env \<noteq> Darwin \<and> ce_keyring env \<and> ce_keyring_works env)"
      "save_ops env dir a s = [MakeDir, WriteFile (FALLBACK_PATH (ce_platform env) dir) (a @ newline # s @ [newline]),
         Chmod (FALLBACK_PATH (ce_platform env) dir) S_IRUSR_S_IWUSR]"
proof (cases "save_windows_ops env dir a s")
  case None
  then show thesis
  proof (cases "ce_platform env \<noteq> Darwin \<and> ce_keyring env \<and> ce_keyring_works env")
    case True
    with None show thesis by (intro keyring) (auto simp: save_ops_def)
  next
    case False
    then show thesis by (intro fallback [OF None False]) (auto simp: save_ops_def None Let_def)
  qed
next
  case (Some ops)
  then show thesis
    using dpapi by (auto simp: save_ops_def save_windows_ops_def Let_def split: if_splits sum.splits)
qed

lemma save_windows_None:
  "save_windows_ops env dir a s = None \<Longrightarrow> save_windows_secret env a s st = None"
  by (auto simp: save_windows_ops_def save_windows_secret_def Let_def split: if_splits sum.splits)

lemma store_of_restrict: "store_of pf dir (secret_op_exec fe (Restrict p args) d) = store_of pf dir d"
  by (auto simp: store_of_def split: option.split sum.split)

lemma store_of_chmod: "store_of pf dir (secret_op_exec fe (Chmod p m) d) = store_of pf dir d"
  by (auto simp: store_of_def split: option.split sum.split protection.split)

lemma store_of_other:
  "store_of pf dir (secret_op_exec fe MakeDir d) = store_of pf dir d"
  "store_of pf dir (secret_op_exec fe (WriteFile (WINDOWS_SECRET_PATH pf dir) t) d) =
     (store_of pf dir d)\<lparr>cs_dpapi := Some t\<rparr>"
  "store_of pf dir (secret_op_exec fe (WriteFile (FALLBACK_PATH pf dir) t) d) =
     (store_of pf dir d)\<lparr>cs_fallback := Some t\<rparr>"
  "store_of pf dir (secret_op_exec fe (SetPassword a s) d) =
     (store_of pf dir d)\<lparr>cs_keyring := (cs_keyring (store_of pf dir d))(a \<mapsto> s)\<rparr>"
  using secret_paths_apart [of pf dir] by (auto simp: store_of_def)

lemmas store_of_ops = store_of_restrict store_of_chmod store_of_other

lemma exposed_at_simps [simp]:
  "exposed_at (d\<lparr>sd_dir := b\<rparr>) q = exposed_at d q" "exposed_at (d\<lparr>sd_keys := ks\<rparr>) q = exposed_at d q"
  "exposed_at (d\<lparr>sd_files := fs(p \<mapsto> (t, pr))\<rparr>) q =
     (if q = p then \<not> owner_only pr else exposed_at (d\<lparr>sd_files := fs\<rparr>) q)"
  by (simp_all add: exposed_at_def)

text \<open>Writing a file and restricting it, cut off after \<^term>\<open>n\<close> operations.\<close>

lemma exposed_write_restrict:
  assumes d: "\<not> exposed pf dir d" and p: "p = WINDOWS_SECRET_PATH pf dir \<or> p = FALLBACK_PATH pf dir"
    and r: "\<And>d' t pr. sd_files d' p = Some (t, pr) \<Longrightarrow> owner_only pr \<or> pr = fe_new fe \<Longrightarrow>
      \<exists>pr'. secret_op_exec fe r d' = d'\<lparr>sd_files := (sd_files d')(p \<mapsto> (t, pr'))\<rparr> \<and> owner_only pr'"
  shows "exposed pf dir (run_ops fe (take n [MakeDir, WriteFile p t, r]) d) \<longleftrightarrow>
    n = 2 \<and> \<not> owner_only (fe_new fe) \<and> sd_files d p = None"
proof -
  define pr where "pr = (case sd_files d p of None \<Rightarrow> fe_new fe | Some (_, pr) \<Rightarrow> pr)"
  define d2 where "d2 = d\<lparr>sd_dir := True, sd_files := (sd_files d)(p \<mapsto> (t, pr))\<rparr>"
  have pr: "owner_only pr \<or> pr = fe_new fe \<and> sd_files d p = None"
    using d p by (auto simp: pr_def exposed_def exposed_at_def split: option.splits)
  have others: "exposed_at d q = False" if "q = WINDOWS_SECRET_PATH pf dir \<or> q = FALLBACK_PATH pf dir" for q
    using d that by (auto simp: exposed_def)
  have written: "exposed pf dir d2 \<longleftrightarrow> \<not> owner_only pr"
    using others p by (auto simp: exposed_def d2_def)
  obtain pr' where r': "secret_op_exec fe r d2 = d2\<lparr>sd_files := (sd_files d2)(p \<mapsto> (t, pr'))\<rparr>" "owner_only pr'"
    using r [of d2 t pr] pr by (auto simp: d2_def)
  have after: "\<not> exposed pf dir (secret_op_exec fe r d2)"
    unfolding r'(1) using others r'(2) by (auto simp: exposed_def d2_def)
  have new: "\<not> owner_only pr \<longleftrightarrow> \<not> owner_only (fe_new fe) \<and> sd_files d p = None"
    using pr by (auto simp: pr_def)
  have two: "run_ops fe [MakeDir, WriteFile p t] d = d2" by (simp add: d2_def pr_def)
  consider "n = 0" | "n = 1" | "n = 2" | k where "n = Suc (Suc (Suc k))"
    by (metis One_nat_def Suc_1 not0_implies_Suc)
  then show ?thesis
    by cases (use d written after new two in \<open>auto simp: exposed_def numeral_2_eq_2\<close>)
qed

section \<open>Properties\<close>

text \<open>
  The operations on the disk and the keyring implement the store. Whatever the environment
  answers, running the operations of a save and forgetting who can open the files gives what
  \<^verbatim>\<open>save_agent_secret\<close> of \<^verbatim>\<open>Credentials\<close> makes of the store.
\<close>

theorem save_refines_store:
  "store_of (ce_platform env) dir (run_ops fe (save_ops env dir agent_id secret) d) =
     save_agent_secret env agent_id secret (store_of (ce_platform env) dir d)"
proof (cases rule: save_ops_cases [of env dir agent_id secret])
  case (dpapi blob)
  then show ?thesis
    by (simp add: store_of_ops restrict_to_system_and_admins_def save_agent_secret_def save_windows_secret_def
        del: secret_op_exec.simps)
next
  case keyring
  then show ?thesis
    by (simp add: store_of_ops save_agent_secret_def save_windows_None del: secret_op_exec.simps)
next
  case fallback
  show ?thesis
    unfolding fallback(3) save_agent_secret_def save_windows_None [OF fallback(1)] if_not_P [OF fallback(2)]
    by (simp add: store_of_ops del: secret_op_exec.simps)
qed

text \<open>
  C26: When the secret can be read by others. On a machine where restricting a file works, and apart
  from the plain file on Windows, a save that starts with no exposed secret ends with none; cut off
  after \<^term>\<open>n\<close> operations, it leaves the secret exposed exactly when the file is new, new files can
  be read by others, and the writing is done but not the restricting. The comment promises a file
  that only this user can read.
\<close>

theorem exposure_exact:
  assumes "restricting_works fe" and "\<not> exposed (ce_platform env) dir d"
    and "if ce_platform env = Win32 then save_windows_ops env dir agent_id secret \<noteq> None \<or> ce_keyring env \<and> ce_keyring_works env
         else \<exists>m. fe_new fe = Mode m"
  shows "exposed (ce_platform env) dir (run_ops fe (take n (save_ops env dir agent_id secret)) d) \<longleftrightarrow>
    n = 2 \<and> \<not> owner_only (fe_new fe) \<and>
    (\<exists>p t. WriteFile p t \<in> set (save_ops env dir agent_id secret) \<and> sd_files d p = None)"
proof (cases rule: save_ops_cases [of env dir agent_id secret])
  case (dpapi blob)
  show ?thesis
    unfolding dpapi(4)
    by (subst exposed_write_restrict [OF assms(2)])
      (use assms(1) in \<open>auto simp: restrict_to_system_and_admins_def restricting_works_def\<close>)
next
  case keyring
  then show ?thesis using assms(2) by (cases n) (auto simp: exposed_def)
next
  case fallback
  then obtain m where m: "fe_new fe = Mode m" using assms(3) by (auto split: if_splits)
  have "\<exists>pr'. secret_op_exec fe (Chmod p S_IRUSR_S_IWUSR) d' = d'\<lparr>sd_files := (sd_files d')(p \<mapsto> (t, pr'))\<rparr> \<and> owner_only pr'"
    if "sd_files d' p = Some (t, pr)" "owner_only pr \<or> pr = fe_new fe" for d' p t pr
  proof (cases pr)
    case (Mode k)
    then show ?thesis using that assms(1) owner_only_restricted(2) by (auto simp: restricting_works_def)
  next
    case (Acl sids)
    then have "secret_op_exec fe (Chmod p S_IRUSR_S_IWUSR) d' = d'\<lparr>sd_files := (sd_files d')(p \<mapsto> (t, pr))\<rparr>"
      using that(1) by (simp add: fun_upd_idem)
    then show ?thesis using that(2) m Acl by auto
  qed
  then show ?thesis
    unfolding fallback(3) by (subst exposed_write_restrict [OF assms(2)]) auto
qed

definition shared_dir :: file_env where
  "shared_dir = \<lparr>fe_new = Mode 420, fe_icacls = (\<lambda>_ _. Inr (Acl [LOCAL_SYSTEM_SID, ADMINISTRATORS_SID])),
     fe_chmod_works = True\<rparr>"

definition empty_disk :: secret_disk where
  "empty_disk = \<lparr>sd_dir = False, sd_files = Map.empty, sd_keys = Map.empty\<rparr>"

theorem exposure_exact_witness:
  "exposed Darwin ''c'' (run_ops shared_dir (take 2 (save_ops (linux_env\<lparr>ce_platform := Darwin\<rparr>) ''c'' ''a'' ''s'')) empty_disk) \<and>
   \<not> exposed Darwin ''c'' (run_ops shared_dir (take 3 (save_ops (linux_env\<lparr>ce_platform := Darwin\<rparr>) ''c'' ''a'' ''s'')) empty_disk)"
proof -
  have start: "restricting_works shared_dir" "\<not> exposed (ce_platform (linux_env\<lparr>ce_platform := Darwin\<rparr>)) ''c'' empty_disk"
    by (simp_all add: restricting_works_def shared_dir_def exposed_def exposed_at_def empty_disk_def)
  have "save_ops (linux_env\<lparr>ce_platform := Darwin\<rparr>) ''c'' ''a'' ''s'' =
      [MakeDir, WriteFile (FALLBACK_PATH Darwin ''c'') (''a'' @ newline # ''s'' @ [newline]),
       Chmod (FALLBACK_PATH Darwin ''c'') S_IRUSR_S_IWUSR]"
    by (simp add: save_ops_def save_windows_ops_def has_win32crypt_def linux_env_def Let_def)
  then show ?thesis
    using exposure_exact [OF start, of "''a''" "''s''" 2] exposure_exact [OF start, of "''a''" "''s''" 3]
    by (auto simp: shared_dir_def empty_disk_def)
qed

end
