(* ===== verification/Printer_Base.thy ===== *)
theory Printer_Base
  imports Protocol
begin

text \<open>
  The printer interface of \<^verbatim>\<open>eres_print_agent/printing/base.py\<close>: what a backend reports of a printer,
  and, as a locale, what the rest of the agent may rely on of any backend. A backend reads the
  operating system, so its operations take a snapshot of it. The contract is that discovery and
  the status check agree: a printer that discovery calls online (or offline) is online (or
  offline) for a status check on the same snapshot.
\<close>

record DiscoveredPrinter =
  dp_local_printer_id :: string
  dp_display_name :: string
  dp_driver_name :: "string option"
  dp_port_name :: "string option"
  dp_is_default :: bool
  dp_color :: "bool option"
  dp_duplex :: "bool option"
  dp_paper_sizes :: "string list option"
  dp_status_detail :: "string option"
  dp_online :: "bool option"

record PrinterStatus =
  ps_online :: bool
  ps_detail :: string

text \<open>What \<^verbatim>\<open>subprocess.run\<close> returns.\<close>

record completed_process =
  cp_returncode :: int
  cp_stdout :: string
  cp_stderr :: string

locale printer_manager =
  fixes consistent :: "'e \<Rightarrow> bool"
    and discover :: "'e \<Rightarrow> DiscoveredPrinter list result"
    and get_status :: "'e \<Rightarrow> string \<Rightarrow> PrinterStatus result"
  assumes discover_agrees:
    "consistent e \<Longrightarrow> discover e = Inr ps \<Longrightarrow> p \<in> set ps \<Longrightarrow> dp_online p = Some b \<Longrightarrow>
       get_status e (dp_local_printer_id p) = Inr st \<Longrightarrow> ps_online st = b"
begin

text \<open>Two entries of one discovery under the same id agree on whether it is online.\<close>

lemma online_unique:
  assumes "consistent e" and "discover e = Inr ps" and "p \<in> set ps" and "q \<in> set ps"
    and "dp_local_printer_id p = dp_local_printer_id q" and "get_status e (dp_local_printer_id q) = Inr st"
    and "dp_online p = Some a" and "dp_online q = Some b"
  shows "a = b"
  using discover_agrees [OF assms(1,2,3,7)] discover_agrees [OF assms(1,2,4,8,6)] assms(5,6) by simp

end

end
