(* ===== verification/Py_Float.thy ===== *)
theory Py_Float
  imports Agent_Prelude Complex_Main "HOL-Library.Log_Nat"
begin

text \<open>
  Python's floats as the sources use them: a finite float is the rational number it stands for, and
  every arithmetic operation is the exact one followed by rounding to 53 significant bits, half to
  even. Overflow to infinity and subnormal numbers do not occur in the ranges of the agent
  (seconds, points, grey values). \<^verbatim>\<open>round(x)\<close> rounds half to even as well.
\<close>

definition round_half_even :: "rat \<Rightarrow> int" where
  "round_half_even x =
     (let f = \<lfloor>x\<rfloor>; d = x - of_int f
      in if d < 1 / 2 then f else if d > 1 / 2 then f + 1 else if even f then f else f + 1)"

text \<open>The exponent of the leading bit of a non-zero number.\<close>

definition float_exp :: "rat \<Rightarrow> int" where
  "float_exp x =
     (let (a, b) = quotient_of \<bar>x\<bar>; k = bitlen a - bitlen b
      in if 2 powi k \<le> \<bar>x\<bar> then k else k - 1)"

definition fl :: "rat \<Rightarrow> rat" where
  "fl x = (if x = 0 then 0
     else let u = 2 powi (float_exp x - 52) in of_int (round_half_even (x / u)) * u)"

section \<open>Rounding to an integer\<close>

lemma round_half_even_int [simp]: "round_half_even (of_int n) = n"
  by (simp add: round_half_even_def)

lemma round_half_even_near: "\<bar>of_int (round_half_even x) - x\<bar> \<le> 1 / 2"
  unfolding round_half_even_def Let_def
  by (auto simp: abs_if) (linarith+)

lemma round_half_even_mono: "x \<le> y \<Longrightarrow> round_half_even x \<le> round_half_even y"
proof (cases "\<lfloor>x\<rfloor> = \<lfloor>y\<rfloor>")
  case True
  assume "x \<le> y"
  then show ?thesis using True by (auto simp: round_half_even_def Let_def)
next
  case False
  assume "x \<le> y"
  then have "\<lfloor>x\<rfloor> + 1 \<le> \<lfloor>y\<rfloor>" using False floor_mono [of x y] by linarith
  moreover have "round_half_even x \<le> \<lfloor>x\<rfloor> + 1" "\<lfloor>y\<rfloor> \<le> round_half_even y"
    by (simp_all add: round_half_even_def Let_def)
  ultimately show ?thesis by linarith
qed

section \<open>Exact operations\<close>

lemma fl_zero [simp]: "fl 0 = 0"
  by (simp add: fl_def)

lemma float_exp_int:
  assumes "n \<noteq> 0" and "\<bar>n\<bar> < 2 ^ 53"
  shows "float_exp (of_int n) \<le> 52"
proof -
  have q: "quotient_of \<bar>of_int n\<bar> = (\<bar>n\<bar>, 1)"
    using quotient_of_int [of "\<bar>n\<bar>"] by (simp only: of_int_abs Rat.of_int_def)
  have "bitlen \<bar>n\<bar> \<le> 53" using bitlen_le_iff_power [of "\<bar>n\<bar>" 53] assms by simp
  moreover have "bitlen 1 = 1" by (simp add: bitlen_def floorlog_def)
  ultimately show ?thesis unfolding float_exp_def q by (simp add: Let_def)
qed

lemma fl_int:
  assumes "\<bar>n\<bar> < 2 ^ 53"
  shows "fl (of_int n) = of_int n"
proof (cases "n = 0")
  case False
  obtain k where k: "52 - float_exp (of_int n) = int k"
    using float_exp_int [OF False assms] by (metis diff_ge_0_iff_ge nonneg_eq_int)
  have u: "(2 :: rat) powi (float_exp (of_int n) - 52) = inverse (2 ^ k)"
    using k by (metis minus_diff_eq power_int_minus power_int_of_nat)
  have "of_int n / (2 powi (float_exp (of_int n) - 52)) = (of_int (n * 2 ^ k) :: rat)"
    unfolding u by (simp add: divide_inverse)
  then have "fl (of_int n) = of_int (n * 2 ^ k) * (2 powi (float_exp (of_int n) - 52))"
    using False by (simp add: fl_def Let_def del: of_int_mult of_int_power)
  then show ?thesis unfolding u by simp
qed simp

section \<open>Relative error\<close>

lemma power_bitlen:
  assumes "0 < a"
  shows "(2 :: rat) powi (bitlen a - 1) \<le> of_int a" and "of_int a < (2 :: rat) powi bitlen a"
proof -
  have one: "1 \<le> bitlen a" using assms bitlen_eq_zero_iff [of a] bitlen_nonneg [of a] by linarith
  have "(2 :: rat) powi (bitlen a - 1) = of_int (2 ^ nat (bitlen a - 1))"
    "(2 :: rat) powi bitlen a = of_int (2 ^ nat (bitlen a))"
    using one by (simp_all add: power_int_def)
  then show "(2 :: rat) powi (bitlen a - 1) \<le> of_int a" and "of_int a < (2 :: rat) powi bitlen a"
    using bitlen_bounds [OF assms] by (simp_all only: of_int_le_iff of_int_less_iff)
qed

lemma float_exp_le:
  assumes "0 < x" shows "2 powi float_exp x \<le> x"
proof -
  obtain a b where q: "quotient_of x = (a, b)" by fastforce
  have b: "0 < b" and x: "x = of_int a / of_int b"
    using quotient_of_denom_pos [OF q] quotient_of_div [OF q] by simp_all
  have a: "0 < a" using assms b x by (simp add: zero_less_divide_iff)
  have "2 powi (bitlen a - bitlen b - 1) = 2 powi (bitlen a - 1) / (2 :: rat) powi bitlen b"
    by (simp add: power_int_diff [symmetric] algebra_simps)
  also have "\<dots> \<le> of_int a / of_int b"
    using power_bitlen(1) [OF a] power_bitlen(2) [OF b] a b by (intro frac_le) simp_all
  finally have "2 powi (bitlen a - bitlen b - 1) \<le> x" using x by simp
  then show ?thesis using assms q by (simp add: float_exp_def Let_def)
qed

text \<open>Rounding up adds at most one part in 2 to the 53.\<close>

lemma fl_upper:
  assumes "0 < x" shows "fl x \<le> x * (1 + 1 / 2 ^ 53)"
proof -
  define u where "u = (2 :: rat) powi (float_exp x - 52)"
  have u: "0 < u" by (simp add: u_def)
  have "u * 2 ^ 52 \<le> x"
    using float_exp_le [OF assms] by (simp add: u_def power_int_diff)
  moreover have "of_int (round_half_even (x / u)) \<le> x / u + 1 / 2"
    using round_half_even_near [of "x / u"] by linarith
  then have "of_int (round_half_even (x / u)) * u \<le> (x / u + 1 / 2) * u"
    using u by (simp add: mult_right_mono)
  then have "fl x \<le> x + u / 2"
    using assms u by (simp add: fl_def Let_def u_def [symmetric] algebra_simps)
  ultimately show ?thesis by (simp add: field_simps)
qed

lemma fl_pos_imp: "0 < fl x \<Longrightarrow> 0 < x"
proof (rule ccontr)
  assume pos: "0 < fl x" and "\<not> 0 < x"
  then have "x / 2 powi (float_exp x - 52) \<le> 0" by (simp add: divide_nonpos_pos)
  then have "round_half_even (x / 2 powi (float_exp x - 52)) \<le> 0"
    using round_half_even_mono [of _ 0] round_half_even_int [of 0] by simp
  then have "of_int (round_half_even (x / 2 powi (float_exp x - 52))) * (2 :: rat) powi (float_exp x - 52) \<le> 0"
    by (intro mult_nonpos_nonneg) simp_all
  then show False using pos by (simp add: fl_def Let_def split: if_splits)
qed

end
