(* ===== verification/Escpos.thy ===== *)
theory Escpos
  imports Py_Float "HOL-Library.Word"
begin

text \<open>
  The ESC/POS output of \<^verbatim>\<open>eres_print_agent/printing/escpos.py\<close>: grey pixels to one-bit rows by
  Floyd-Steinberg dithering, trimming of blank rows, and the byte stream of a print job. Bytes are
  8-bit words, pixels are read as floats and every float operation rounds (\<^verbatim>\<open>Py_Float\<close>).

  Shown here: the shape of the rows, that the padding bits of a row stay blank, that a picture of
  pure black and white is reproduced pixel for pixel, that trimming removes exactly the outer blank
  rows, and that a printer that reads the byte stream gets back exactly the rows, the feed and the
  cut that went in.
\<close>

unbundle bit_operations_syntax

type_synonym byte8 = "8 word"

definition DEFAULT_PAD_MM :: rat where "DEFAULT_PAD_MM = 4"
definition FEED_LINES :: int where "FEED_LINES = 4"
definition ROWS_PER_BLOCK :: nat where "ROWS_PER_BLOCK = 24"

definition mm_to_dots :: "rat \<Rightarrow> int \<Rightarrow> int" where
  "mm_to_dots mm dpi = max 0 (round_half_even (fl (fl (mm / fl (254 / 10)) * fl (of_int dpi))))"

section \<open>Dithering\<close>

definition add_at :: "nat \<Rightarrow> rat \<Rightarrow> rat list \<Rightarrow> rat list" where
  "add_at i v xs = xs[i := fl (xs ! i + v)]"

text \<open>\<^verbatim>\<open>error * k / 16\<close>\<close>

definition share :: "rat \<Rightarrow> rat \<Rightarrow> rat" where
  "share err k = fl (fl (err * k) / 16)"

text \<open>The share of one pixel's error that goes to the row below.\<close>

definition spread_below :: "nat \<Rightarrow> nat \<Rightarrow> rat \<Rightarrow> rat list \<Rightarrow> rat list" where
  "spread_below width x err f =
     (let f1 = (if x > 0 then add_at (x - 1) (share err 3) f else f);
          f2 = add_at x (share err 5) f1
      in if x + 1 < width then add_at (x + 1) (share err 1) f2 else f2)"

definition set_ink :: "nat \<Rightarrow> byte8 list \<Rightarrow> byte8 list" where
  "set_ink x row = row[x div 8 := row ! (x div 8) OR drop_bit (x mod 8) 0x80]"

definition pixel :: "nat \<Rightarrow> nat \<Rightarrow> nat \<Rightarrow> rat list \<times> rat list option \<times> byte8 list \<Rightarrow>
    rat list \<times> rat list option \<times> byte8 list" where
  "pixel threshold width x = (\<lambda>(cur, fol, row).
     let old = cur ! x;
         new = (if old < of_nat threshold then 0 else 255);
         row' = (if new = 0 then set_ink x row else row);
         err = fl (old - new)
     in if err = 0 then (cur, fol, row')
        else (if x + 1 < width then add_at (x + 1) (share err 7) cur else cur,
              map_option (spread_below width x err) fol, row'))"

definition dither_row :: "nat \<Rightarrow> nat \<Rightarrow> rat list \<Rightarrow> rat list option \<Rightarrow> rat list \<times> rat list option \<times> byte8 list" where
  "dither_row threshold width cur fol =
     fold (pixel threshold width) [0..<width] (cur, fol, replicate ((width + 7) div 8) 0)"

text \<open>The rows of the picture from the current one on; \<^term>\<open>rest\<close> are the untouched rows below it.\<close>

fun dither :: "nat \<Rightarrow> nat \<Rightarrow> rat list \<Rightarrow> rat list list \<Rightarrow> byte8 list list" where
  "dither threshold width cur [] = [snd (snd (dither_row threshold width cur None))]"
| "dither threshold width cur (f # rest) =
     (case dither_row threshold width cur (Some f) of
        (_, fol, row) \<Rightarrow> row # dither threshold width (the fol) rest)"

definition gray_row :: "byte8 list \<Rightarrow> nat \<Rightarrow> nat \<Rightarrow> rat list" where
  "gray_row gray width y = map (\<lambda>v. of_nat (unat v)) (take width (drop (y * width) gray))"

text \<open>A buffer that is too short makes some pixel access raise.\<close>

definition gray_to_rows :: "byte8 list \<Rightarrow> nat \<Rightarrow> nat \<Rightarrow> nat \<Rightarrow> byte8 list list result" where
  "gray_to_rows gray width height threshold =
     (if height = 0 then Inr []
      else if length gray < width * height then Inl IndexError
      else Inr (dither threshold width (gray_row gray width 0) (map (gray_row gray width) [1..<height])))"

section \<open>Trimming\<close>

definition any_byte :: "byte8 list \<Rightarrow> bool" where
  "any_byte row = list_ex (\<lambda>b. b \<noteq> 0) row"

definition trim_blank_rows :: "byte8 list list \<Rightarrow> byte8 list list" where
  "trim_blank_rows rows =
     (let ink = filter (\<lambda>i. any_byte (rows ! i)) [0..<length rows]
      in if ink = [] then [] else drop (hd ink) (take (last ink + 1) rows))"

section \<open>The byte stream\<close>

fun blocks :: "byte8 list list \<Rightarrow> byte8 list list list" where
  "blocks [] = []"
| "blocks (r # rs) = take ROWS_PER_BLOCK (r # rs) # blocks (drop (ROWS_PER_BLOCK - 1) rs)"

definition le16 :: "nat \<Rightarrow> byte8 list" where
  "le16 n = [word_of_nat (n mod 256), word_of_nat (n div 256)]"

definition image_block :: "nat \<Rightarrow> byte8 list list \<Rightarrow> byte8 list" where
  "image_block bytes_per_row block =
     [0x1d, 0x76, 0x30, 0x00] @ le16 bytes_per_row @ le16 (length block) @ concat block"

text \<open>A row of 65536 bytes or more and a negative feed do not fit a byte.\<close>

definition build_escpos_job :: "byte8 list list \<Rightarrow> int \<Rightarrow> int \<Rightarrow> bool \<Rightarrow> byte8 list result" where
  "build_escpos_job rows pad_rows feed_lines do_cut =
     (if rows = [] then Inr []
      else let bytes_per_row = length (hd rows);
               pad = replicate (nat pad_rows) (replicate bytes_per_row 0);
               padded = pad @ rows @ pad
           in if bytes_per_row div 256 > 255 then Inl (ValueError ''bytes must be in range(0, 256)'')
              else if feed_lines < 0 then Inl (ValueError ''bytes must be in range(0, 256)'')
              else Inr ([0x1b, 0x40] @ concat (map (image_block bytes_per_row) (blocks padded)) @
                        (if feed_lines \<noteq> 0 then [0x1b, 0x64, word_of_int (min 255 feed_lines)] else []) @
                        (if do_cut then [0x1d, 0x56, 0x01] else [])))"

section \<open>A reader of the byte stream\<close>

text \<open>What a receipt printer does with the commands the agent uses.\<close>

definition chop :: "nat \<Rightarrow> nat \<Rightarrow> byte8 list \<Rightarrow> byte8 list list" where
  "chop w n bs = map (\<lambda>i. take w (drop (i * w) bs)) [0..<n]"

function read_commands :: "byte8 list \<Rightarrow> (byte8 list list \<times> nat \<times> bool) option" where
  "read_commands bs =
     (if bs = [] then Some ([], 0, False)
      else if take 4 bs = [0x1d, 0x76, 0x30, 0x00] \<and> 8 \<le> length bs
      then let w = unat (bs ! 4) + 256 * unat (bs ! 5); n = unat (bs ! 6) + 256 * unat (bs ! 7);
               data = drop 8 bs
           in if length data < w * n then None
              else map_option (\<lambda>(rows, feed, c). (chop w n data @ rows, feed, c)) (read_commands (drop (w * n) data))
      else if take 2 bs = [0x1b, 0x64] \<and> 3 \<le> length bs
      then map_option (\<lambda>(rows, feed, c). (rows, unat (bs ! 2) + feed, c)) (read_commands (drop 3 bs))
      else if bs = [0x1d, 0x56, 0x01] then Some ([], 0, True)
      else None)"
  by pat_completeness auto
termination
  by (relation "measure length") auto

definition read_job :: "byte8 list \<Rightarrow> (byte8 list list \<times> nat \<times> bool) option" where
  "read_job bs = (if take 2 bs = [0x1b, 0x40] then read_commands (drop 2 bs) else None)"

section \<open>Lemmas on the stream\<close>

declare read_commands.simps [simp del]

lemma concat_blocks [simp]: "concat (blocks rows) = rows"
proof (induction rows rule: blocks.induct)
  case (2 r rs)
  have "take ROWS_PER_BLOCK (r # rs) @ drop (ROWS_PER_BLOCK - 1) rs = r # rs"
    using append_take_drop_id [of ROWS_PER_BLOCK "r # rs"] by (simp add: ROWS_PER_BLOCK_def drop_Cons')
  with 2 show ?case by simp
qed simp

lemma blocks_size: "b \<in> set (blocks rows) \<Longrightarrow> length b \<le> 24 \<and> set b \<subseteq> set rows"
proof (induction rows rule: blocks.induct)
  case (2 r rs)
  then show ?case
    by (auto simp: ROWS_PER_BLOCK_def dest: in_set_dropD in_set_takeD)
qed simp

lemma le16_value:
  "n < 65536 \<Longrightarrow> unat (le16 n ! 0) + 256 * unat (le16 n ! 1) = n"
  by (simp add: le16_def unat_of_nat take_bit_eq_mod)

lemma chop_Suc: "chop w (Suc n) bs = take w bs # chop w n (drop w bs)"
  by (simp add: chop_def upt_conv_Cons map_Suc_upt [symmetric] add.commute del: upt_Suc)

lemma chop_concat:
  assumes "\<forall>r \<in> set block. length r = w"
  shows "chop w (length block) (concat block @ rest) = block"
  using assms
proof (induction block)
  case (Cons r block)
  then show ?case by (simp add: chop_Suc)
qed (simp add: chop_def)

lemma concat_length: "\<forall>r \<in> set block. length r = w \<Longrightarrow> length (concat block) = w * length block"
  by (induction block) auto

lemma read_commands_image:
  assumes "take 4 bs = [0x1d, 0x76, 0x30, 0x00]" and "8 \<le> length bs"
    and "unat (bs ! 4) + 256 * unat (bs ! 5) = w" and "unat (bs ! 6) + 256 * unat (bs ! 7) = n"
    and "w * n \<le> length (drop 8 bs)"
  shows "read_commands bs =
    map_option (\<lambda>(rows, feed, c). (chop w n (drop 8 bs) @ rows, feed, c)) (read_commands (drop (w * n) (drop 8 bs)))"
proof -
  have "bs \<noteq> []" using assms(2) by auto
  then show ?thesis
    using assms by (subst read_commands.simps) (simp add: Let_def)
qed

lemma read_commands_nil: "read_commands [] = Some ([], 0, False)"
  by (subst read_commands.simps) simp

lemma read_commands_cut: "read_commands [0x1d, 0x56, 0x01] = Some ([], 0, True)"
  by (subst read_commands.simps) simp

lemma read_commands_feed:
  "read_commands (0x1b # 0x64 # n # rest) =
     map_option (\<lambda>(rows, feed, c). (rows, unat n + feed, c)) (read_commands rest)"
  by (subst read_commands.simps) simp

lemma read_image_block:
  assumes "\<forall>r \<in> set block. length r = w" and "w < 65536" and "length block \<le> 24"
  shows "read_commands (image_block w block @ rest) =
    map_option (\<lambda>(rows, feed, c). (block @ rows, feed, c)) (read_commands rest)"
proof -
  let ?bs = "image_block w block @ rest"
  have n: "length block < 65536" using assms(3) by simp
  have w: "unat (?bs ! 4) + 256 * unat (?bs ! 5) = w" "unat (?bs ! 6) + 256 * unat (?bs ! 7) = length block"
    using le16_value [OF assms(2)] le16_value [OF n] by (simp_all add: image_block_def le16_def)
  have d: "drop 8 ?bs = concat block @ rest" by (simp add: image_block_def le16_def)
  have "take 4 ?bs = [0x1d, 0x76, 0x30, 0x00]" "8 \<le> length ?bs"
    by (simp_all add: image_block_def le16_def)
  from read_commands_image [OF this w] show ?thesis
    unfolding d using chop_concat [OF assms(1)] concat_length [OF assms(1)] by simp
qed

lemma read_image_blocks:
  assumes "\<forall>b \<in> set bs. (\<forall>r \<in> set b. length r = w) \<and> length b \<le> 24" and "w < 65536"
  shows "read_commands (concat (map (image_block w) bs) @ rest) =
    map_option (\<lambda>(rows, feed, c). (concat bs @ rows, feed, c)) (read_commands rest)"
  using assms
proof (induction bs)
  case (Cons b bs)
  then show ?case
    by (simp add: read_image_block option.map_comp comp_def case_prod_beta)
qed (simp add: case_prod_unfold option.map_ident)

lemma read_feed_cut:
  "0 \<le> feed \<Longrightarrow> read_commands
     ((if feed \<noteq> 0 then [0x1b, 0x64, word_of_int (min 255 feed)] else []) @
      (if do_cut then [0x1d, 0x56, 0x01] else [])) = Some ([], nat (min 255 feed), do_cut)"
proof -
  assume "0 \<le> feed"
  then have "unat (word_of_int (min 255 feed) :: byte8) = nat (min 255 feed)"
    by (simp add: unat_eq_nat_uint uint_word_of_int)
  with \<open>0 \<le> feed\<close> show ?thesis
    by (cases "feed = 0"; cases do_cut)
      (simp_all add: read_commands_nil read_commands_cut read_commands_feed)
qed

lemma read_job_build:
  assumes "rows \<noteq> []" and "\<forall>r \<in> set rows. length r = w" and "w < 65536" and "0 \<le> feed"
  shows "\<exists>job. build_escpos_job rows pad feed do_cut = Inr job \<and>
    read_job job = Some (replicate (nat pad) (replicate w 0) @ rows @ replicate (nat pad) (replicate w 0),
                         nat (min 255 feed), do_cut)"
proof -
  let ?pad = "replicate (nat pad) (replicate w (0 :: byte8))"
  let ?tail = "(if feed \<noteq> 0 then [0x1b, 0x64, word_of_int (min 255 feed)] else []) @
    (if do_cut then [0x1d, 0x56, 0x01] else []) :: byte8 list"
  let ?job = "[0x1b, 0x40] @ concat (map (image_block w) (blocks (?pad @ rows @ ?pad))) @ ?tail"
  have hd: "length (hd rows) = w" using assms(1,2) by simp
  have "build_escpos_job rows pad feed do_cut = Inr ?job"
    using assms hd by (simp add: build_escpos_job_def Let_def)
  moreover have "\<forall>r \<in> set (?pad @ rows @ ?pad). length r = w" using assms(2) by auto
  then have "\<forall>b \<in> set (blocks (?pad @ rows @ ?pad)). (\<forall>r \<in> set b. length r = w) \<and> length b \<le> 24"
    using blocks_size by blast
  then have "read_job ?job = Some (?pad @ rows @ ?pad, nat (min 255 feed), do_cut)"
    using read_image_blocks [OF _ assms(3)] read_feed_cut [OF assms(4)] by (simp add: read_job_def)
  ultimately show ?thesis by blast
qed

section \<open>Properties of the stream\<close>

text \<open>
  A printer reads back what was sent. For rows of one width that fits the command format, a
  reader of the ESC/POS stream gets exactly the rows with the padding above and below them, in
  order and undamaged by the split into strips, then the feed (at most 255 lines) and the cut.
\<close>

theorem escpos_roundtrip:
  assumes "rows \<noteq> []" and "\<forall>r \<in> set rows. length r = w" and "w < 65536" and "0 \<le> feed"
  shows "\<exists>job. build_escpos_job rows pad feed do_cut = Inr job \<and>
    read_job job = Some (replicate (nat pad) (replicate w 0) @ rows @ replicate (nat pad) (replicate w 0),
                         nat (min 255 feed), do_cut)"
  using assms by (rule read_job_build)

theorem escpos_roundtrip_witness:
  "\<exists>job. build_escpos_job [[0xF0], [0x0F]] 1 4 True = Inr job \<and>
     read_job job = Some ([[0], [0xF0], [0x0F], [0]], 4, True)"
  using escpos_roundtrip [of "[[0xF0], [0x0F]]" 1 4 1 True] by simp

section \<open>Lemmas on the picture\<close>

text \<open>Whether the printer inks column \<^term>\<open>x\<close> of a row: the bits of a byte run from left to right.\<close>

definition ink_at :: "byte8 list \<Rightarrow> nat \<Rightarrow> bool" where
  "ink_at row x = bit (row ! (x div 8)) (7 - x mod 8)"

lemma bit_0x80: "bit (0x80 :: byte8) n \<longleftrightarrow> n = 7"
proof -
  have "(0x80 :: byte8) = 2 ^ 7" by simp
  then show ?thesis by (simp only: bit_exp_iff) auto
qed

lemma set_ink_length [simp]: "length (set_ink x row) = length row"
  by (simp add: set_ink_def)

lemma ink_at_set_ink:
  assumes "x < 8 * length row"
  shows "ink_at (set_ink x row) y \<longleftrightarrow> y = x \<or> ink_at row y"
proof (cases "y div 8 = x div 8")
  case True
  have "x div 8 < length row" using assms by (simp add: less_mult_imp_div_less mult.commute)
  then have "ink_at (set_ink x row) y \<longleftrightarrow> bit (row ! (y div 8) OR drop_bit (x mod 8) 0x80) (7 - y mod 8)"
    using True by (simp only: ink_at_def set_ink_def nth_list_update_eq)
  moreover have "bit (drop_bit (x mod 8) (0x80 :: byte8)) n \<longleftrightarrow> x mod 8 + n = 7" for n
    by (simp only: bit_drop_bit_eq comp_apply bit_0x80)
  ultimately have "ink_at (set_ink x row) y \<longleftrightarrow> ink_at row y \<or> 7 - y mod 8 + x mod 8 = 7"
    by (simp only: bit_or_iff ink_at_def add.commute)
  moreover have "7 - y mod 8 + x mod 8 = 7 \<longleftrightarrow> x mod 8 = y mod 8"
    using mod_less_divisor [of 8 x] mod_less_divisor [of 8 y] by linarith
  moreover have "x mod 8 = y mod 8 \<longleftrightarrow> y = x" using True by (metis div_mult_mod_eq)
  ultimately show ?thesis by auto
qed (auto simp: ink_at_def set_ink_def)

lemma ink_at_blank [simp]: "x < 8 * n \<Longrightarrow> \<not> ink_at (replicate n 0) x"
  by (simp add: ink_at_def less_mult_imp_div_less mult.commute)

lemma width_fits [simp]: "w \<le> 8 * ((w + 7) div 8)" for w :: nat
  by presburger

lemma pixel_effect:
  "pixel t w x (c, f, r) = (c', f', r') \<Longrightarrow> (r' = r \<or> r' = set_ink x r) \<and> (f' = None \<longleftrightarrow> f = None)"
  by (auto simp: pixel_def Let_def split: if_splits)

text \<open>After the first \<^term>\<open>m\<close> pixels only columns before \<^term>\<open>m\<close> can be inked.\<close>

lemma dither_prefix:
  assumes "m \<le> 8 * n"
  shows "case fold (pixel t w) [0..<m] (cur, fol, replicate n 0) of
    (_, fol', row) \<Rightarrow> length row = n \<and> (\<forall>x. m \<le> x \<and> x < 8 * n \<longrightarrow> \<not> ink_at row x) \<and> (fol' = None \<longleftrightarrow> fol = None)"
  using assms
proof (induction m)
  case (Suc m)
  obtain c f r where f: "fold (pixel t w) [0..<m] (cur, fol, replicate n 0) = (c, f, r)" by (metis prod_cases3)
  have "length r = n" "\<forall>x. m \<le> x \<and> x < 8 * n \<longrightarrow> \<not> ink_at r x" "f = None \<longleftrightarrow> fol = None" "m < 8 * length r"
    using Suc f by auto
  moreover obtain c' f' r' where p: "pixel t w m (c, f, r) = (c', f', r')" by (metis prod_cases3)
  moreover note pixel_effect [OF p]
  ultimately show ?case using f by (auto simp: ink_at_set_ink)
qed simp

lemma dither_row_shape:
  assumes "dither_row t w cur fol = (cur', fol', row)"
  shows "length row = (w + 7) div 8" "w \<le> x \<Longrightarrow> x < 8 * ((w + 7) div 8) \<Longrightarrow> \<not> ink_at row x"
    "fol' = None \<longleftrightarrow> fol = None"
  using dither_prefix [of w "(w + 7) div 8", where t = t and w = w and cur = cur and fol = fol] assms by (auto simp: dither_row_def)

lemma dither_length: "length (dither t w cur rest) = Suc (length rest)"
  by (induction t w cur rest rule: dither.induct) (simp_all split: prod.split)

lemma dither_rows:
  "row \<in> set (dither t w cur rest) \<Longrightarrow> length row = (w + 7) div 8 \<and>
     (\<forall>x. w \<le> x \<and> x < 8 * ((w + 7) div 8) \<longrightarrow> \<not> ink_at row x)"
proof (induction t w cur rest rule: dither.induct)
  case (1 t w cur)
  then show ?case using dither_row_shape(1,2) by (metis dither.simps(1) empty_iff insert_iff list.set prod.collapse)
next
  case (2 t w cur f rest)
  obtain c fo r where d: "dither_row t w cur (Some f) = (c, fo, r)" by (metis prod_cases3)
  with 2 show ?case using dither_row_shape(1,2) [OF d] by auto
qed

text \<open>Pixels that are exactly black or white leave no error, so each is decided on its own.\<close>

definition bilevel :: "rat list \<Rightarrow> bool" where
  "bilevel xs \<longleftrightarrow> list_all (\<lambda>v. v = 0 \<or> v = 255) xs"

lemma dither_bilevel_prefix:
  assumes "bilevel cur" and "m \<le> length cur" and "m \<le> 8 * n" and "0 < t" and "t \<le> 255"
  shows "\<exists>row. fold (pixel t w) [0..<m] (cur, fol, replicate n 0) = (cur, fol, row) \<and> length row = n \<and>
    (\<forall>x < m. ink_at row x \<longleftrightarrow> cur ! x = 0)"
  using assms(2,3)
proof (induction m)
  case (Suc m)
  then obtain row where row: "fold (pixel t w) [0..<m] (cur, fol, replicate n 0) = (cur, fol, row)"
    "length row = n" "\<forall>x < m. ink_at row x \<longleftrightarrow> cur ! x = 0" by auto
  have nib: "\<not> ink_at row m"
    using dither_prefix [of m n, where t = t and w = w and cur = cur and fol = fol] row(1) Suc.prems by auto
  have "cur ! m = 0 \<or> cur ! m = 255"
    using assms(1) Suc.prems by (simp add: bilevel_def list_all_length)
  then have "pixel t w m (cur, fol, row) = (cur, fol, if cur ! m = 0 then set_ink m row else row)"
    using assms(4,5) by (auto simp: pixel_def Let_def)
  with row nib Suc.prems show ?case by (auto simp: ink_at_set_ink less_Suc_eq)
qed simp

lemma dither_bilevel:
  assumes "list_all (\<lambda>r. bilevel r \<and> length r = w) (cur # rest)" and "0 < t" and "t \<le> 255"
    and "y < Suc (length rest)" and "x < w"
  shows "ink_at (dither t w cur rest ! y) x \<longleftrightarrow> (cur # rest) ! y ! x = 0"
  using assms
proof (induction rest arbitrary: cur y)
  case Nil
  then obtain row where "dither_row t w cur None = (cur, None, row)" "\<forall>x < w. ink_at row x \<longleftrightarrow> cur ! x = 0"
    using dither_bilevel_prefix [of cur w "(w + 7) div 8" t w None] by (auto simp: dither_row_def)
  with Nil show ?case by simp
next
  case (Cons f rest)
  obtain row where row: "dither_row t w cur (Some f) = (cur, Some f, row)"
    "\<forall>x < w. ink_at row x \<longleftrightarrow> cur ! x = 0"
    using dither_bilevel_prefix [of cur w "(w + 7) div 8" t w "Some f"] Cons.prems by (auto simp: dither_row_def)
  show ?case
  proof (cases y)
    case 0
    then show ?thesis using row Cons.prems by simp
  next
    case (Suc z)
    then show ?thesis using row(1) Cons.IH [of f z] Cons.prems by simp
  qed
qed

lemma gray_row_length: "(y + 1) * w \<le> length gray \<Longrightarrow> length (gray_row gray w y) = w"
  by (simp add: gray_row_def)

lemma gray_row_nth:
  "(y + 1) * w \<le> length gray \<Longrightarrow> x < w \<Longrightarrow> gray_row gray w y ! x = of_nat (unat (gray ! (y * w + x)))"
  by (simp add: gray_row_def)

lemma gray_row_bilevel:
  assumes "set gray \<subseteq> {0, 255}"
  shows "bilevel (gray_row gray w y)"
proof -
  have "v = 0 \<or> v = 255" if "v \<in> set (take w (drop (y * w) gray))" for v
    using that assms in_set_takeD in_set_dropD by fastforce
  then show ?thesis by (fastforce simp: bilevel_def gray_row_def list_all_iff)
qed

lemma gray_to_rows_widths:
  "gray_to_rows gray w h t = Inr rows \<Longrightarrow> \<forall>row \<in> set rows. length row = (w + 7) div 8"
  using dither_rows by (fastforce simp: gray_to_rows_def list_all_iff split: if_splits)

section \<open>Properties of the picture\<close>

text \<open>
  The shape of a bitmap. From a buffer that holds the picture, \<^verbatim>\<open>gray_to_rows\<close> makes one row of
  bytes per pixel row, each just wide enough for the pixels, and never inks a padding bit to the
  right of the picture.
\<close>

theorem gray_to_rows_shape:
  assumes "gray_to_rows gray w h t = Inr rows"
  shows "length rows = h \<and> list_all (\<lambda>row. length row = (w + 7) div 8 \<and>
    (\<forall>x. w \<le> x \<and> x < 8 * ((w + 7) div 8) \<longrightarrow> \<not> ink_at row x)) rows"
  using assms dither_rows
  by (auto simp: gray_to_rows_def dither_length list_all_iff split: if_splits)

theorem gray_to_rows_shape_witness:
  "\<exists>rows. gray_to_rows [0, 255, 128, 7] 2 2 128 = Inr rows \<and> length rows = 2"
proof -
  obtain rows where "gray_to_rows [0, 255, 128, 7] 2 2 128 = Inr rows" by (simp add: gray_to_rows_def)
  with gray_to_rows_shape [OF this] show ?thesis by simp
qed

text \<open>
  Black and white survive. A picture of pure black and white pixels comes out pixel for pixel:
  the printer inks exactly the black ones, so the dithering leaves text and bar codes solid.
\<close>

theorem bilevel_exact:
  assumes "set gray \<subseteq> {0, 255}" and "w * h \<le> length gray" and "0 < t" and "t \<le> 255"
  shows "\<exists>rows. gray_to_rows gray w h t = Inr rows \<and>
    (\<forall>y x. y < h \<and> x < w \<longrightarrow> ink_at (rows ! y) x = (gray ! (y * w + x) = 0))"
proof (cases "h = 0")
  case False
  have len: "(y + 1) * w \<le> length gray" if "y < h" for y
  proof -
    have "(y + 1) * w \<le> h * w" using that by (intro mult_right_mono) auto
    then show ?thesis using assms(2) by (simp add: mult.commute)
  qed
  let ?rest = "map (gray_row gray w) [1..<h]"
  have rows: "gray_row gray w 0 # ?rest = map (gray_row gray w) [0..<h]" using False by (simp add: upt_conv_Cons)
  have "list_all (\<lambda>r. bilevel r \<and> length r = w) (gray_row gray w 0 # ?rest)"
    unfolding rows using gray_row_bilevel [OF assms(1)] gray_row_length [OF len] by (simp add: list_all_iff)
  then have "ink_at (dither t w (gray_row gray w 0) ?rest ! y) x = (gray ! (y * w + x) = 0)"
    if "y < h" "x < w" for y x
    using dither_bilevel [OF _ assms(3,4), of w "gray_row gray w 0" ?rest y x] that False
      gray_row_nth [OF len [OF that(1)] that(2)] rows
    by (simp add: unsigned_eq_0_iff nth_map)
  then show ?thesis using assms(2) False by (simp add: gray_to_rows_def)
qed (simp add: gray_to_rows_def)

theorem bilevel_exact_witness:
  "\<exists>rows. gray_to_rows [0, 255, 255, 0] 2 2 128 = Inr rows \<and> ink_at (rows ! 1) 1 \<and> \<not> ink_at (rows ! 1) 0"
proof -
  obtain rows where rows: "gray_to_rows [0, 255, 255, 0] 2 2 128 = Inr rows"
    "\<forall>y x. y < 2 \<and> x < 2 \<longrightarrow> ink_at (rows ! y) x = ([0, 255, 255, 0 :: byte8] ! (y * 2 + x) = 0)"
    using bilevel_exact [of "[0, 255, 255, 0]" 2 2 128] by auto
  have "ink_at (rows ! 1) 1" "\<not> ink_at (rows ! 1) 0"
    using rows(2) [rule_format, of 1 1] rows(2) [rule_format, of 1 0] by simp_all
  with rows(1) show ?thesis by blast
qed

lemma split_range:
  assumes "i \<le> m"
  shows "xs = take i xs @ drop i (take m xs) @ drop m xs"
proof -
  have "take i xs = take i (take m xs)" using assms by (simp add: min_def)
  then show ?thesis by (metis append.assoc append_take_drop_id)
qed

lemma outer_blank:
  "(\<And>j. j < i \<Longrightarrow> \<not> P (xs ! j)) \<Longrightarrow> (\<And>j. k < j \<Longrightarrow> j < length xs \<Longrightarrow> \<not> P (xs ! j)) \<Longrightarrow>
     list_all (\<lambda>r. \<not> P r) (take i xs @ drop (k + 1) xs)"
  by (simp only: list_all_append) (simp add: list_all_length)

lemma sorted_ends:
  fixes xs :: "nat list"
  shows "sorted xs \<Longrightarrow> x \<in> set xs \<Longrightarrow> hd xs \<le> x \<and> x \<le> last xs"
proof (induction xs)
  case (Cons y ys)
  then show ?case by (cases "ys = []") auto
qed simp

lemma ink_range:
  fixes rows :: "byte8 list list"
  defines "ink \<equiv> filter (\<lambda>i. any_byte (rows ! i)) [0..<length rows]"
  assumes "ink \<noteq> []"
  shows "hd ink \<le> last ink" "last ink < length rows" "any_byte (rows ! hd ink)" "any_byte (rows ! last ink)"
    "i < hd ink \<Longrightarrow> \<not> any_byte (rows ! i)" "last ink < i \<Longrightarrow> i < length rows \<Longrightarrow> \<not> any_byte (rows ! i)"
proof -
  have s: "sorted ink" unfolding ink_def by (simp add: sorted_wrt_filter)
  have mem: "hd ink \<in> set ink" "last ink \<in> set ink" using assms(2) by simp_all
  have le: "hd ink \<le> i \<and> i \<le> last ink" if "i \<in> set ink" for i
    using sorted_ends [OF s that] .
  show "hd ink \<le> last ink" using le mem by blast
  show "last ink < length rows" "any_byte (rows ! hd ink)" "any_byte (rows ! last ink)"
    using mem unfolding ink_def by auto
  have "hd ink < length rows" using mem(1) unfolding ink_def by auto
  then show "i < hd ink \<Longrightarrow> \<not> any_byte (rows ! i)" using le [of i] by (auto simp: ink_def)
  show "last ink < i \<Longrightarrow> i < length rows \<Longrightarrow> \<not> any_byte (rows ! i)" using le [of i] by (auto simp: ink_def)
qed

text \<open>
  Trimming removes exactly the outer blank rows: what is cut off above and below has no ink, and
  what is left is empty or begins and ends with an inked row.
\<close>

theorem trim_exact:
  "\<exists>above below. rows = above @ trim_blank_rows rows @ below \<and>
     list_all (\<lambda>r. \<not> any_byte r) (above @ below) \<and>
     (trim_blank_rows rows = [] \<or> any_byte (hd (trim_blank_rows rows)) \<and> any_byte (last (trim_blank_rows rows)))"
proof -
  let ?ink = "filter (\<lambda>i. any_byte (rows ! i)) [0..<length rows]"
  show ?thesis
  proof (cases "?ink = []")
    case True
    then have "list_all (\<lambda>r. \<not> any_byte r) rows" by (auto simp: list_all_length filter_empty_conv)
    with True show ?thesis by (intro exI [of _ rows] exI [of _ "[]"]) (simp add: trim_blank_rows_def)
  next
    case False
    note ink = ink_range [OF False]
    let ?a = "take (hd ?ink) rows" and ?b = "drop (last ?ink + 1) rows"
    have t: "trim_blank_rows rows = drop (hd ?ink) (take (last ?ink + 1) rows)"
      using False by (simp add: trim_blank_rows_def Let_def)
    have split: "rows = ?a @ trim_blank_rows rows @ ?b"
      unfolding t using ink(1) by (intro split_range) simp
    have ne: "trim_blank_rows rows \<noteq> []" unfolding t using ink(1,2) by simp
    have "hd (trim_blank_rows rows) = rows ! hd ?ink" "last (trim_blank_rows rows) = rows ! last ?ink"
      unfolding t using ink(1,2) by (simp_all add: hd_drop_conv_nth last_drop last_conv_nth)
    moreover have "list_all (\<lambda>r. \<not> any_byte r) (?a @ ?b)"
      using outer_blank [of "hd ?ink" any_byte rows "last ?ink"] ink(5,6) by blast
    ultimately show ?thesis using split ink(3,4) by metis
  qed
qed

end
