(* ===== verification/Ppd.thy ===== *)
theory Ppd
  imports Py_Float Url "HOL-Library.Monad_Syntax"
begin

text \<open>
  Reading printer descriptions and page sizes, the regular expressions of
  \<^verbatim>\<open>eres_print_agent/printing/macos.py\<close> over PPD files and over a PDF. A matcher tries an expression at
  the start of a text and answers the groups with the rest of the text. In all expressions of the
  source, each repetition ends where the next part cannot go on, so there is at most one way to
  match from a position and greedy matching is exact. The one exception is the choice of a paper
  size, where a shorter choice would leave the rest of the match the same, and the greedy one is
  what Python answers.
\<close>

section \<open>Matching\<close>

definition lit :: "string \<Rightarrow> string \<Rightarrow> string option" where
  "lit p s = (if starts_with p s then Some (drop (length p) s) else None)"

text \<open>One or more characters of a class.\<close>

definition many1 :: "(char \<Rightarrow> bool) \<Rightarrow> string \<Rightarrow> (string \<times> string) option" where
  "many1 P s = (let w = takeWhile P s in if w = [] then None else Some (w, dropWhile P s))"

text \<open>\<^verbatim>\<open>re.search\<close>: the leftmost position at which \<^term>\<open>f\<close> matches; \<^term>\<open>first\<close> says that the position is
  at the start of a line.\<close>

fun re_search :: "(bool \<Rightarrow> string \<Rightarrow> 'a option) \<Rightarrow> bool \<Rightarrow> string \<Rightarrow> 'a option" where
  "re_search f first [] = f first []"
| "re_search f first (c # cs) =
     (case f first (c # cs) of
        Some x \<Rightarrow> Some x
      | None \<Rightarrow> re_search f ((of_char c :: nat) = 10) cs)"

text \<open>\<^verbatim>\<open>re.findall\<close> and \<^verbatim>\<open>re.finditer\<close> for a matcher that takes at least one character, the last of them
  not a line feed.\<close>

function re_findall :: "(bool \<Rightarrow> string \<Rightarrow> ('a \<times> string) option) \<Rightarrow> bool \<Rightarrow> string \<Rightarrow> 'a list" where
  "re_findall f first [] = []"
| "re_findall f first (c # cs) =
     (case f first (c # cs) of
        Some (v, rest) \<Rightarrow> v # re_findall f False (if length rest \<le> length cs then rest else cs)
      | None \<Rightarrow> re_findall f ((of_char c :: nat) = 10) cs)"
  by pat_completeness auto
termination
  by (relation "measure (\<lambda>(_, _, s). length s)") auto

section \<open>Numbers\<close>

definition digits_value :: "string \<Rightarrow> int" where
  "digits_value ds = foldl (\<lambda>n c. 10 * n + (int (of_char c) - 48)) 0 ds"

text \<open>\<^verbatim>\<open>[\d.]\<close> and \<^verbatim>\<open>[-\d.]\<close>\<close>

definition num_char :: "char \<Rightarrow> bool" where
  "num_char c \<longleftrightarrow> is_digit_char c \<or> c = CHR ''.''"

definition signed_char :: "char \<Rightarrow> bool" where
  "signed_char c \<longleftrightarrow> num_char c \<or> c = CHR ''-''"

text \<open>\<^verbatim>\<open>float(s)\<close> of a text of such characters.\<close>

definition py_float :: "string \<Rightarrow> rat result" where
  "py_float s =
     (let (neg, t) = (if s \<noteq> [] \<and> hd s = CHR ''-'' then (True, tl s) else (False, s));
          (whole, dot, part) = partition_at (CHR ''.'') t;
          x = of_int (digits_value (whole @ part)) / 10 ^ length part
      in if whole @ part \<noteq> [] \<and> list_all is_digit_char (whole @ part)
         then Inr (fl (if neg then - x else x))
         else Inl (ValueError ''could not convert string to float''))"

section \<open>Printer descriptions\<close>

text \<open>What \<^verbatim>\<open>read_text\<close> makes of the ends of lines.\<close>

function universal_newlines :: "string \<Rightarrow> string" where
  "universal_newlines [] = []"
| "universal_newlines (c # cs) =
     (if (of_char c :: nat) = 13
      then char_of (10 :: nat) #
             universal_newlines (if cs \<noteq> [] \<and> (of_char (hd cs) :: nat) = 10 then tl cs else cs)
      else c # universal_newlines cs)"
  by pat_completeness auto
termination
  by (relation "measure length") auto

text \<open>A PPD file, \<^term>\<open>None\<close> when it cannot be read; \<^verbatim>\<open>_ppd_text\<close>.\<close>

type_synonym ppd_file = "string option"

definition ppd_text :: "ppd_file \<Rightarrow> string" where
  "ppd_text f = (case f of None \<Rightarrow> [] | Some s \<Rightarrow> universal_newlines s)"

definition quote :: char where "quote = CHR 0x22"

text \<open>\<^verbatim>\<open>^\*PaperDimension\s+([^/:\s]+)[^:]*:\s*"([\d.]+)\s+([\d.]+)"\<close>\<close>

definition match_paper :: "bool \<Rightarrow> string \<Rightarrow> ((string \<times> string \<times> string) \<times> string) option" where
  "match_paper first s =
     (if \<not> first then None else do {
        s \<leftarrow> lit ''*PaperDimension'' s;
        (_, s) \<leftarrow> many1 is_space s;
        (choice, s) \<leftarrow> many1 (\<lambda>c. c \<noteq> CHR ''/'' \<and> c \<noteq> CHR '':'' \<and> \<not> is_space c) s;
        s \<leftarrow> lit '':'' (dropWhile (\<lambda>c. c \<noteq> CHR '':'') s);
        s \<leftarrow> lit [quote] (dropWhile is_space s);
        (width, s) \<leftarrow> many1 num_char s;
        (_, s) \<leftarrow> many1 is_space s;
        (height, s) \<leftarrow> many1 num_char s;
        s \<leftarrow> lit [quote] s;
        Some ((choice, width, height), s)
      })"

type_synonym paper = "string \<times> rat \<times> rat"

definition paper_of_match :: "string \<times> string \<times> string \<Rightarrow> paper result" where
  "paper_of_match = (\<lambda>(choice, width, height).
     bind_result (py_float width) (\<lambda>w. bind_result (py_float height) (\<lambda>h. Inr (choice, w, h))))"

definition paper_sizes :: "ppd_file \<Rightarrow> paper list result" where
  "paper_sizes f =
     (case f of
        None \<Rightarrow> Inr []
      | Some _ \<Rightarrow> map_result paper_of_match (re_findall match_paper True (ppd_text f)))"

text \<open>\<^verbatim>\<open>^\*CustomPageSize\s+True\<close> and \<^verbatim>\<open>^\*ParamCustomPageSize\s+Width:\s*\d+\s+points\s+([\d.]+)\s+([\d.]+)\<close>\<close>

definition match_custom :: "bool \<Rightarrow> string \<Rightarrow> unit option" where
  "match_custom first s =
     (if \<not> first then None else do {
        s \<leftarrow> lit ''*CustomPageSize'' s;
        (_, s) \<leftarrow> many1 is_space s;
        _ \<leftarrow> lit ''True'' s;
        Some ()
      })"

definition match_param :: "string \<Rightarrow> bool \<Rightarrow> string \<Rightarrow> (string \<times> string) option" where
  "match_param key first s =
     (if \<not> first then None else do {
        s \<leftarrow> lit ''*ParamCustomPageSize'' s;
        (_, s) \<leftarrow> many1 is_space s;
        s \<leftarrow> lit key s;
        (_, s) \<leftarrow> many1 is_digit_char (dropWhile is_space s);
        (_, s) \<leftarrow> many1 is_space s;
        s \<leftarrow> lit ''points'' s;
        (_, s) \<leftarrow> many1 is_space s;
        (lo, s) \<leftarrow> many1 num_char s;
        (_, s) \<leftarrow> many1 is_space s;
        (hi, _) \<leftarrow> many1 num_char s;
        Some (lo, hi)
      })"

definition custom_size_range :: "ppd_file \<Rightarrow> (rat \<times> rat \<times> rat) option result" where
  "custom_size_range f =
     (case f of
        None \<Rightarrow> Inr None
      | Some _ \<Rightarrow>
          if re_search match_custom True (ppd_text f) = None then Inr None
          else (case (re_search (match_param ''Width:'') True (ppd_text f),
                      re_search (match_param ''Height:'') True (ppd_text f)) of
                  (Some (_, width), Some (lo, hi)) \<Rightarrow>
                    bind_result (py_float width) (\<lambda>w. bind_result (py_float lo) (\<lambda>l. bind_result (py_float hi) (\<lambda>h.
                      Inr (Some (w, l, h)))))
                | _ \<Rightarrow> Inr None))"

section \<open>Page sizes\<close>

text \<open>\<^verbatim>\<open>\s\<close> over bytes, and \<^verbatim>\<open>/MediaBox\s*\[\s*([-\d.]+)\s+([-\d.]+)\s+([-\d.]+)\s+([-\d.]+)\s*\]\<close>\<close>

definition space_byte :: "char \<Rightarrow> bool" where
  "space_byte c \<longleftrightarrow> (of_char c :: nat) \<in> {9, 10, 11, 12, 13, 32}"

definition match_media_box :: "bool \<Rightarrow> string \<Rightarrow> (string \<times> string \<times> string \<times> string) option" where
  "match_media_box first s = do {
     s \<leftarrow> lit ''/MediaBox'' s;
     s \<leftarrow> lit ''['' (dropWhile space_byte s);
     (x0, s) \<leftarrow> many1 signed_char (dropWhile space_byte s);
     (_, s) \<leftarrow> many1 space_byte s;
     (y0, s) \<leftarrow> many1 signed_char s;
     (_, s) \<leftarrow> many1 space_byte s;
     (x1, s) \<leftarrow> many1 signed_char s;
     (_, s) \<leftarrow> many1 space_byte s;
     (y1, s) \<leftarrow> many1 signed_char s;
     _ \<leftarrow> lit '']'' (dropWhile space_byte s);
     Some (x0, y0, x1, y1)
   }"

definition pdf_page_size :: "string option \<Rightarrow> (rat \<times> rat) option result" where
  "pdf_page_size f =
     (case f of
        None \<Rightarrow> Inr None
      | Some bytes \<Rightarrow>
          (case re_search match_media_box True (take (2 * 1024 * 1024) bytes) of
             None \<Rightarrow> Inr None
           | Some (a, b, c, d) \<Rightarrow>
               bind_result (py_float a) (\<lambda>x0. bind_result (py_float b) (\<lambda>y0.
               bind_result (py_float c) (\<lambda>x1. bind_result (py_float d) (\<lambda>y1.
                 Inr (Some (\<bar>fl (x1 - x0)\<bar>, \<bar>fl (y1 - y0)\<bar>))))))))"

section \<open>Lemmas\<close>

lemma lit_append [simp]: "lit p (p @ r) = Some r"
  by (simp add: lit_def)

lemma lit_single [simp]: "lit [c] (c # r) = Some r"
  using lit_append [of "[c]" r] by simp

lemma takeWhile_run:
  "list_all P w \<Longrightarrow> r = [] \<or> \<not> P (hd r) \<Longrightarrow> takeWhile P (w @ r) = w \<and> dropWhile P (w @ r) = r"
  by (induction w) (cases r; auto)+

lemma many1_run:
  "list_all P w \<Longrightarrow> w \<noteq> [] \<Longrightarrow> r = [] \<or> \<not> P (hd r) \<Longrightarrow> many1 P (w @ r) = Some (w, r)"
  using takeWhile_run [of P w r] by (simp add: many1_def Let_def)

lemma space_not_num: "is_space c \<Longrightarrow> \<not> num_char c"
  by (auto simp: is_space_def num_char_def is_digit_char_def Let_def)

lemma special_chars [simp]:
  "is_space (CHR '' '')" "\<not> num_char (CHR '' '')" "\<not> num_char quote" "\<not> is_space quote"
  by (simp_all add: is_space_def num_char_def is_digit_char_def quote_def Let_def)

text \<open>Up to the end of a line that does not begin with a match, a search finds nothing.\<close>

lemma re_findall_skip:
  assumes "\<And>s. f False s = None" and "list_all (\<lambda>c. (of_char c :: nat) \<noteq> 10) l"
  shows "re_findall f False (l @ char_of (10 :: nat) # rest) = re_findall f True rest"
  using assms by (induction l) simp_all

lemma re_findall_line:
  assumes "\<And>s. f False s = None" and "list_all (\<lambda>c. (of_char c :: nat) \<noteq> 10) l"
    and "f True (l @ char_of (10 :: nat) # rest) = None"
  shows "re_findall f True (l @ char_of (10 :: nat) # rest) = re_findall f True rest"
  using assms re_findall_skip [of f "tl l" rest] by (cases l) simp_all

lemma universal_newlines_line:
  assumes "list_all (\<lambda>c. (of_char c :: nat) \<noteq> 13) l" and "eol \<in> {[char_of (10 :: nat)], [char_of (13 :: nat), char_of (10 :: nat)]}"
  shows "universal_newlines (l @ eol @ rest) = l @ char_of (10 :: nat) # universal_newlines rest"
  using assms by (induction l) auto

text \<open>The lines of a description, as a driver writes them: paper sizes with a choice, a label for
  people and the two lengths, and anything else.\<close>

datatype ppd_line = Paper string string string string | Other string

fun line_text :: "ppd_line \<Rightarrow> string" where
  "line_text (Paper choice label w h) =
     ''*PaperDimension'' @ '' '' @ choice @ ''/'' @ label @ '':'' @ '' '' @ [quote] @ w @ '' '' @ h @ [quote]"
| "line_text (Other l) = l"

fun line_ok :: "ppd_line \<Rightarrow> bool" where
  "line_ok (Paper choice label w h) \<longleftrightarrow>
     choice \<noteq> [] \<and> list_all (\<lambda>c. c \<noteq> CHR ''/'' \<and> c \<noteq> CHR '':'' \<and> \<not> is_space c) choice \<and>
     CHR '':'' \<notin> set label \<and> w \<noteq> [] \<and> list_all num_char w \<and> h \<noteq> [] \<and> list_all num_char h \<and>
     \<not> isl (py_float w) \<and> \<not> isl (py_float h)"
| "line_ok (Other l) \<longleftrightarrow> \<not> starts_with ''*PaperDimension'' l"

definition one_line :: "string \<Rightarrow> bool" where
  "one_line = list_all (\<lambda>c. (of_char c :: nat) \<noteq> 10 \<and> (of_char c :: nat) \<noteq> 13)"

fun line_paper :: "ppd_line \<Rightarrow> paper list" where
  "line_paper (Paper choice label w h) = [(choice, projr (py_float w), projr (py_float h))]"
| "line_paper (Other l) = []"

fun line_match :: "ppd_line \<Rightarrow> (string \<times> string \<times> string) list" where
  "line_match (Paper choice label w h) = [(choice, w, h)]"
| "line_match (Other l) = []"

lemma match_paper_line:
  assumes "line_ok (Paper choice label w h)"
  shows "match_paper True (line_text (Paper choice label w h) @ rest) = Some ((choice, w, h), rest)"
proof -
  have "many1 is_space ('' '' @ choice @ ''/'' @ r) = Some ('' '', choice @ ''/'' @ r)" for r
    using assms by (intro many1_run) (cases choice; simp)+
  moreover have "many1 (\<lambda>c. c \<noteq> CHR ''/'' \<and> c \<noteq> CHR '':'' \<and> \<not> is_space c) (choice @ ''/'' @ r) =
      Some (choice, ''/'' @ r)" for r
    using assms by (intro many1_run) simp_all
  moreover have "dropWhile (\<lambda>c. c \<noteq> CHR '':'') (''/'' @ label @ '':'' @ r) = '':'' @ r" for r
    using assms by simp
  moreover have "dropWhile is_space ('' '' @ [quote] @ r) = [quote] @ r" for r by simp
  moreover have "many1 num_char (w @ '' '' @ r) = Some (w, '' '' @ r)" for r
    using assms by (intro many1_run) simp_all
  moreover have "many1 is_space ('' '' @ h @ [quote] @ r) = Some ('' '', h @ [quote] @ r)" for r
    using assms space_not_num by (intro many1_run) (cases h; auto)+
  moreover have "many1 num_char (h @ [quote] @ r) = Some (h, [quote] @ r)" for r
    using assms by (intro many1_run) simp_all
  ultimately show ?thesis
    unfolding match_paper_def line_text.simps append_assoc by (simp only: lit_append bind.simps split_conv simp_thms if_False)
qed

lemma starts_with_line: "starts_with p (l @ c # r) \<Longrightarrow> c \<notin> set p \<Longrightarrow> starts_with p l"
proof (induction p arbitrary: l)
  case (Cons a p)
  then show ?case by (cases l) (auto simp: starts_with_def)
qed (simp add: starts_with_def)

lemma match_paper_other:
  assumes "line_ok (Other l)"
  shows "match_paper True (l @ char_of (10 :: nat) # rest) = None"
proof -
  have "char_of (10 :: nat) \<notin> set ''*PaperDimension''" by code_simp
  then have "lit ''*PaperDimension'' (l @ char_of (10 :: nat) # rest) = None"
    using assms starts_with_line unfolding lit_def line_ok.simps by (metis (full_types))
  then show ?thesis by (simp add: match_paper_def)
qed

lemma re_findall_match:
  assumes "f first s = Some (v, rest)" and "length rest < length s"
  shows "re_findall f first s = v # re_findall f False rest"
  using assms by (cases s) auto

lemma match_paper_first [simp]: "match_paper False s = None"
  by (simp add: match_paper_def)

lemma re_findall_paper:
  assumes "line_ok l" and "one_line (line_text l)"
  shows "re_findall match_paper True (line_text l @ char_of (10 :: nat) # rest) = line_match l @ re_findall match_paper True rest"
proof (cases l)
  case (Paper choice label w h)
  have "re_findall match_paper True (line_text l @ char_of (10 :: nat) # rest) =
      (choice, w, h) # re_findall match_paper False (char_of (10 :: nat) # rest)"
    using match_paper_line [of choice label w h "char_of (10 :: nat) # rest"] assms(1)
    unfolding Paper by (intro re_findall_match) simp_all
  then show ?thesis by (simp add: Paper)
next
  case (Other t)
  then show ?thesis
    using assms re_findall_line [of match_paper t rest] match_paper_other [of t rest]
    by (auto simp: one_line_def list_all_iff)
qed

lemma universal_newlines_lines:
  assumes "list_all (one_line \<circ> line_text) ls" and "eol \<in> {[char_of (10 :: nat)], [char_of (13 :: nat), char_of (10 :: nat)]}"
  shows "universal_newlines (concat (map (\<lambda>l. line_text l @ eol) ls)) = concat (map (\<lambda>l. line_text l @ [char_of (10 :: nat)]) ls)"
  using assms(1)
proof (induction ls)
  case (Cons l ls)
  then have "list_all (\<lambda>c. (of_char c :: nat) \<noteq> 13) (line_text l)" by (auto simp: one_line_def list_all_iff)
  then show ?case using universal_newlines_line [OF _ assms(2)] Cons by simp
qed simp

section \<open>Properties\<close>

text \<open>
  C36: The paper sizes that a driver lists are the ones that are read. For every description made of
  paper size lines and other lines, with either kind of line end, \<^verbatim>\<open>_paper_sizes\<close> answers exactly the
  listed sizes, in their order, with the choice that \<^verbatim>\<open>lp\<close> takes and the two lengths as numbers; labels
  and other lines leave no trace.
\<close>

theorem paper_sizes_exact:
  assumes "list_all line_ok ls" and "list_all (one_line \<circ> line_text) ls"
    and "eol \<in> {[char_of (10 :: nat)], [char_of (13 :: nat), char_of (10 :: nat)]}"
  shows "paper_sizes (Some (concat (map (\<lambda>l. line_text l @ eol) ls))) = Inr (concat (map line_paper ls))"
proof -
  have "re_findall match_paper True (concat (map (\<lambda>l. line_text l @ [char_of (10 :: nat)]) ls)) = concat (map line_match ls)"
    using assms(1,2) by (induction ls) (simp_all add: re_findall_paper)
  moreover have "map_result paper_of_match (concat (map line_match ls)) = Inr (concat (map line_paper ls))"
    using assms(1)
  proof (induction ls)
    case (Cons l ls)
    then show ?case
      by (cases l) (auto simp: paper_of_match_def dest: sum.collapse(2) split: sum.splits)
  qed simp
  ultimately show ?thesis
    using universal_newlines_lines [OF assms(2,3)] by (simp add: paper_sizes_def ppd_text_def)
qed

definition sample_lines :: "ppd_line list" where
  "sample_lines = [Other ''*PPD-Adobe: x'', Paper ''X58MMY210MM'' ''58mm x 210mm'' ''136.5'' ''595'', Other []]"

theorem paper_sizes_exact_witness:
  "paper_sizes (Some (concat (map (\<lambda>l. line_text l @ [char_of (13 :: nat), char_of (10 :: nat)]) sample_lines))) =
     Inr [(''X58MMY210MM'', 273 / 2, 595)]"
proof -
  have "list_all line_ok sample_lines" "list_all (one_line \<circ> line_text) sample_lines" by code_simp+
  moreover have "concat (map line_paper sample_lines) = [(''X58MMY210MM'', 273 / 2, 595)]" by code_simp
  ultimately show ?thesis using paper_sizes_exact [of sample_lines] by simp
qed

end
