(* ===== verification/Printer_Mac.thy ===== *)
theory Printer_Mac
  imports Printer_Base Escpos Ppd
begin

text \<open>
  The macOS backend, \<^verbatim>\<open>eres_print_agent/printing/macos.py\<close>. CUPS is a snapshot: what each command line
  answers, and the printer description files. The regular expressions over command output are
  written out as functions on strings.
\<close>

section \<open>Reading command output\<close>

definition py_contains :: "string \<Rightarrow> string \<Rightarrow> bool" where
  "py_contains needle s = list_ex (starts_with needle) (suffixes s)"

text \<open>\<^verbatim>\<open>\s*(\S+)\<close> at the start of the text.\<close>

definition next_word :: "string \<Rightarrow> string option" where
  "next_word s = (let w = takeWhile (\<lambda>c. \<not> is_space c) (dropWhile is_space s) in if w = [] then None else Some w)"

definition match_default :: "bool \<Rightarrow> string \<Rightarrow> string option" where
  "match_default first s =
     (if starts_with ''system default destination:'' s then next_word (drop 27 s) else None)"

definition match_device :: "bool \<Rightarrow> string \<Rightarrow> string option" where
  "match_device first s =
     (if first \<and> starts_with ''device for '' s
      then let (queue, found, rest) = partition_at (CHR '':'') (drop 11 s)
           in if found \<and> queue \<noteq> [] then next_word rest else None
      else None)"

record cups =
  cu_run :: "string list \<Rightarrow> completed_process result"
  cu_ppd :: "string \<Rightarrow> ppd_file" \<comment> \<open>\<^verbatim>\<open>_ppd_path(name)\<close>\<close>

definition printer_names :: "cups \<Rightarrow> string list result" where
  "printer_names e = bind_result (cu_run e [''lpstat'', ''-e'']) (\<lambda>r.
     Inr (if cp_returncode r \<noteq> 0 then []
          else filter (\<lambda>l. l \<noteq> []) (map py_strip (py_splitlines (cp_stdout r)))))"

definition default_printer :: "cups \<Rightarrow> string option result" where
  "default_printer e = bind_result (cu_run e [''lpstat'', ''-d'']) (\<lambda>r.
     Inr (re_search match_default True (cp_stdout r)))"

record details =
  det_state :: string
  det_description :: string
  det_interface :: string
  det_alerts :: string
  det_connection :: "string option"

definition add_detail :: "string \<Rightarrow> details \<Rightarrow> details" where
  "add_detail line d =
     (let (raw_key, _, raw_value) = partition_at (CHR '':'') (py_strip line);
          key = py_lower (py_strip raw_key); value = py_strip raw_value
      in if key = ''description'' then d\<lparr>det_description := value\<rparr>
         else if key = ''interface'' then d\<lparr>det_interface := value\<rparr>
         else if key = ''alerts'' then d\<lparr>det_alerts := value\<rparr>
         else if key = ''connection'' then d\<lparr>det_connection := Some value\<rparr>
         else d)"

definition printer_details :: "cups \<Rightarrow> string \<Rightarrow> details result" where
  "printer_details e name = bind_result (cu_run e [''lpstat'', ''-l'', ''-p'', name]) (\<lambda>r.
     let empty = \<lparr>det_state = [], det_description = [], det_interface = [], det_alerts = [], det_connection = None\<rparr>
     in Inr (case py_splitlines (cp_stdout r) of
               [] \<Rightarrow> empty
             | l # ls \<Rightarrow> fold add_detail ls (empty\<lparr>det_state := py_strip l\<rparr>)))"

definition device_uri :: "cups \<Rightarrow> string \<Rightarrow> string result" where
  "device_uri e name = bind_result (cu_run e [''lpstat'', ''-v'', name]) (\<lambda>r.
     Inr (case re_search match_device True (cp_stdout r) of None \<Rightarrow> [] | Some u \<Rightarrow> u))"

section \<open>USB printers\<close>

text \<open>The second part of \<^verbatim>\<open>line.split(None, 1)\<close>, if there is one.\<close>

definition second_part :: "string \<Rightarrow> string option" where
  "second_part line =
     (let rest = dropWhile is_space (dropWhile (\<lambda>c. \<not> is_space c) (dropWhile is_space line))
      in if rest = [] then None else Some rest)"

definition usb_uri_of_line :: "string \<Rightarrow> string option" where
  "usb_uri_of_line line =
     (case second_part line of
        None \<Rightarrow> None
      | Some p \<Rightarrow> if starts_with ''usb://'' (py_strip p) then Some (py_strip p) else None)"

definition attached_usb_uris :: "cups \<Rightarrow> string set option result" where
  "attached_usb_uris e =
     (case cu_run e [''lpinfo'', ''--include-schemes'', ''usb'', ''-v''] of
        Inl (OSError _) \<Rightarrow> Inr None
      | Inl (SubprocessError _) \<Rightarrow> Inr None
      | Inl x \<Rightarrow> Inl x
      | Inr r \<Rightarrow> Inr (if cp_returncode r \<noteq> 0 then None
                      else Some (set (List.map_filter usb_uri_of_line (py_splitlines (cp_stdout r))))))"

definition usb_base :: "string \<Rightarrow> string" where
  "usb_base uri = fst (partition_at (CHR ''?'') uri)"

definition usb_attached :: "string \<Rightarrow> string set option \<Rightarrow> bool" where
  "usb_attached uri attached =
     (case attached of
        None \<Rightarrow> True
      | Some us \<Rightarrow> if \<not> starts_with ''usb://'' uri then True
                   else uri \<in> us \<or> usb_base uri \<in> usb_base ` us)"

section \<open>Status\<close>

definition UNPLUGGED_DETAIL :: string where
  "UNPLUGGED_DETAIL = ''Not connected (unplugged or switched off)''"

definition status_from_state :: "string \<Rightarrow> PrinterStatus" where
  "status_from_state line =
     (let t = py_lower line
      in if py_contains ''disabled'' t
         then \<lparr>ps_online = False, ps_detail = ''Paused in macOS (resume it in Printers & Scanners)''\<rparr>
         else if py_contains ''not accepting'' t then \<lparr>ps_online = False, ps_detail = ''Not accepting jobs''\<rparr>
         else if py_contains ''now printing'' t then \<lparr>ps_online = True, ps_detail = ''Printing''\<rparr>
         else if py_contains ''idle'' t then \<lparr>ps_online = True, ps_detail = ''Ready''\<rparr>
         else \<lparr>ps_online = (line \<noteq> []), ps_detail = (if line = [] then ''Unknown'' else line)\<rparr>)"

text \<open>The status after the check for an unplugged USB printer, which is made only when CUPS calls the
  printer online.\<close>

definition plugged_status :: "cups \<Rightarrow> string set option result \<Rightarrow> string \<Rightarrow> details \<Rightarrow> PrinterStatus result" where
  "plugged_status e attached name d =
     (let status = status_from_state (det_state d)
      in if \<not> ps_online status then Inr status
         else bind_result (device_uri e name) (\<lambda>uri. bind_result attached (\<lambda>us.
                Inr (if usb_attached uri us then status
                     else \<lparr>ps_online = False, ps_detail = UNPLUGGED_DETAIL\<rparr>))))"

definition mac_printer :: "cups \<Rightarrow> string option \<Rightarrow> string set option \<Rightarrow> string \<Rightarrow> DiscoveredPrinter result" where
  "mac_printer e default_name attached name =
     bind_result (printer_details e name) (\<lambda>d. bind_result (plugged_status e (Inr attached) name d) (\<lambda>status.
     bind_result (paper_sizes (cu_ppd e name)) (\<lambda>sizes.
       let choices = map fst sizes
       in Inr \<lparr>dp_local_printer_id = name,
              dp_display_name = (if det_description d = []
                 then map (\<lambda>c. if c = CHR ''_'' then CHR '' '' else c) name else det_description d),
              dp_driver_name = None,
              dp_port_name = (case det_connection d of Some c \<Rightarrow> if c = [] then None else Some c | None \<Rightarrow> None),
              dp_is_default = (Some name = default_name), dp_color = None, dp_duplex = None,
              dp_paper_sizes = (if choices = [] then None else Some choices),
              dp_status_detail = Some (ps_detail status), dp_online = Some (ps_online status)\<rparr>)))"

definition mac_discover :: "cups \<Rightarrow> DiscoveredPrinter list result" where
  "mac_discover e = bind_result (default_printer e) (\<lambda>default_name.
     bind_result (attached_usb_uris e) (\<lambda>attached.
     bind_result (printer_names e) (\<lambda>names. map_result (mac_printer e default_name attached) names)))"

definition mac_get_status :: "cups \<Rightarrow> string \<Rightarrow> PrinterStatus result" where
  "mac_get_status e name = bind_result (printer_details e name) (\<lambda>d.
     if det_state d = [] then Inr \<lparr>ps_online = False, ps_detail = ''Printer not found on this Mac''\<rparr>
     else plugged_status e (attached_usb_uris e) name d)"

section \<open>Agreement of discovery and status\<close>

lemma status_from_empty: "\<not> ps_online (status_from_state [])"
  by (simp add: status_from_state_def py_lower_def py_contains_def starts_with_def)

interpretation mac: printer_manager "\<lambda>_. True" mac_discover mac_get_status
proof (unfold_locales, goal_cases)
  case (1 e ps p b st)
  then obtain d a names where "attached_usb_uris e = Inr a" "map_result (mac_printer e d a) names = Inr ps"
    by (auto simp: mac_discover_def)
  moreover from this(2) obtain name where "mac_printer e d a name = Inr p"
    using map_result_mem 1(3) by metis
  then obtain det status where det: "printer_details e name = Inr det"
    "plugged_status e (Inr a) name det = Inr status" "dp_local_printer_id p = name" "b = ps_online status"
    using 1(4) by (auto simp: mac_printer_def Let_def)
  ultimately show ?case
    using 1(5) status_from_empty by (auto simp: mac_get_status_def plugged_status_def Let_def split: if_splits)
qed

end
