(* ===== verification/Raster.thy ===== *)
theory Raster
  imports Escpos
begin

text \<open>
  The PDF rasteriser of \<^verbatim>\<open>eres_print_agent/printing/macos_raster.py\<close>. CoreGraphics and CoreFoundation are
  arguments: which objects can be created, the boxes of the pages, and the bytes that a list of
  drawing calls leaves in a bitmap. The model records which objects are created and released, in
  order, because ctypes leaves that to the code.
\<close>

section \<open>The libraries\<close>

record rect =
  r_x :: rat
  r_y :: rat
  r_w :: rat
  r_h :: rat

datatype ctx_call =
    SetGrayFillColor rat rat
  | FillRect rect
  | SetShouldAntialias bool
  | ScaleCTM rat rat
  | TranslateCTM rat rat
  | DrawPDFPage nat

datatype cg_object = Url | Document | ColorSpace | Context nat

datatype cg_event = Created cg_object | Released cg_object

text \<open>One page: its media box, the exception of allocating its buffer, if any, and whether the bitmap
  context can be created.\<close>

record cg_page =
  pg_box :: rect
  pg_alloc :: "py_error option"
  pg_context :: bool

record core_graphics =
  cg_libs :: "py_error option" \<comment> \<open>the exception of loading the libraries, if any\<close>
  cg_url :: bool
  cg_document :: bool
  cg_pages :: "cg_page list"
  cg_bitmap :: "nat \<Rightarrow> nat \<Rightarrow> ctx_call list \<Rightarrow> byte8 list" \<comment> \<open>the bitmap of a width and a height\<close>

text \<open>What the code relies on: a bitmap context writes one byte per pixel.\<close>

definition bitmaps_full :: "core_graphics \<Rightarrow> bool" where
  "bitmaps_full g \<longleftrightarrow> (\<forall>w h calls. length (cg_bitmap g w h calls) = w * h)"

section \<open>Rendering\<close>

type_synonym gray_page = "byte8 list \<times> nat \<times> nat"

definition page_scale :: "nat \<Rightarrow> rect \<Rightarrow> rat" where
  "page_scale width_px box = fl (fl (of_nat width_px) / r_w box)"

definition page_height :: "nat \<Rightarrow> rect \<Rightarrow> nat" where
  "page_height width_px box = nat (max 1 (round_half_even (fl (r_h box * page_scale width_px box))))"

definition page_calls :: "nat \<Rightarrow> nat \<Rightarrow> rect \<Rightarrow> ctx_call list" where
  "page_calls width_px number box =
     [SetGrayFillColor 1 1,
      FillRect \<lparr>r_x = 0, r_y = 0, r_w = of_nat width_px, r_h = of_nat (page_height width_px box)\<rparr>,
      SetShouldAntialias False,
      ScaleCTM (page_scale width_px box) (page_scale width_px box),
      TranslateCTM (- r_x box) (- r_y box),
      DrawPDFPage number]"

text \<open>The body of the loop for one page; a page without an area is skipped.\<close>

definition render_page :: "core_graphics \<Rightarrow> nat \<Rightarrow> nat \<Rightarrow> cg_page \<Rightarrow> cg_event list \<times> gray_page option result" where
  "render_page g width_px number page =
     (let box = pg_box page; height_px = page_height width_px box
      in if r_w box \<le> 0 \<or> r_h box \<le> 0 then ([], Inr None)
         else case pg_alloc page of
                Some e \<Rightarrow> ([], Inl e)
              | None \<Rightarrow>
                  if \<not> pg_context page then ([], Inl (RuntimeError ''Could not create a bitmap''))
                  else ([Created (Context number), Released (Context number)],
                        Inr (Some (cg_bitmap g width_px height_px (page_calls width_px number box),
                                   width_px, height_px))))"

fun render_pages :: "core_graphics \<Rightarrow> nat \<Rightarrow> nat \<Rightarrow> cg_page list \<Rightarrow> cg_event list \<times> gray_page list result" where
  "render_pages g width_px number [] = ([], Inr [])"
| "render_pages g width_px number (p # ps) =
     (case render_page g width_px number p of
        (es, Inl e) \<Rightarrow> (es, Inl e)
      | (es, Inr q) \<Rightarrow>
          (case render_pages g width_px (number + 1) ps of
             (es', r) \<Rightarrow> (es @ es', bind_result r (\<lambda>qs. Inr (case q of None \<Rightarrow> qs | Some x \<Rightarrow> x # qs)))))"

definition render_pdf_gray :: "core_graphics \<Rightarrow> nat \<Rightarrow> cg_event list \<times> gray_page list result" where
  "render_pdf_gray g width_px =
     (case cg_libs g of
        Some e \<Rightarrow> ([], Inl e)
      | None \<Rightarrow>
          if \<not> cg_url g then ([], Inl (RuntimeError ''Could not open the PDF''))
          else if \<not> cg_document g
          then ([Created Url, Released Url], Inl (RuntimeError ''Could not read the PDF''))
          else (case render_pages g width_px 1 (cg_pages g) of
                  (es, r) \<Rightarrow>
                    ([Created Url, Created Document, Released Url, Created ColorSpace] @ es @
                     [Released ColorSpace, Released Document], r)))"

section \<open>Lemmas\<close>

text \<open>The objects that are alive after a list of events, or \<^term>\<open>None\<close> if one was released that was not
  alive.\<close>

fun alive :: "cg_object list \<Rightarrow> cg_event list \<Rightarrow> cg_object list option" where
  "alive live [] = Some live"
| "alive live (Created x # es) = alive (x # live) es"
| "alive live (Released x # es) = (if x \<in> set live then alive (remove1 x live) es else None)"

lemma alive_append: "alive live (es @ es') = Option.bind (alive live es) (\<lambda>l. alive l es')"
  by (induction live es rule: alive.induct) auto

definition has_area :: "cg_page \<Rightarrow> bool" where
  "has_area p \<longleftrightarrow> 0 < r_w (pg_box p) \<and> 0 < r_h (pg_box p)"

definition page_ok :: "nat \<Rightarrow> gray_page \<Rightarrow> bool" where
  "page_ok width_px = (\<lambda>(gray, w, h). w = width_px \<and> 1 \<le> h \<and> length gray = w * h)"

lemma render_page_alive: "alive live (fst (render_page g w n p)) = Some live"
  by (auto simp: render_page_def Let_def split: option.splits)

lemma render_pages_alive: "alive live (fst (render_pages g w n ps)) = Some live"
proof (induction ps arbitrary: n)
  case (Cons p ps)
  show ?case
    using render_page_alive [of live g w n p] Cons [of "Suc n"]
    by (auto simp: alive_append split: prod.splits sum.splits)
qed simp

lemma render_page_ok:
  assumes "bitmaps_full g" and "render_page g w n p = (es, Inr q)"
  shows "(q = None \<longleftrightarrow> \<not> has_area p) \<and> (\<forall>x. q = Some x \<longrightarrow> page_ok w x)"
  using assms
  by (auto simp: render_page_def has_area_def page_ok_def page_height_def bitmaps_full_def Let_def
      split: option.splits if_splits)

lemma render_pages_ok:
  assumes "bitmaps_full g" and "render_pages g w n ps = (es, Inr qs)"
  shows "list_all (page_ok w) qs \<and> length qs = length (filter has_area ps)"
  using assms(2)
proof (induction ps arbitrary: n es qs)
  case (Cons p ps)
  from Cons.prems obtain es1 q es2 rs where q: "render_page g w n p = (es1, Inr q)"
    "render_pages g w (n + 1) ps = (es2, Inr rs)" "qs = (case q of None \<Rightarrow> rs | Some x \<Rightarrow> x # rs)"
    by (auto split: prod.splits sum.splits)
  from Cons.IH [OF q(2)] render_page_ok [OF assms(1) q(1)] q(3) show ?case
    by (auto split: option.splits)
qed simp

section \<open>Properties\<close>


definition white_pages :: "cg_page list \<Rightarrow> core_graphics" where
  "white_pages ps = \<lparr>cg_libs = None, cg_url = True, cg_document = True, cg_pages = ps,
     cg_bitmap = (\<lambda>w h _. replicate (w * h) 255)\<rparr>"

definition letter_page :: cg_page where
  "letter_page = \<lparr>pg_box = \<lparr>r_x = 0, r_y = 0, r_w = 612, r_h = 792\<rparr>, pg_alloc = None, pg_context = True\<rparr>"


end
