(* ===== verification/Mac_Print.thy ===== *)
theory Mac_Print
  imports Printer_Mac Raster
begin

text \<open>
  Printing on macOS, the second half of \<^verbatim>\<open>eres_print_agent/printing/macos.py\<close>: the choice of a paper
  size for roll printers, the recognition of ESC/POS receipt printers, and \<^verbatim>\<open>MacPrinterManager.print\<close>
  with its raw attempt and its fall-back to the driver. A paper size is a name with a width and a
  height in points; a custom size range is the maximal width with the minimal and the maximal
  height.
\<close>

definition ROLL_RATIO :: rat where "ROLL_RATIO = 3"
definition MAX_RECEIPT_WIDTH_PT :: rat where "MAX_RECEIPT_WIDTH_PT = 230"

section \<open>Paper for roll printers\<close>

definition is_roll :: "rat \<Rightarrow> paper \<Rightarrow> bool" where
  "is_roll ratio = (\<lambda>(_, width, height). width > 0 \<and> fl (height / width) \<ge> ratio)"

text \<open>The height of the page once it is scaled down to the width of the paper.\<close>

definition scaled_height :: "rat \<times> rat \<Rightarrow> rat \<Rightarrow> rat" where
  "scaled_height page width = fl (snd page * min 1 (fl (width / fst page)))"

definition custom_height :: "rat \<times> rat \<times> rat \<Rightarrow> rat \<times> rat \<Rightarrow> rat" where
  "custom_height custom page =
     (case custom of (width, lo, hi) \<Rightarrow> max lo (min hi (scaled_height page width)))"

definition custom_roll_media ::
  "paper list \<Rightarrow> (rat \<times> rat \<times> rat) option \<Rightarrow> (rat \<times> rat) option \<Rightarrow> string option result" where
  "custom_roll_media sizes custom page =
     (case (custom, page) of
        (Some (width, lo, hi), Some p) \<Rightarrow>
          if fst p \<le> 0 then Inr None
          else if \<not> list_ex (is_roll ROLL_RATIO) sizes \<and> width = 0 then Inl ZeroDivisionError
          else if list_ex (is_roll ROLL_RATIO) sizes \<or> fl (hi / width) \<ge> ROLL_RATIO
          then Inr (Some (''Custom.'' @ int_digits (round_half_even width) @ ''x'' @
                          int_digits \<lceil>custom_height (width, lo, hi) p\<rceil>))
          else Inr None
      | _ \<Rightarrow> Inr None)"

definition roll_media_for :: "paper list \<Rightarrow> (rat \<times> rat) option \<Rightarrow> string option" where
  "roll_media_for sizes page =
     (let rolls = sort_key (\<lambda>(_, _, height). height) (filter (is_roll ROLL_RATIO) sizes)
      in if rolls = [] then None
         else case page of
                None \<Rightarrow> Some (fst (hd rolls))
              | Some p \<Rightarrow>
                  if fst p \<le> 0 then Some (fst (hd rolls))
                  else (case find (\<lambda>(_, width, height). scaled_height p width \<le> height) rolls of
                          Some (choice, _) \<Rightarrow> Some choice
                        | None \<Rightarrow> Some (fst (last rolls))))"

section \<open>Receipt printers\<close>

definition header_keys :: "string list" where
  "header_keys = [''*Manufacturer:'', ''*ModelName:'', ''*NickName:'', ''*cupsFilter2:'', ''*cupsFilter:'']"

text \<open>One match of the header expression at this position: the quoted value and what follows it.\<close>

definition match_header :: "bool \<Rightarrow> string \<Rightarrow> (string \<times> string) option" where
  "match_header first s =
     (case (if first then find (\<lambda>k. starts_with k s) header_keys else None) of
        None \<Rightarrow> None
      | Some k \<Rightarrow>
          (case dropWhile is_space (drop (length k) s) of
             [] \<Rightarrow> None
           | c # cs \<Rightarrow> if (of_char c :: nat) = 34
               then (case partition_at (char_of (34 :: nat)) cs of
                       (value, True, rest) \<Rightarrow> Some (value, rest)
                     | _ \<Rightarrow> None)
               else None))"

definition header_values :: "string \<Rightarrow> string list" where
  "header_values ppd = re_findall match_header True ppd"

definition is_word_char :: "char \<Rightarrow> bool" where
  "is_word_char c \<longleftrightarrow> is_ascii_alpha c \<or> is_digit_char c \<or> c = CHR ''_'' \<or>
     (let n = (of_char c :: nat) in n \<in> {170, 178, 179, 181, 185, 186, 188, 189, 190} \<or> n \<ge> 192 \<and> n \<noteq> 215 \<and> n \<noteq> 247)"

fun tsc_word :: "bool \<Rightarrow> string \<Rightarrow> bool" where
  "tsc_word after_word [] = False"
| "tsc_word after_word (c # cs) \<longleftrightarrow>
     (\<not> after_word \<and> starts_with ''tsc'' (c # cs) \<and>
        (case drop 3 (c # cs) of [] \<Rightarrow> True | d # _ \<Rightarrow> \<not> is_word_char d))
     \<or> tsc_word (is_word_char c) cs"

definition not_escpos :: "string \<Rightarrow> bool" where
  "not_escpos header =
     (let h = py_lower header
      in list_ex (\<lambda>w. py_contains w h)
           [''zebra'', ''dymo'', ''rollo'', ''godex'', ''brother'', ''label'', ''zpl'', ''epl'']
         \<or> tsc_word False h)"

definition match_resolution :: "bool \<Rightarrow> string \<Rightarrow> int option" where
  "match_resolution first s =
     (if first \<and> starts_with ''*DefaultResolution:'' s
      then let ds = takeWhile is_digit_char (dropWhile is_space (drop 19 s))
           in if ds = [] then None else Some (digits_value ds)
      else None)"

definition default_dpi :: "string \<Rightarrow> int" where
  "default_dpi ppd = (case re_search match_resolution True ppd of None \<Rightarrow> 203 | Some d \<Rightarrow> d)"

definition receipt_rolls :: "paper list \<Rightarrow> (rat \<times> rat \<times> rat) option \<Rightarrow> rat list" where
  "receipt_rolls sizes custom =
     map (\<lambda>(_, width, _). width) (filter (is_roll (5 / 2)) sizes) @
     (case custom of
        None \<Rightarrow> []
      | Some (width, _, hi) \<Rightarrow> if width > 0 \<and> fl (hi / width) \<ge> ROLL_RATIO then [width] else [])"

definition escpos_width_dots ::
  "string \<Rightarrow> paper list \<Rightarrow> (rat \<times> rat \<times> rat) option \<Rightarrow> int option" where
  "escpos_width_dots ppd sizes custom =
     (if ppd = [] then None
      else if not_escpos (py_join '' '' (header_values ppd)) then None
      else let rolls = receipt_rolls sizes custom
           in if rolls = [] then None
              else let width_pt = Max (set rolls)
                   in if width_pt > MAX_RECEIPT_WIDTH_PT then None
                      else Some (max 8 (round_half_even
                             (fl (fl (fl (width_pt / 72) * fl (of_int (default_dpi ppd))) / 8)) * 8)))"

definition page_rows :: "gray_page \<Rightarrow> byte8 list list result" where
  "page_rows = (\<lambda>(gray, w, h). gray_to_rows gray w h 128)"

definition page_ink :: "gray_page \<Rightarrow> byte8 list list result" where
  "page_ink p = bind_result (page_rows p) (\<lambda>rows. Inr (trim_blank_rows rows))"

definition build_escpos_receipt :: "gray_page list result \<Rightarrow> int \<Rightarrow> byte8 list result" where
  "build_escpos_receipt pages dpi = bind_result pages (\<lambda>ps.
     bind_result (map_result page_ink ps)
       (\<lambda>rs. let rows = concat rs
             in if rows = [] then Inl (RuntimeError ''The receipt is blank'')
                else build_escpos_job rows (mm_to_dots DEFAULT_PAD_MM dpi) FEED_LINES True))"

section \<open>Printing\<close>

text \<open>What \<^verbatim>\<open>print\<close> finds on the machine: the description of the printer, the bytes of the document and
  CoreGraphics over it, and whether the raw file can be written and removed.\<close>

record mac_job =
  mj_ppd :: ppd_file
  mj_pdf :: "string option"
  mj_cg :: core_graphics
  mj_write_fails :: bool
  mj_unlink_fails :: bool

definition lp_args :: "string \<Rightarrow> int \<Rightarrow> string list" where
  "lp_args name copies = [''lp'', ''-d'', name, ''-n'', int_digits (max 1 copies)]"

text \<open>The body of the \<^verbatim>\<open>try\<close>: the commands run, and whether \<^verbatim>\<open>print\<close> returns there.\<close>

definition raw_attempt ::
  "(string list \<Rightarrow> completed_process result) \<Rightarrow> mac_job \<Rightarrow> int \<Rightarrow> string \<Rightarrow> string \<Rightarrow> int \<Rightarrow> string list list \<times> bool" where
  "raw_attempt run mj width_dots name path copies =
     (case build_escpos_receipt (snd (render_pdf_gray (mj_cg mj) (nat width_dots))) (default_dpi (ppd_text (mj_ppd mj))) of
        Inl _ \<Rightarrow> ([], False)
      | Inr data \<Rightarrow>
          if mj_write_fails mj then ([], False)
          else let args = lp_args name copies @ [''-o'', ''raw'', path @ ''.escpos'']
               in ([args], \<not> mj_unlink_fails mj \<and>
                     (case run args of Inl _ \<Rightarrow> False | Inr r \<Rightarrow> cp_returncode r = 0)))"

definition driver_media :: "mac_job \<Rightarrow> paper list \<Rightarrow> (rat \<times> rat \<times> rat) option \<Rightarrow> string option result" where
  "driver_media mj sizes custom =
     bind_result (pdf_page_size (mj_pdf mj)) (\<lambda>page. bind_result (custom_roll_media sizes custom page) (\<lambda>m.
       Inr (if py_truthy m then m else roll_media_for sizes page)))"

definition driver_args :: "string option \<Rightarrow> string \<Rightarrow> string \<Rightarrow> int \<Rightarrow> string list" where
  "driver_args media name path copies =
     lp_args name copies @
     (if py_truthy media then [''-o'', ''media='' @ the media, ''-o'', ''fit-to-page''] else []) @ [path]"

definition lp_failure :: "completed_process \<Rightarrow> string" where
  "lp_failure r =
     (let message = py_strip (if cp_stderr r \<noteq> [] then cp_stderr r else cp_stdout r)
      in ''macOS print failed: '' @
         (if message \<noteq> [] then message else ''lp exited '' @ int_digits (cp_returncode r)))"

definition driver_print ::
  "(string list \<Rightarrow> completed_process result) \<Rightarrow> mac_job \<Rightarrow> paper list \<Rightarrow> (rat \<times> rat \<times> rat) option \<Rightarrow> string \<Rightarrow> string \<Rightarrow> int \<Rightarrow> string list list \<times> unit result" where
  "driver_print run mj sizes custom name path copies =
     (case driver_media mj sizes custom of
        Inl e \<Rightarrow> ([], Inl e)
      | Inr media \<Rightarrow>
          let args = driver_args media name path copies
          in ([args], case run args of
                Inl e \<Rightarrow> Inl e
              | Inr r \<Rightarrow> if cp_returncode r \<noteq> 0 then Inl (RuntimeError (lp_failure r)) else Inr ()))"

text \<open>\<^verbatim>\<open>print\<close> reads the description first, and an exception there leaves it before any command is run.\<close>

definition mac_print ::
  "(string list \<Rightarrow> completed_process result) \<Rightarrow> mac_job \<Rightarrow> string \<Rightarrow> string \<Rightarrow> int \<Rightarrow> string list list \<times> unit result" where
  "mac_print run mj name path copies =
     (case paper_sizes (mj_ppd mj) of
        Inl e \<Rightarrow> ([], Inl e)
      | Inr sizes \<Rightarrow>
          (case custom_size_range (mj_ppd mj) of
             Inl e \<Rightarrow> ([], Inl e)
           | Inr custom \<Rightarrow>
               (let (raw, done) = (case escpos_width_dots (ppd_text (mj_ppd mj)) sizes custom of
                                     None \<Rightarrow> ([], False)
                                   | Some width_dots \<Rightarrow> raw_attempt run mj width_dots name path copies)
                in if done then (raw, Inr ())
                   else case driver_print run mj sizes custom name path copies of (cmds, res) \<Rightarrow> (raw @ cmds, res))))"

section \<open>Lemmas\<close>

lemma find_sorted:
  assumes "sorted (map k xs)" and "find P xs = Some x"
  shows "x \<in> set xs \<and> P x \<and> (\<forall>y \<in> set xs. P y \<longrightarrow> k x \<le> k y)"
  using assms by (induction xs) (auto split: if_splits)

lemma lp_args_take [simp]: "length (lp_args name copies) = 5" "take 5 (lp_args name copies) = lp_args name copies"
  by (simp_all add: lp_args_def)

section \<open>Properties\<close>

text \<open>
  The paper chosen for a roll printer. For a page of positive width, \<^verbatim>\<open>roll_media_for\<close> answers
  nothing exactly when the printer has no roll; otherwise it answers one of the roll sizes, and if
  the scaled page fits on any roll, then it fits on the answer and no shorter roll would do.
\<close>

theorem roll_media_shortest:
  assumes "0 < fst p"
  shows "(roll_media_for sizes (Some p) = None \<longleftrightarrow> \<not> list_ex (is_roll ROLL_RATIO) sizes) \<and>
    (\<forall>c. roll_media_for sizes (Some p) = Some c \<longrightarrow>
      (\<exists>w h. (c, w, h) \<in> set sizes \<and> is_roll ROLL_RATIO (c, w, h) \<and>
        (\<forall>c' w' h'. (c', w', h') \<in> set sizes \<and> is_roll ROLL_RATIO (c', w', h') \<and> scaled_height p w' \<le> h' \<longrightarrow>
           scaled_height p w \<le> h \<and> h \<le> h')))"
proof -
  let ?k = "\<lambda>(_ :: string, _ :: rat, height :: rat). height"
  let ?rolls = "sort_key ?k (filter (is_roll ROLL_RATIO) sizes)"
  let ?fits = "\<lambda>(_ :: string, width, height). scaled_height p width \<le> height"
  have mem: "set ?rolls = {s \<in> set sizes. is_roll ROLL_RATIO s}" by simp
  have none: "roll_media_for sizes (Some p) = None \<longleftrightarrow> ?rolls = []"
    using assms by (auto simp: roll_media_for_def Let_def split: option.splits)
  show ?thesis
  proof (cases "?rolls = []")
    case True
    with none mem show ?thesis by (auto simp: list_ex_iff)
  next
    case False
    have "\<exists>x \<in> set ?rolls. roll_media_for sizes (Some p) = Some (fst x) \<and>
        (\<forall>y \<in> set ?rolls. ?fits y \<longrightarrow> ?fits x \<and> ?k x \<le> ?k y)"
    proof (cases "find ?fits ?rolls")
      case None
      then have "\<forall>y \<in> set ?rolls. \<not> ?fits y" by (simp only: find_None_iff) blast
      moreover have "roll_media_for sizes (Some p) = Some (fst (last ?rolls))"
        using None False assms by (simp add: roll_media_for_def Let_def)
      ultimately show ?thesis using last_in_set [OF False] by blast
    next
      case (Some x)
      have "roll_media_for sizes (Some p) = Some (fst x)"
        using Some False assms by (cases x) (simp add: roll_media_for_def Let_def)
      moreover have "x \<in> set ?rolls \<and> ?fits x \<and> (\<forall>y \<in> set ?rolls. ?fits y \<longrightarrow> ?k x \<le> ?k y)"
        using find_sorted [OF _ Some, of ?k] by simp
      ultimately show ?thesis by blast
    qed
    then obtain c w h where x: "(c, w, h) \<in> set ?rolls" "roll_media_for sizes (Some p) = Some c"
      "\<forall>y \<in> set ?rolls. ?fits y \<longrightarrow> scaled_height p w \<le> h \<and> h \<le> ?k y" by auto
    have "list_ex (is_roll ROLL_RATIO) sizes" using x(1) mem by (auto simp: list_ex_iff)
    moreover have "(c, w, h) \<in> set sizes" "is_roll ROLL_RATIO (c, w, h)" using x(1) mem by auto
    moreover have "scaled_height p w \<le> h \<and> h \<le> h'"
      if "(c', w', h') \<in> set sizes" "is_roll ROLL_RATIO (c', w', h')" "scaled_height p w' \<le> h'" for c' w' h'
      using x(3) that mem by fastforce
    ultimately show ?thesis using x(2) none False by (metis option.inject)
  qed
qed

lemma sample_rolls:
  "roll_media_for [(''A4'', 595, 842), (''long'', 100, 1000), (''short'', 100, 400)] (Some (200, 300)) = Some ''short''"
  by code_simp

theorem roll_media_shortest_witness:
  "\<exists>w h. (''short'', w, h) \<in> set [(''A4'', 595, 842), (''long'', 100, 1000), (''short'', 100, 400 :: rat)] \<and>
     is_roll ROLL_RATIO (''short'', w, h)"
  using roll_media_shortest [of "(200, 300)" "[(''A4'', 595, 842), (''long'', 100, 1000), (''short'', 100, 400)]"]
    sample_rolls by simp

text \<open>
  The width of an ESC/POS bitmap is a positive whole number of bytes, and it is given only for a
  printer whose widest roll is at most receipt width.
\<close>

theorem escpos_width_whole_bytes:
  assumes "escpos_width_dots ppd sizes custom = Some d"
  shows "8 \<le> d \<and> 8 dvd d \<and> receipt_rolls sizes custom \<noteq> [] \<and>
    list_all (\<lambda>w. w \<le> MAX_RECEIPT_WIDTH_PT) (receipt_rolls sizes custom) \<and>
    \<not> not_escpos (py_join '' '' (header_values ppd))"
proof -
  have r: "receipt_rolls sizes custom \<noteq> []" "\<not> MAX_RECEIPT_WIDTH_PT < Max (set (receipt_rolls sizes custom))"
    "\<not> not_escpos (py_join '' '' (header_values ppd))"
    using assms by (auto simp: escpos_width_dots_def Let_def split: if_splits)
  obtain n where "d = max 8 (n * 8)"
    using assms by (auto simp: escpos_width_dots_def Let_def split: if_splits)
  then have "8 \<le> d \<and> 8 dvd d" by (auto simp: max_def)
  moreover have "list_all (\<lambda>w. w \<le> MAX_RECEIPT_WIDTH_PT) (receipt_rolls sizes custom)"
    unfolding list_all_iff using r(2) Max_ge [OF finite_set, of _ "receipt_rolls sizes custom"]
    by (meson not_less order_trans)
  ultimately show ?thesis using r by blast
qed

definition receipt_ppd :: string where
  "receipt_ppd = ''*NickName: '' @ [char_of (34 :: nat)] @ ''POS-58'' @ [char_of (34 :: nat)] @ [char_of (10 :: nat)] @
     ''*DefaultResolution: 203dpi''"

lemma receipt_width: "escpos_width_dots receipt_ppd [] (Some (136, 100, 2000)) = Some 384"
  by code_simp

theorem escpos_width_whole_bytes_witness:
  "escpos_width_dots receipt_ppd [] (Some (136, 100, 2000)) = Some 384 \<and> (8 :: int) dvd 384"
  using escpos_width_whole_bytes [OF receipt_width] receipt_width by simp


text \<open>A receipt printer: a description with a custom size range, and a document of one black page.\<close>

definition roll_ppd :: string where
  "roll_ppd = receipt_ppd @ [char_of (10 :: nat)] @ ''*CustomPageSize True'' @ [char_of (10 :: nat)] @
     ''*ParamCustomPageSize Width: 1 points 1 3'' @ [char_of (10 :: nat)] @
     ''*ParamCustomPageSize Height: 2 points 1 2000''"

definition black_page :: core_graphics where
  "black_page = \<lparr>cg_libs = None, cg_url = True, cg_document = True,
     cg_pages = [\<lparr>pg_box = \<lparr>r_x = 0, r_y = 0, r_w = 8, r_h = 1\<rparr>, pg_alloc = None, pg_context = True\<rparr>],
     cg_bitmap = (\<lambda>w h _. replicate (w * h) 0)\<rparr>"

definition receipt_job :: mac_job where
  "receipt_job = \<lparr>mj_ppd = Some roll_ppd, mj_pdf = None, mj_cg = black_page, mj_write_fails = False,
     mj_unlink_fails = False\<rparr>"

definition lp_accepts :: "string list \<Rightarrow> completed_process result" where
  "lp_accepts args = Inr \<lparr>cp_returncode = 0, cp_stdout = [], cp_stderr = []\<rparr>"


text \<open>
  A receipt can be printed twice by one \<^verbatim>\<open>print\<close>. When the raw \<^verbatim>\<open>lp\<close> command does not return in time
  (or the raw file cannot be removed afterwards), the exception is swallowed and the driver's \<^verbatim>\<open>lp\<close>
  is run as well, although CUPS may already have taken the raw job.
\<close>

theorem raw_timeout_prints_again:
  assumes "paper_sizes (mj_ppd mj) = Inr sizes" and "custom_size_range (mj_ppd mj) = Inr custom"
    and "escpos_width_dots (ppd_text (mj_ppd mj)) sizes custom = Some d"
    and "build_escpos_receipt (snd (render_pdf_gray (mj_cg mj) (nat d))) (default_dpi (ppd_text (mj_ppd mj))) = Inr data"
    and "\<not> mj_write_fails mj" and "driver_media mj sizes custom = Inr media"
    and "run (lp_args name copies @ [''-o'', ''raw'', path @ ''.escpos'']) = Inl e \<or> mj_unlink_fails mj"
  shows "fst (mac_print run mj name path copies) =
    [lp_args name copies @ [''-o'', ''raw'', path @ ''.escpos''], driver_args media name path copies]"
  using assms by (auto simp: mac_print_def raw_attempt_def driver_print_def Let_def split: sum.splits)

definition lp_times_out :: "string list \<Rightarrow> completed_process result" where
  "lp_times_out args = Inl (SubprocessError ''timed out'')"

lemma receipt_job_reads:
  "paper_sizes (mj_ppd receipt_job) = Inr []" "custom_size_range (mj_ppd receipt_job) = Inr (Some (3, 1, 2000))"
  "escpos_width_dots (ppd_text (mj_ppd receipt_job)) [] (Some (3, 1, 2000)) = Some 8"
  "default_dpi (ppd_text (mj_ppd receipt_job)) = 203"
  by code_simp+

theorem raw_timeout_prints_again_witness:
  "length (fst (mac_print lp_times_out receipt_job ''p'' ''f'' 2)) = 2"
proof -
  have "\<not> isl (build_escpos_receipt (snd (render_pdf_gray black_page (nat 8))) 203)" by code_simp
  then obtain data where
    data: "build_escpos_receipt (snd (render_pdf_gray (mj_cg receipt_job) (nat 8))) (default_dpi (ppd_text (mj_ppd receipt_job))) = Inr data"
    unfolding receipt_job_reads by (auto simp: receipt_job_def isl_def) (metis sum.exhaust)
  have "driver_media receipt_job [] (Some (3, 1, 2000)) = Inr None"
    by (simp add: driver_media_def receipt_job_def pdf_page_size_def custom_roll_media_def py_truthy_def roll_media_for_def)
  then show ?thesis
    using raw_timeout_prints_again [OF receipt_job_reads(1-3) data, of None lp_times_out "''p''" 2 "''f''"]
    by (simp add: receipt_job_def lp_times_out_def)
qed

section \<open>From the document to the paper\<close>

lemma page_rows_ok:
  assumes "page_ok width_px p"
  shows "\<exists>rows. page_rows p = Inr rows \<and> (\<forall>r \<in> set rows. length r = (width_px + 7) div 8)"
proof -
  obtain gray h where p: "p = (gray, width_px, h)" "1 \<le> h" "length gray = width_px * h"
    using assms by (auto simp: page_ok_def)
  then obtain rows where "page_rows p = Inr rows" by (auto simp: page_rows_def gray_to_rows_def)
  with p show ?thesis using gray_to_rows_widths by (auto simp: page_rows_def)
qed

lemma trim_subset: "set (trim_blank_rows rows) \<subseteq> set rows"
  by (auto simp: trim_blank_rows_def Let_def dest: in_set_dropD in_set_takeD)

lemma pages_rows_ok:
  assumes "list_all (page_ok width_px) pages"
  shows "\<exists>rss. map_result page_rows pages = Inr rss \<and>
    map_result page_ink pages = Inr (map trim_blank_rows rss) \<and>
    (\<forall>r \<in> set (concat (map trim_blank_rows rss)). length r = (width_px + 7) div 8)"
  using assms
proof (induction pages)
  case (Cons p pages)
  then obtain rows rss where rows: "page_rows p = Inr rows" "\<forall>r \<in> set rows. length r = (width_px + 7) div 8"
    "map_result page_rows pages = Inr rss"
    "map_result page_ink pages = Inr (map trim_blank_rows rss)"
    "\<forall>r \<in> set (concat (map trim_blank_rows rss)). length r = (width_px + 7) div 8"
    using page_rows_ok [of width_px p] by auto
  have "\<forall>r \<in> set (trim_blank_rows rows). length r = (width_px + 7) div 8" using rows(2) trim_subset by blast
  moreover have "page_ink p = Inr (trim_blank_rows rows)" using rows(1) by (simp add: page_ink_def)
  ultimately show ?case using rows by auto
qed simp



end
