(* ===== verification/Printer_Windows.thy ===== *)
theory Printer_Windows
  imports Printer_Base "HOL-Library.Word"
begin

text \<open>
  The Windows backend, \<^verbatim>\<open>eres_print_agent/printing/windows.py\<close>. The print spooler is a snapshot: what
  \<^verbatim>\<open>win32print\<close> answers when it is asked for the default printer, the list of printers and one
  printer. Status and attribute words are DWORDs. Printing starts the bundled PDF helper; running
  a command is an argument.
\<close>

unbundle bit_operations_syntax

section \<open>The spooler\<close>

text \<open>\<^verbatim>\<open>dm_color\<close> and \<^verbatim>\<open>dm_duplex\<close> are absent when the device mode lacks the attribute.\<close>

record dev_mode =
  dm_color :: "int option"
  dm_duplex :: "int option"

text \<open>A \<^verbatim>\<open>PRINTER_INFO_2\<close>; absent members are members that \<^verbatim>\<open>dict.get\<close> does not find.\<close>

record printer_info =
  pi_name :: string
  pi_driver :: "string option"
  pi_port :: "string option"
  pi_status :: "32 word option"
  pi_attributes :: "32 word option"
  pi_devmode :: "dev_mode option"

record spooler =
  sl_available :: bool \<comment> \<open>\<^verbatim>\<open>win32print\<close> was imported\<close>
  sl_default :: "string result"
  sl_enum :: "printer_info list result"
  sl_open :: "string \<Rightarrow> py_error option" \<comment> \<open>the exception of \<^verbatim>\<open>OpenPrinter\<close>, if it raises\<close>
  sl_info :: "string \<Rightarrow> printer_info result" \<comment> \<open>\<^verbatim>\<open>GetPrinter\<close> on the opened printer\<close>
  sl_error_text :: "py_error \<Rightarrow> string"

definition require_win32print :: "spooler \<Rightarrow> unit result" where
  "require_win32print e =
     (if sl_available e then Inr () else Inl (RuntimeError (''pywin32 is not available -- WindowsPrinterManager can only run on Windows '' @
        ''with the 'windows' extra installed (pip install .[windows]).'')))"

section \<open>Status words\<close>

definition OFFLINE_STATUS_BITS :: "(string \<times> 32 word) list" where
  "OFFLINE_STATUS_BITS =
     [(''PRINTER_STATUS_OFFLINE'', 0x00000080), (''PRINTER_STATUS_ERROR'', 0x00000002),
      (''PRINTER_STATUS_NOT_AVAILABLE'', 0x00001000), (''PRINTER_STATUS_NO_TONER'', 0x00040000),
      (''PRINTER_STATUS_PAPER_OUT'', 0x00000010), (''PRINTER_STATUS_PAPER_JAM'', 0x00000008),
      (''PRINTER_STATUS_DOOR_OPEN'', 0x00400000)]"

definition PRINTER_ATTRIBUTE_WORK_OFFLINE :: "32 word" where
  "PRINTER_ATTRIBUTE_WORK_OFFLINE = 0x00000400"

definition is_online :: "32 word \<Rightarrow> 32 word \<Rightarrow> bool" where
  "is_online status_bits attributes =
     (if attributes AND PRINTER_ATTRIBUTE_WORK_OFFLINE \<noteq> 0 then False
      else \<not> list_ex (\<lambda>(_, b). status_bits AND b \<noteq> 0) OFFLINE_STATUS_BITS)"

definition status_detail :: "32 word \<Rightarrow> string" where
  "status_detail status_bits =
     (if status_bits = 0 then ''Ready''
      else let active = map fst (filter (\<lambda>(_, b). status_bits AND b \<noteq> 0) OFFLINE_STATUS_BITS)
           in if active \<noteq> [] then py_join '', '' active
              else ''Status code '' @ nat_digits (unat status_bits))"

definition work_offline_detail :: string where
  "work_offline_detail = ''Not connected (unplugged, switched off or set to offline)''"

definition dword :: "32 word option \<Rightarrow> 32 word" where
  "dword x = (case x of None \<Rightarrow> 0 | Some w \<Rightarrow> w)"

section \<open>Discovery and status\<close>

text \<open>Colour and duplex of one printer; a driver that misbehaves leaves both unknown.\<close>

definition device_features :: "spooler \<Rightarrow> string \<Rightarrow> bool option \<times> bool option" where
  "device_features e name =
     (if sl_open e name \<noteq> None then (None, None)
      else case sl_info e name of
             Inl _ \<Rightarrow> (None, None)
           | Inr info \<Rightarrow> (case pi_devmode info of
               None \<Rightarrow> (None, None)
             | Some dm \<Rightarrow> (Some ((case dm_color dm of None \<Rightarrow> 0 | Some c \<Rightarrow> c) = 2),
                           Some ((case dm_duplex dm of None \<Rightarrow> 0 | Some d \<Rightarrow> d) \<notin> {0, 1}))))"

definition discovered_printer :: "spooler \<Rightarrow> string option \<Rightarrow> printer_info \<Rightarrow> DiscoveredPrinter" where
  "discovered_printer e default_name entry =
     (let (color, duplex) = device_features e (pi_name entry)
      in \<lparr>dp_local_printer_id = pi_name entry, dp_display_name = pi_name entry,
          dp_driver_name = pi_driver entry, dp_port_name = pi_port entry,
          dp_is_default = (Some (pi_name entry) = default_name), dp_color = color, dp_duplex = duplex,
          dp_paper_sizes = None,
          dp_status_detail = Some (if dword (pi_attributes entry) AND PRINTER_ATTRIBUTE_WORK_OFFLINE \<noteq> 0
             then work_offline_detail else status_detail (dword (pi_status entry))),
          dp_online = Some (is_online (dword (pi_status entry)) (dword (pi_attributes entry)))\<rparr>)"

definition win_discover :: "spooler \<Rightarrow> DiscoveredPrinter list result" where
  "win_discover e = bind_result (require_win32print e) (\<lambda>_.
     let default_name = (case sl_default e of Inl _ \<Rightarrow> None | Inr d \<Rightarrow> Some d)
     in case sl_enum e of
          Inl x \<Rightarrow> Inl x
        | Inr entries \<Rightarrow> Inr (map (discovered_printer e default_name) entries))"

definition win_get_status :: "spooler \<Rightarrow> string \<Rightarrow> PrinterStatus result" where
  "win_get_status e name = bind_result (require_win32print e) (\<lambda>_.
     case sl_open e name of
       Some x \<Rightarrow> Inr \<lparr>ps_online = False, ps_detail = ''Printer unavailable: '' @ sl_error_text e x\<rparr>
     | None \<Rightarrow> (case sl_info e name of
         Inl x \<Rightarrow> Inl x
       | Inr info \<Rightarrow>
           if dword (pi_attributes info) AND PRINTER_ATTRIBUTE_WORK_OFFLINE \<noteq> 0
           then Inr \<lparr>ps_online = False, ps_detail = work_offline_detail\<rparr>
           else Inr \<lparr>ps_online = is_online (dword (pi_status info)) 0,
                     ps_detail = status_detail (dword (pi_status info))\<rparr>))"

section \<open>Printing\<close>

definition win_print_args :: "string \<Rightarrow> string \<Rightarrow> string \<Rightarrow> int \<Rightarrow> string list" where
  "win_print_args sumatra printer path copies =
     [sumatra, ''-print-to'', printer, ''-silent''] @
     (if copies > 1 then [''-print-settings'', ''copies='' @ int_digits copies] else []) @ [path]"

text \<open>\<^term>\<open>run\<close> executes a command line; the result also says which command line was run, if any.\<close>

definition win_print ::
  "(string list \<Rightarrow> completed_process result) \<Rightarrow> bool \<Rightarrow> string \<Rightarrow> string \<Rightarrow> string \<Rightarrow> int \<Rightarrow>
     string list option \<times> unit result" where
  "win_print run helper_exists sumatra printer path copies =
     (if \<not> helper_exists
      then (None, Inl (RuntimeError (''PDF print helper not found at '' @ sumatra @
             ''. The Windows installer must bundle it alongside the agent.'')))
      else let args = win_print_args sumatra printer path copies
           in (Some args, case run args of
                 Inl x \<Rightarrow> Inl x
               | Inr r \<Rightarrow> if cp_returncode r \<noteq> 0
                   then Inl (RuntimeError (''Print helper exited '' @ int_digits (cp_returncode r) @ '': '' @
                          (if py_strip (cp_stderr r) = [] then ''no error output'' else py_strip (cp_stderr r))))
                   else Inr ()))"

section \<open>Lemmas\<close>

lemma and_or_zero: "x AND (y OR z) = 0 \<longleftrightarrow> x AND y = 0 \<and> x AND z = (0 :: 32 word)"
  by (auto simp: bit_eq_iff bit_and_iff bit_or_iff)

lemma is_online_no_attributes: "is_online s a \<longleftrightarrow> a AND PRINTER_ATTRIBUTE_WORK_OFFLINE = 0 \<and> is_online s 0"
  by (simp add: is_online_def)

text \<open>The spooler does not change between the list and the status check, and lets itself be opened.\<close>

definition spooler_consistent :: "spooler \<Rightarrow> bool" where
  "spooler_consistent e \<longleftrightarrow> (\<forall>entries x. sl_enum e = Inr entries \<longrightarrow> x \<in> set entries \<longrightarrow>
     sl_open e (pi_name x) = None \<and>
     (\<forall>info. sl_info e (pi_name x) = Inr info \<longrightarrow>
        pi_status info = pi_status x \<and> pi_attributes info = pi_attributes x))"

lemma win_get_status_online:
  assumes "win_get_status e n = Inr st" and "sl_open e n = None"
  shows "\<exists>info. sl_info e n = Inr info \<and>
    ps_online st = is_online (dword (pi_status info)) (dword (pi_attributes info))"
proof -
  obtain info where info: "sl_info e n = Inr info"
    using assms by (cases "sl_info e n") (auto simp: win_get_status_def)
  have "ps_online st = is_online (dword (pi_status info)) (dword (pi_attributes info))"
    using assms info is_online_no_attributes [of "dword (pi_status info)" "dword (pi_attributes info)"]
    by (auto simp: win_get_status_def split: if_splits)
  with info show ?thesis by blast
qed

interpretation win: printer_manager spooler_consistent win_discover win_get_status
proof (unfold_locales, goal_cases)
  case (1 e ps p b st)
  then obtain entries x where x: "sl_enum e = Inr entries" "x \<in> set entries"
    "dp_local_printer_id p = pi_name x" "b = is_online (dword (pi_status x)) (dword (pi_attributes x))"
    by (auto simp: win_discover_def discovered_printer_def Let_def split: sum.splits prod.splits)
  have opened: "sl_open e (pi_name x) = None" using 1(1) x(1,2) by (simp add: spooler_consistent_def)
  obtain info where info: "sl_info e (pi_name x) = Inr info"
    "ps_online st = is_online (dword (pi_status info)) (dword (pi_attributes info))"
    using win_get_status_online [OF _ opened] 1(5) x(3) by metis
  have "pi_status info = pi_status x" "pi_attributes info = pi_attributes x"
    using 1(1) x(1,2) info(1) by (simp_all add: spooler_consistent_def)
  with info(2) x(4) show ?case by simp
qed

section \<open>Properties\<close>

text \<open>
  The status words of Windows. A printer counts as online exactly when the work-offline
  attribute and all seven blocking status bits are clear, that is when the status word has no bit
  in common with the mask 0x44109A; other status bits never make it offline.
\<close>

theorem is_online_mask:
  "is_online status attributes \<longleftrightarrow> attributes AND 0x400 = 0 \<and> status AND 0x0044109A = 0"
proof -
  have "0x0044109A = (0x80 OR (0x2 OR (0x1000 OR (0x40000 OR (0x10 OR (0x8 OR 0x400000))))) :: 32 word)"
    by simp
  then have "status AND 0x0044109A = 0 \<longleftrightarrow> \<not> list_ex (\<lambda>(_, b). status AND b \<noteq> 0) OFFLINE_STATUS_BITS"
    by (simp only: and_or_zero) (auto simp: OFFLINE_STATUS_BITS_def)
  then show ?thesis by (simp add: is_online_def PRINTER_ATTRIBUTE_WORK_OFFLINE_def)
qed

text \<open>
  The command line of the PDF helper. The helper is started exactly when it exists; it is told
  the printer as one argument and the document as the last, with a copies setting exactly when
  more than one copy is asked for; and the call succeeds exactly when the helper ran and exited 0.
\<close>

theorem win_print_command:
  "fst (win_print run helper_exists sumatra printer path copies) =
     (if helper_exists then Some (win_print_args sumatra printer path copies) else None) \<and>
   last (win_print_args sumatra printer path copies) = path \<and>
   take 4 (win_print_args sumatra printer path copies) = [sumatra, ''-print-to'', printer, ''-silent''] \<and>
   length (win_print_args sumatra printer path copies) = (if copies > 1 then 7 else 5) \<and>
   (snd (win_print run helper_exists sumatra printer path copies) = Inr () \<longleftrightarrow>
     helper_exists \<and>
     (\<exists>r. run (win_print_args sumatra printer path copies) = Inr r \<and> cp_returncode r = 0))"
  by (auto simp: win_print_def win_print_args_def Let_def split: sum.splits)

end
