(* ===== verification/Printer_Sync.thy ===== *)
theory Printer_Sync
  imports Ws_Client Printer_Windows Printer_Mac
begin

text \<open>
  Printer synchronisation, \<^verbatim>\<open>eres_print_agent/core/printer_sync.py\<close>: the message built from a discovery,
  its fingerprint, the immediate sync and the periodic loop. The loop runs over a script of ticks;
  a tick says what happened while the loop slept and what discovery and the clock answered. The
  JSON writer is an argument.
\<close>

definition PRINTER_SYNC_INTERVAL_SECONDS :: rat where "PRINTER_SYNC_INTERVAL_SECONDS = 300"

definition synced_printer :: "DiscoveredPrinter \<Rightarrow> SyncedPrinter" where
  "synced_printer p =
     \<lparr>sp_localPrinterId = dp_local_printer_id p, sp_displayName = Some (dp_display_name p),
      sp_driverName = dp_driver_name p, sp_portName = dp_port_name p, sp_isDefault = Some (dp_is_default p),
      sp_capabilities = Some \<lparr>cap_color = dp_color p, cap_duplex = dp_duplex p, cap_paperSizes = dp_paper_sizes p\<rparr>,
      sp_statusDetail = dp_status_detail p, sp_online = dp_online p\<rparr>"

definition build_sync_message :: "string \<Rightarrow> DiscoveredPrinter list result \<Rightarrow> OutboundAgentMessage result" where
  "build_sync_message now discovered =
     (case discovered of Inl e \<Rightarrow> Inl e | Inr ps \<Rightarrow> Inr (AgentPrintersSync now (map synced_printer ps)))"

fun exclude_ts :: "json \<Rightarrow> json" where
  "exclude_ts (JObj kvs) = JObj (filter (\<lambda>(k, _). k \<noteq> ''ts'') kvs)"
| "exclude_ts v = v"

definition fingerprint :: "(json \<Rightarrow> string) \<Rightarrow> OutboundAgentMessage \<Rightarrow> string" where
  "fingerprint render m = render (exclude_ts (message_json m))"

definition sync_now ::
  "(json \<Rightarrow> string) \<Rightarrow> send_outcome \<Rightarrow> string \<Rightarrow> DiscoveredPrinter list result \<Rightarrow> 'a ws_client_scheme \<Rightarrow>
     'a ws_client_scheme \<times> string option" where
  "sync_now render oc now discovered w =
     (case build_sync_message now discovered of
        Inl _ \<Rightarrow> (w, None)
      | Inr m \<Rightarrow> (send oc m False w, Some (fingerprint render m)))"

section \<open>The periodic loop\<close>

record tick =
  tk_stop :: bool \<comment> \<open>\<^verbatim>\<open>stop()\<close> was called during the wait\<close>
  tk_socket :: bool
  tk_connected :: bool
  tk_now :: string
  tk_discovered :: "DiscoveredPrinter list result"
  tk_time :: rat \<comment> \<open>\<^verbatim>\<open>loop.time()\<close> in the test\<close>
  tk_time_sent :: rat \<comment> \<open>\<^verbatim>\<open>loop.time()\<close> after the send\<close>
  tk_send :: send_outcome

record sync_state =
  sy_last_sent :: "string option"
  sy_last_sent_at :: rat
  sy_posted :: "OutboundAgentMessage list" \<comment> \<open>what the loop handed to the client, for the proofs\<close>

definition sync_start :: sync_state where
  "sync_start = \<lparr>sy_last_sent = None, sy_last_sent_at = 0, sy_posted = []\<rparr>"

definition sync_tick ::
  "(json \<Rightarrow> string) \<Rightarrow> rat \<Rightarrow> tick \<Rightarrow> sync_state \<times> 'a ws_client_scheme \<Rightarrow> sync_state \<times> 'a ws_client_scheme" where
  "sync_tick render interval tk = (\<lambda>(st, w0).
     let w = w0\<lparr>ws_socket := tk_socket tk, ws_connected := tk_connected tk\<rparr>
     in if \<not> ws_connected w then (st\<lparr>sy_last_sent := None\<rparr>, w)
        else case build_sync_message (tk_now tk) (tk_discovered tk) of
               Inl _ \<Rightarrow> (st, w)
             | Inr m \<Rightarrow>
                 if Some (fingerprint render m) \<noteq> sy_last_sent st \<or> fl (tk_time tk - sy_last_sent_at st) \<ge> interval
                 then (\<lparr>sy_last_sent = Some (fingerprint render m), sy_last_sent_at = tk_time_sent tk,
                        sy_posted = sy_posted st @ [m]\<rparr>, send (tk_send tk) m False w)
                 else (st, w))"

fun run_periodic_sync ::
  "(json \<Rightarrow> string) \<Rightarrow> rat \<Rightarrow> tick list \<Rightarrow> sync_state \<times> 'a ws_client_scheme \<Rightarrow> sync_state \<times> 'a ws_client_scheme" where
  "run_periodic_sync render interval [] s = s"
| "run_periodic_sync render interval (tk # tks) s =
     (if tk_stop tk then s else run_periodic_sync render interval tks (sync_tick render interval tk s))"

section \<open>Lemmas\<close>

lemma exclude_ts_sync [simp]:
  "exclude_ts (message_json (AgentPrintersSync now ps)) =
     JObj [(''type'', JStr ''agent.printers.sync''), (''printers'', JList (map printer_json ps))]"
  by (simp add: message_json_def)

definition sync_inv :: "(json \<Rightarrow> string) \<Rightarrow> sync_state \<Rightarrow> bool" where
  "sync_inv render st \<longleftrightarrow> (\<forall>f. sy_last_sent st = Some f \<longrightarrow>
     sy_posted st \<noteq> [] \<and> fingerprint render (last (sy_posted st)) = f)"

lemma sync_inv_tick: "sync_inv render st \<Longrightarrow> sync_inv render (fst (sync_tick render interval tk (st, w)))"
  by (auto simp: sync_tick_def sync_inv_def Let_def split: sum.splits)

lemma sync_inv_run:
  "sync_inv render (fst s) \<Longrightarrow> sync_inv render (fst (run_periodic_sync render interval tks s))"
proof (induction render interval tks s rule: run_periodic_sync.induct)
  case (2 render interval tk tks s)
  then show ?case using sync_inv_tick [of render "fst s" interval tk "snd s"] by simp
qed simp

lemma run_periodic_sync_snoc:
  "list_all (\<lambda>tk. \<not> tk_stop tk) (tks @ [tk]) \<Longrightarrow>
     run_periodic_sync render interval (tks @ [tk]) s = sync_tick render interval tk (run_periodic_sync render interval tks s)"
  by (induction render interval tks s rule: run_periodic_sync.induct) simp_all

text \<open>For every backend: what a sync says of a printer is what a status check says.\<close>

context printer_manager
begin

lemma synced_status_agrees:
  assumes "consistent e" and "build_sync_message now (discover e) = Inr (AgentPrintersSync now' sps)"
    and "sp \<in> set sps" and "sp_online sp = Some b" and "get_status e (sp_localPrinterId sp) = Inr st"
  shows "ps_online st = b"
proof -
  obtain ps where ps: "discover e = Inr ps" "sps = map synced_printer ps"
    using assms(2) by (auto simp: build_sync_message_def split: sum.splits)
  then obtain p where p: "p \<in> set ps" "sp = synced_printer p" using assms(3) by auto
  have "dp_online p = Some b" "get_status e (dp_local_printer_id p) = Inr st"
    using assms(4,5) p(2) by (simp_all add: synced_printer_def)
  then show ?thesis by (rule discover_agrees [OF assms(1) ps(1) p(1)])
qed

end

section \<open>Properties\<close>

text \<open>
  The fingerprint tells exactly whether the printers changed: two sync messages have the same
  JSON without time stamp exactly when they list the same printers, whenever they were built.
\<close>

theorem fingerprint_tells_change:
  "exclude_ts (message_json (AgentPrintersSync now ps)) = exclude_ts (message_json (AgentPrintersSync now' ps')) \<longleftrightarrow>
     ps = ps'"
proof -
  have "inj printer_json" by (simp add: inj_def)
  then show ?thesis by (simp add: inj_map_eq_map)
qed

text \<open>
  The periodic sync is never stale. After any run of the loop whose last tick found the client
  connected and discovery working, the last message the loop handed to the client has the same
  fingerprint as the printers just discovered.
\<close>

theorem periodic_sync_current:
  assumes "list_all (\<lambda>tk. \<not> tk_stop tk) (tks @ [tk])" and "tk_connected tk"
    and "build_sync_message (tk_now tk) (tk_discovered tk) = Inr m"
  shows "\<exists>st w'. run_periodic_sync render interval (tks @ [tk]) (sync_start, w) = (st, w') \<and>
    sy_posted st \<noteq> [] \<and> fingerprint render (last (sy_posted st)) = fingerprint render m"
proof -
  obtain st w1 where r: "run_periodic_sync render interval tks (sync_start, w) = (st, w1)" by fastforce
  have "sync_inv render sync_start" by (simp add: sync_inv_def sync_start_def)
  then have "sync_inv render st"
    using sync_inv_run [of render "(sync_start, w)" interval tks] r by simp
  then show ?thesis
    unfolding run_periodic_sync_snoc [OF assms(1)] r
    using assms(2,3) by (auto simp: sync_tick_def Let_def sync_inv_def)
qed

theorem periodic_sync_current_witness:
  "\<exists>st w'. run_periodic_sync (\<lambda>_. ''x'') 300 [\<lparr>tk_stop = False, tk_socket = True, tk_connected = True,
       tk_now = ''t'', tk_discovered = Inr [], tk_time = 1, tk_time_sent = 1, tk_send = Accepted\<rparr>]
     (sync_start, idle_client) = (st, w') \<and> sy_posted st \<noteq> []"
  using periodic_sync_current [of "[]" "\<lparr>tk_stop = False, tk_socket = True, tk_connected = True,
       tk_now = ''t'', tk_discovered = Inr [], tk_time = 1, tk_time_sent = 1, tk_send = Accepted\<rparr>"
       "AgentPrintersSync ''t'' []" "\<lambda>_. ''x''" 300 idle_client]
  by (auto simp: build_sync_message_def)


definition sample_spooler :: spooler where
  "sample_spooler =
     (let info = \<lparr>pi_name = ''p'', pi_driver = None, pi_port = None, pi_status = Some 0x80, pi_attributes = None,
                  pi_devmode = None\<rparr>
      in \<lparr>sl_available = True, sl_default = Inr ''p'', sl_enum = Inr [info], sl_open = (\<lambda>_. None),
          sl_info = (\<lambda>_. Inr info), sl_error_text = (\<lambda>_. [])\<rparr>)"


end
