(* ===== verification/Status_File.thy ===== *)
theory Status_File
  imports Credentials
begin

text \<open>
  The status snapshot of \<^verbatim>\<open>eres_print_agent/status_store.py\<close> and the texts that
  \<^verbatim>\<open>eres_print_agent/diagnostics.py\<close> makes of it. The running agent writes the file, the command line
  reads it in another process, so what counts is that a reader finds a whole snapshot at every
  moment. The JSON reader and writer are arguments, and so is the text of a float, a list or an
  object in a formatted string.
\<close>

section \<open>Writing\<close>

text \<open>The two files, and the steps of \<^verbatim>\<open>write_status\<close> after which the process may fail or die: before
  anything is written, with a part of the temporary file written, before the replacement.\<close>

record status_dir =
  sd_status :: disk_file
  sd_tmp :: disk_file

datatype write_end = NothingWritten py_error | TmpFails disk_file py_error | ReplaceFails py_error | Written

fun merge_field :: "string \<Rightarrow> json \<Rightarrow> (string \<times> json) list \<Rightarrow> (string \<times> json) list" where
  "merge_field k v [] = [(k, v)]"
| "merge_field k v ((k', v') # kvs) = (if k' = k then (k, v) # kvs else (k', v') # merge_field k v kvs)"

definition status_payload :: "string \<Rightarrow> (string \<times> json) list \<Rightarrow> json" where
  "status_payload now snapshot = JObj (merge_field ''updatedAt'' (JStr now) snapshot)"

definition write_status ::
  "(json \<Rightarrow> string) \<Rightarrow> write_end \<Rightarrow> string \<Rightarrow> (string \<times> json) list \<Rightarrow> status_dir \<Rightarrow> status_dir \<times> unit result" where
  "write_status dumps we now snapshot d =
     (let text = Text (dumps (status_payload now snapshot))
      in case we of
           NothingWritten e \<Rightarrow> (d, Inl e)
         | TmpFails part e \<Rightarrow> (d\<lparr>sd_tmp := part\<rparr>, Inl e)
         | ReplaceFails e \<Rightarrow> (d\<lparr>sd_tmp := text\<rparr>, Inl e)
         | Written \<Rightarrow> (\<lparr>sd_status = text, sd_tmp = Missing\<rparr>, Inr ()))"

section \<open>Reading\<close>

definition read_status :: "(string \<Rightarrow> loads_outcome) \<Rightarrow> disk_file \<Rightarrow> json option result" where
  "read_status loads f =
     (case f of
        Missing \<Rightarrow> Inr None
      | Unreadable \<Rightarrow> Inr None
      | NotUtf8 \<Rightarrow> Inl UnicodeError
      | Text s \<Rightarrow> (case loads s of
          NotJson \<Rightarrow> Inr None
        | LoadsRaises e \<Rightarrow> Inl e
        | Loaded v \<Rightarrow> Inr (Some v)))"

text \<open>\<^verbatim>\<open>read_status() or {}\<close>, and \<^verbatim>\<open>.get\<close> on the result, which only an object has.\<close>

definition snapshot_of :: "json option \<Rightarrow> json" where
  "snapshot_of v = (case v of None \<Rightarrow> JObj [] | Some j \<Rightarrow> if json_truthy j then j else JObj [])"

fun json_len :: "json \<Rightarrow> nat result" where
  "json_len (JStr s) = Inr (length s)"
| "json_len (JList vs) = Inr (length vs)"
| "json_len (JObj kvs) = Inr (length (remdups (map fst kvs)))"
| "json_len _ = Inl (TypeError ''len'')"

text \<open>\<^verbatim>\<open>_service_status\<close>: what the platform's \<^verbatim>\<open>query_service_status\<close> returned, or the text of the
  exception it raised.\<close>

definition service_status :: "platform \<Rightarrow> string + string \<Rightarrow> string" where
  "service_status pf query =
     (if pf \<noteq> Win32 \<and> pf \<noteq> Darwin then ''n/a (not Windows or macOS)''
      else case query of Inr s \<Rightarrow> s | Inl text \<Rightarrow> ''unknown ('' @ text @ '')'')"

record status_report =
  sr_service :: string
  sr_paired :: bool
  sr_agentId :: json
  sr_hubUrl :: json
  sr_connection :: json
  sr_tenantId :: json
  sr_siteId :: json
  sr_agentVersion :: json
  sr_queueDepth :: json
  sr_printerCount :: nat
  sr_lastUpdatedAt :: json

definition report_of :: "string \<Rightarrow> AgentConfig \<Rightarrow> json \<Rightarrow> status_report result" where
  "report_of service config snapshot =
     (if \<not> is_dict snapshot then Inl AttributeError
      else bind_result (json_len (field_or (JList []) snapshot ''printers'')) (\<lambda>count.
        Inr \<lparr>sr_service = service, sr_paired = is_paired config, sr_agentId = cfg_agentId config,
             sr_hubUrl = cfg_hubUrl config, sr_connection = field_or (JStr ''unknown'') snapshot ''connection'',
             sr_tenantId = field_or JNull snapshot ''tenantId'', sr_siteId = field_or JNull snapshot ''siteId'',
             sr_agentVersion = field_or JNull snapshot ''agentVersion'',
             sr_queueDepth = field_or JNull snapshot ''queueDepth'', sr_printerCount = count,
             sr_lastUpdatedAt = field_or JNull snapshot ''updatedAt''\<rparr>))"

definition collect_status ::
  "(string \<Rightarrow> loads_outcome) \<Rightarrow> string \<Rightarrow> disk_file \<Rightarrow> disk_file \<Rightarrow> status_report result" where
  "collect_status loads service config_file status_file =
     bind_result (load_config loads config_file) (\<lambda>config.
     bind_result (read_status loads status_file) (\<lambda>v. report_of service config (snapshot_of v)))"

definition collect_printers :: "(string \<Rightarrow> loads_outcome) \<Rightarrow> disk_file \<Rightarrow> json result" where
  "collect_printers loads status_file =
     bind_result (read_status loads status_file) (\<lambda>v.
       if \<not> is_dict (snapshot_of v) then Inl AttributeError
       else Inr (field_or (JList []) (snapshot_of v) ''printers''))"

section \<open>Texts\<close>

fun py_str :: "(json \<Rightarrow> string) \<Rightarrow> json \<Rightarrow> string" where
  "py_str other JNull = ''None''"
| "py_str other (JBool b) = (if b then ''True'' else ''False'')"
| "py_str other (JInt i) = int_digits i"
| "py_str other (JStr s) = s"
| "py_str other v = other v"

definition or_dash :: "json \<Rightarrow> json" where
  "or_dash v = (if json_truthy v then v else JStr ''-'')"

definition format_status_text :: "(json \<Rightarrow> string) \<Rightarrow> status_report \<Rightarrow> string" where
  "format_status_text other r =
     py_join [newline]
       [''ERES Print Agent'', [],
        ''Service:       '' @ sr_service r,
        ''Paired:        '' @ (if sr_paired r then ''Yes'' else ''No''),
        ''Agent ID:      '' @ py_str other (or_dash (sr_agentId r)),
        ''Connection:    '' @ py_str other (sr_connection r),
        ''Hub URL:       '' @ py_str other (or_dash (sr_hubUrl r)),
        ''Organization:  '' @ py_str other (or_dash (sr_tenantId r)),
        ''Version:       '' @ py_str other (or_dash (sr_agentVersion r)),
        ''Printers:      '' @ nat_digits (sr_printerCount r),
        ''Queued Jobs:   '' @ (if sr_queueDepth r = JNull then ''-'' else py_str other (sr_queueDepth r)),
        ''Last Update:   '' @ py_str other (or_dash (sr_lastUpdatedAt r))]"

text \<open>The name of one printer; joining needs a text.\<close>

definition printer_line :: "json \<Rightarrow> string result" where
  "printer_line p =
     (if \<not> is_dict p then Inl AttributeError
      else case (if json_truthy (field_or JNull p ''displayName'') then field_or JNull p ''displayName''
                 else field_or (JStr ''Unknown'') p ''localPrinterId'') of
             JStr s \<Rightarrow> Inr s
           | _ \<Rightarrow> Inl (TypeError ''join''))"

fun printer_lines :: "json list \<Rightarrow> string list result" where
  "printer_lines [] = Inr []"
| "printer_lines (p # ps) = bind_result (printer_line p) (\<lambda>l. bind_result (printer_lines ps) (\<lambda>ls. Inr (l # ls)))"

definition format_printers_text :: "json \<Rightarrow> string result" where
  "format_printers_text printers =
     (if \<not> json_truthy printers then Inr ''No printers discovered yet. Is the agent running and connected?''
      else case printers of
             JList ps \<Rightarrow> bind_result (printer_lines ps) (\<lambda>ls. Inr (py_join [newline] ls))
           | JStr _ \<Rightarrow> Inl AttributeError
           | JObj _ \<Rightarrow> Inl AttributeError
           | _ \<Rightarrow> Inl (TypeError ''not iterable''))"

text \<open>\<^verbatim>\<open>lines[-max_lines:]\<close>, for every integer.\<close>

definition last_lines :: "int \<Rightarrow> 'a list \<Rightarrow> 'a list" where
  "last_lines n xs = (if n > 0 then drop (length xs - nat n) xs else drop (nat (- n)) xs)"

definition tail_log_lines :: "int \<Rightarrow> string option \<Rightarrow> string" where
  "tail_log_lines n content =
     (case content of None \<Rightarrow> ''No logs yet.'' | Some text \<Rightarrow> py_join [newline] (last_lines n (py_splitlines text)))"

section \<open>Lemmas\<close>

lemma map_of_merge: "map_of (merge_field k v kvs) = (map_of kvs)(k \<mapsto> v)"
  by (induction k v kvs rule: merge_field.induct) auto

lemma merge_keys: "set (map fst (merge_field k v kvs)) = insert k (set (map fst kvs))"
  by (induction k v kvs rule: merge_field.induct) auto

lemma merge_distinct: "distinct (map fst kvs) \<Longrightarrow> distinct (map fst (merge_field k v kvs))"
  using merge_keys by (induction k v kvs rule: merge_field.induct) fastforce+

lemma map_of_rev_distinct:
  assumes "distinct (map fst kvs)" shows "map_of (rev kvs) = map_of kvs"
  using assms by (intro map_of_eqI) (auto simp: rev_map [symmetric] map_of_eq_Some_iff intro: sym)

lemma map_of_rev_merge:
  "distinct (map fst kvs) \<Longrightarrow>
     map_of (rev (merge_field k v kvs)) x = (if x = k then Some v else map_of (rev kvs) x)"
  by (simp add: map_of_rev_distinct merge_distinct map_of_merge)

lemma payload_get:
  "distinct (map fst snapshot) \<Longrightarrow>
     field_or d (status_payload now snapshot) k =
       (if k = ''updatedAt'' then JStr now else field_or d (JObj snapshot) k)"
  by (simp add: status_payload_def field_or_def map_of_rev_merge)

text \<open>What the status file holds after a sequence of writes.\<close>

definition write_all ::
  "(json \<Rightarrow> string) \<Rightarrow> (write_end \<times> string \<times> (string \<times> json) list) list \<Rightarrow> status_dir \<Rightarrow> status_dir" where
  "write_all dumps ws d = fold (\<lambda>(we, now, snapshot) d. fst (write_status dumps we now snapshot d)) ws d"

definition completed_writes :: "(write_end \<times> 'a) list \<Rightarrow> 'a list" where
  "completed_writes ws = map snd (filter (\<lambda>w. fst w = Written) ws)"

lemma write_status_file:
  "sd_status (fst (write_status dumps we now snapshot d)) =
     (if we = Written then Text (dumps (status_payload now snapshot)) else sd_status d)"
  by (cases we) (simp_all add: write_status_def Let_def)

lemma write_all_file:
  "sd_status (write_all dumps ws d) =
     (if completed_writes ws = [] then sd_status d
      else case last (completed_writes ws) of (now, snapshot) \<Rightarrow> Text (dumps (status_payload now snapshot)))"
proof (induction ws rule: rev_induct)
  case (snoc w ws)
  then show ?case
    by (cases w) (auto simp: write_all_def completed_writes_def write_status_file)
qed (simp add: write_all_def completed_writes_def)

section \<open>Properties\<close>

text \<open>
  C31: Readers always find a whole snapshot. After any sequence of writes, some of which may have
  failed or been cut off at any step, even half way through the temporary file, a reader gets the
  payload of the last write that completed, or what was there before when none did.
\<close>

theorem reader_sees_last_write:
  assumes "\<And>now snapshot. (now, snapshot) \<in> set (completed_writes ws) \<Longrightarrow>
      loads (dumps (status_payload now snapshot)) = Loaded (status_payload now snapshot)"
  shows "read_status loads (sd_status (write_all dumps ws d)) =
    (if completed_writes ws = [] then read_status loads (sd_status d)
     else case last (completed_writes ws) of (now, snapshot) \<Rightarrow> Inr (Some (status_payload now snapshot)))"
proof (cases "completed_writes ws = []")
  case False
  obtain now snapshot where l: "last (completed_writes ws) = (now, snapshot)" by fastforce
  then have "(now, snapshot) \<in> set (completed_writes ws)" using False last_in_set by metis
  with assms l False show ?thesis by (simp add: write_all_file read_status_def)
qed (simp add: write_all_file)

theorem reader_sees_last_write_witness:
  "read_status (\<lambda>_. Loaded (status_payload ''t1'' [(''connection'', JStr ''connected'')]))
     (sd_status (write_all (\<lambda>_. ''x'')
        [(Written, ''t1'', [(''connection'', JStr ''connected'')]), (TmpFails (Text ''{'') (OSError []), ''t2'', [])]
        \<lparr>sd_status = Missing, sd_tmp = Missing\<rparr>)) =
   Inr (Some (status_payload ''t1'' [(''connection'', JStr ''connected'')]))"
  by (subst reader_sees_last_write) (simp_all add: completed_writes_def)

end
