(* ===== verification/Metrics.thy ===== *)
theory Metrics
  imports Py_Float Credentials Printer_Base
begin

text \<open>
  The agent's own resource use, \<^verbatim>\<open>eres_print_agent/metrics.py\<close>: the memory readers of the three
  platforms and the CPU sampler. What the operating system answers is an argument; parsing,
  rounding and the treatment of failures are the source's.
\<close>

section \<open>Python numbers\<close>

text \<open>\<^verbatim>\<open>a / b\<close> of two integers is the correctly rounded quotient; a quotient beyond the largest float
  raises.\<close>

definition int_truediv :: "int \<Rightarrow> int \<Rightarrow> rat result" where
  "int_truediv a b =
     (if b = 0 then Inl ZeroDivisionError
      else let q = fl (of_int a / of_int b) in if \<bar>q\<bar> \<ge> 2 ^ 1024 then Inl OverflowError else Inr q)"

text \<open>\<^verbatim>\<open>round(x, n)\<close> rounds the exact value half to even and takes the nearest float.\<close>

definition round_places :: "nat \<Rightarrow> rat \<Rightarrow> rat" where
  "round_places n x = fl (of_int (round_half_even (x * 10 ^ n)) / 10 ^ n)"

text \<open>\<^verbatim>\<open>s.split()\<close>\<close>

function py_split :: "string \<Rightarrow> string list" where
  "py_split s =
     (let t = dropWhile is_space s
      in if t = [] then []
         else takeWhile (\<lambda>c. \<not> is_space c) t # py_split (dropWhile (\<lambda>c. \<not> is_space c) t))"
  by pat_completeness auto
termination
proof (relation "measure length", goal_cases)
  case (2 s t)
  then have "\<not> is_space (hd t)" using hd_dropWhile [of is_space s] by simp
  then have "length (dropWhile (\<lambda>c. \<not> is_space c) t) < length t"
    using 2(2) by (cases t) (simp_all add: length_dropWhile_le less_Suc_eq_le)
  also have "length t \<le> length s" unfolding 2(1) by (rule length_dropWhile_le)
  finally show ?case by simp
qed simp

declare py_split.simps [simp del]

text \<open>\<^verbatim>\<open>int(s)\<close> of a text: blanks around, an optional sign, digits with single underscores between.\<close>

definition is_digit :: "char \<Rightarrow> bool" where
  "is_digit c \<longleftrightarrow> 48 \<le> (of_char c :: nat) \<and> (of_char c :: nat) \<le> 57"

fun grouped_digits :: "string \<Rightarrow> bool" where
  "grouped_digits [] \<longleftrightarrow> False"
| "grouped_digits [c] \<longleftrightarrow> is_digit c"
| "grouped_digits (c # d # cs) \<longleftrightarrow>
     is_digit c \<and> (if d = CHR ''_'' then grouped_digits cs else grouped_digits (d # cs))"

definition digits_nat :: "string \<Rightarrow> nat" where
  "digits_nat s = foldl (\<lambda>n c. 10 * n + (of_char c - 48)) 0 (filter is_digit s)"

definition py_int :: "string \<Rightarrow> int result" where
  "py_int s =
     (let t = py_strip s;
          (neg, u) = (if t \<noteq> [] \<and> hd t \<in> {CHR ''-'', CHR ''+''} then (hd t = CHR ''-'', tl t) else (False, t))
      in if grouped_digits u then Inr (if neg then - int (digits_nat u) else int (digits_nat u))
         else Inl (ValueError ''invalid literal for int()''))"

section \<open>Memory\<close>

record memory_env =
  me_platform :: platform
  me_counters :: "nat option result" \<comment> \<open>\<^verbatim>\<open>WorkingSetSize\<close>, or \<^term>\<open>None\<close> when the call answers false\<close>
  me_statm :: "string result option" \<comment> \<open>\<^verbatim>\<open>/proc/self/statm\<close>, if it exists\<close>
  me_page_size :: "int result"
  me_ps :: "completed_process result"

definition read_memory :: "memory_env \<Rightarrow> rat option result" where
  "read_memory e =
     (if me_platform e = Win32
      then bind_result (me_counters e) (\<lambda>c. case c of
             None \<Rightarrow> Inr None
           | Some n \<Rightarrow> bind_result (int_truediv (int n) (1024 * 1024)) (\<lambda>q. Inr (Some q)))
      else case me_statm e of
             Some contents \<Rightarrow>
               bind_result contents (\<lambda>text. case py_split text of
                 _ # w # _ \<Rightarrow>
                   bind_result (py_int w) (\<lambda>pages. bind_result (me_page_size e) (\<lambda>size.
                   bind_result (int_truediv (pages * size) (1024 * 1024)) (\<lambda>q. Inr (Some q))))
               | _ \<Rightarrow> Inl IndexError)
           | None \<Rightarrow>
               bind_result (me_ps e) (\<lambda>r.
                 if cp_returncode r = 0 \<and> py_strip (cp_stdout r) \<noteq> []
                 then bind_result (py_int (py_strip (cp_stdout r))) (\<lambda>kb.
                        bind_result (int_truediv kb 1024) (\<lambda>q. Inr (Some q)))
                 else Inr None))"

definition memory_mb :: "memory_env \<Rightarrow> rat option" where
  "memory_mb e = (case read_memory e of Inl _ \<Rightarrow> None | Inr m \<Rightarrow> m)"

section \<open>CPU\<close>

record os_times =
  t_user :: rat
  t_system :: rat
  t_children_user :: rat
  t_children_system :: rat

definition cpu_seconds :: "os_times \<Rightarrow> rat" where
  "cpu_seconds t = fl (fl (fl (t_user t + t_system t) + t_children_user t) + t_children_system t)"

text \<open>The sampler keeps the wall clock and the CPU seconds of its last call.\<close>

type_synonym sampler = "rat \<times> rat"

definition cpu_percent :: "rat \<Rightarrow> rat \<Rightarrow> sampler \<Rightarrow> rat option" where
  "cpu_percent now cpu prev =
     (let elapsed = fl (now - fst prev)
      in if elapsed > 0 then Some (max 0 (fl (fl (fl (cpu - snd prev) / elapsed) * 100))) else None)"

definition sample ::
  "rat \<Rightarrow> os_times \<Rightarrow> memory_env \<Rightarrow> sampler \<Rightarrow> sampler \<times> (rat option \<times> rat option)" where
  "sample now t e prev =
     ((now, cpu_seconds t),
      (map_option (round_places 2) (cpu_percent now (cpu_seconds t) prev),
       map_option (round_places 1) (memory_mb e)))"

section \<open>Lemmas\<close>

lemma round_half_even_nonneg: "0 \<le> x \<Longrightarrow> 0 \<le> round_half_even x"
  using round_half_even_mono [of 0 x] round_half_even_int [of 0] by simp

lemma fl_nonneg: "0 \<le> x \<Longrightarrow> 0 \<le> fl x"
  by (simp add: fl_def Let_def round_half_even_nonneg)

lemma round_places_nonneg: "0 \<le> x \<Longrightarrow> 0 \<le> round_places n x"
  by (simp add: round_places_def fl_nonneg round_half_even_nonneg)

text \<open>A sample never reports a negative CPU share, and reports none exactly when no time has passed.\<close>

lemma sample_cpu:
  assumes "sample now t e prev = (prev', (cpu, mem))"
  shows "(cpu = None \<longleftrightarrow> fl (now - fst prev) \<le> 0) \<and> (\<forall>p. cpu = Some p \<longrightarrow> 0 \<le> p) \<and> fst prev' = now"
  using assms by (auto simp: sample_def cpu_percent_def Let_def round_places_nonneg split: if_splits)

end
