(* ===== verification/Agent_Loops.thy ===== *)
theory Agent_Loops
  imports Job_Traces Printer_Sync Status_File Metrics
begin

text \<open>
  The orchestrator \<^verbatim>\<open>eres_print_agent/core/agent.py\<close> around the start-up recovery (\<^verbatim>\<open>Job_System\<close>): its
  state, the three callbacks of the WebSocket client, the status snapshot, the heartbeat
  loop with its usage samples, and \<^verbatim>\<open>stop\<close>. The heartbeat loop runs over a script of beats: what the
  other coroutines have done by then, the clock, and how the calls end.
\<close>

definition VERSION :: string where "VERSION = ''1.1.4''"

definition HEARTBEAT_INTERVAL_SECONDS :: rat where "HEARTBEAT_INTERVAL_SECONDS = 30"

section \<open>State\<close>

text \<open>The agent's state extends that of the WebSocket client and the job worker.\<close>

record agent = sys +
  ag_config :: AgentConfig
  ag_interval :: rat
  ag_tenant_id :: "string option"
  ag_site_id :: "string option"
  ag_stop_event :: bool
  ag_status :: status_dir

text \<open>The usage sampler and the time of the last sample are in \<^verbatim>\<open>usage_state\<close> below: only the heartbeat
  loop touches them.\<close>

text \<open>A piece of the job worker, run in the agent.\<close>

definition on_sys :: "(sys \<Rightarrow> sys) \<Rightarrow> agent \<Rightarrow> agent" where
  "on_sys f a = sys.extend (f (sys.truncate a)) (sys.more a)"

definition agent_stop :: "agent \<Rightarrow> agent" where
  "agent_stop a = ws_stop (a\<lparr>ag_stop_event := True\<rparr>)"

section \<open>The status snapshot\<close>

definition opt_json :: "string option \<Rightarrow> json" where
  "opt_json x = (case x of None \<Rightarrow> JNull | Some s \<Rightarrow> JStr s)"

definition printer_entry :: "DiscoveredPrinter \<Rightarrow> json" where
  "printer_entry p = JObj [(''localPrinterId'', JStr (dp_local_printer_id p)), (''displayName'', JStr (dp_display_name p))]"

definition snapshot :: "string \<Rightarrow> DiscoveredPrinter list result \<Rightarrow> agent \<Rightarrow> (string \<times> json) list" where
  "snapshot connection discovered a =
     [(''agentId'', cfg_agentId (ag_config a)), (''agentVersion'', JStr VERSION),
      (''tenantId'', opt_json (ag_tenant_id a)), (''siteId'', opt_json (ag_site_id a)),
      (''connection'', JStr connection), (''hubUrl'', cfg_hubUrl (ag_config a)),
      (''queueDepth'', JInt (int (active_count a))),
      (''printers'', JList (case discovered of Inl _ \<Rightarrow> [] | Inr ps \<Rightarrow> map printer_entry ps))]"

record snapshot_env =
  se_now :: string
  se_discovered :: "DiscoveredPrinter list result"
  se_write :: write_end

definition write_status_snapshot ::
  "(json \<Rightarrow> string) \<Rightarrow> snapshot_env \<Rightarrow> string \<Rightarrow> agent \<Rightarrow> agent \<times> unit result" where
  "write_status_snapshot dumps e connection a =
     (case write_status dumps (se_write e) (se_now e) (snapshot connection (se_discovered e) a) (ag_status a) of
        (d, r) \<Rightarrow> (a\<lparr>ag_status := d\<rparr>, r))"

section \<open>Callbacks\<close>

text \<open>Python's \<^verbatim>\<open>max(x, 5)\<close>.\<close>

definition at_least_5 :: "rat \<Rightarrow> rat" where
  "at_least_5 x = (if 5 > x then 5 else x)"

definition agent_on_authenticated ::
  "(json \<Rightarrow> string) \<Rightarrow> snapshot_env \<Rightarrow> (string \<times> DiscoveredPrinter list result \<times> send_outcome) \<Rightarrow>
     AgentAuthenticated \<Rightarrow> agent \<Rightarrow> agent \<times> unit result" where
  "agent_on_authenticated dumps e sy m a =
     (case int_truediv (aa_heartbeatIntervalMs m) 1000 of
        Inl x \<Rightarrow> (a, Inl x)
      | Inr q \<Rightarrow>
          (case write_status_snapshot dumps e ''connected''
                  (a\<lparr>ag_interval := at_least_5 q, ag_tenant_id := Some (aa_tenantId m), ag_site_id := aa_siteId m\<rparr>) of
             (a1, Inl x) \<Rightarrow> (a1, Inl x)
           | (a1, Inr _) \<Rightarrow>
               (case sy of (now, discovered, oc) \<Rightarrow>
                  (fst (sync_now dumps oc now discovered a1), Inr ()))))"

fun agent_on_inbound_message :: "InboundHubMessage \<Rightarrow> agent \<Rightarrow> agent" where
  "agent_on_inbound_message (InDispatch d) a = on_sys (handle_dispatch d) a"
| "agent_on_inbound_message (InCancel c) a = on_sys (handle_cancel c) a"
| "agent_on_inbound_message _ a = a"

definition agent_on_disconnected :: "(json \<Rightarrow> string) \<Rightarrow> snapshot_env \<Rightarrow> agent \<Rightarrow> agent \<times> unit result" where
  "agent_on_disconnected dumps e a = write_status_snapshot dumps e ''disconnected'' a"

section \<open>Heartbeats\<close>

record usage_env =
  ue_now :: rat \<comment> \<open>the event loop's clock\<close>
  ue_sample :: "(rat \<times> os_times \<times> memory_env) result" \<comment> \<open>what the sampler reads, or its exception\<close>

record usage_state =
  us_last_usage_at :: rat
  us_sampler :: sampler

definition new_usage :: "sampler \<Rightarrow> usage_state" where
  "new_usage sampler = \<lparr>us_last_usage_at = 0, us_sampler = sampler\<rparr>"

definition usage_if_due :: "usage_env \<Rightarrow> usage_state \<Rightarrow> usage_state \<times> AgentUsage option" where
  "usage_if_due e u =
     (if fl (ue_now e - us_last_usage_at u) < 55 then (u, None)
      else case ue_sample e of
             Inl _ \<Rightarrow> (u\<lparr>us_last_usage_at := ue_now e\<rparr>, None)
           | Inr (wall, tms, mem) \<Rightarrow>
               (case sample wall tms mem (us_sampler u) of
                  (smp, cpu, memory) \<Rightarrow>
                    (\<lparr>us_last_usage_at = ue_now e, us_sampler = smp\<rparr>,
                     Some \<lparr>au_cpuPercent = cpu, au_memoryMb = memory\<rparr>)))"

text \<open>
  One turn of the loop. \<^verbatim>\<open>bt_agent\<close> is the agent as the other coroutines have left it when the wait is
  over, \<^verbatim>\<open>bt_at_send\<close> as they have left it when the usage sample is done, and \<^verbatim>\<open>bt_others\<close> is what they do
  while the send is awaited.
\<close>

record beat =
  bt_agent :: agent
  bt_usage :: usage_env
  bt_at_send :: agent
  bt_now :: string
  bt_send :: send_outcome
  bt_others :: "agent \<Rightarrow> agent"
  bt_snapshot :: snapshot_env

datatype beat_end = BeatDone agent | BeatSkipped | BeatRaised agent py_error

definition heartbeat ::
  "(json \<Rightarrow> string) \<Rightarrow> beat \<Rightarrow> usage_state \<Rightarrow> usage_state \<times> OutboundAgentMessage option \<times> beat_end" where
  "heartbeat dumps b u =
     (if \<not> ws_connected (bt_agent b) then (u, None, BeatSkipped)
      else let depth = int (active_count (bt_agent b));
               (u', usage) = usage_if_due (bt_usage b) u;
               m = AgentHeartbeat (bt_now b) (Some depth) usage;
               a = bt_others b (send (bt_send b) m False (bt_at_send b))
           in (case write_status_snapshot dumps (bt_snapshot b) ''connected'' a of
                 (a', Inl x) \<Rightarrow> (u', Some m, BeatRaised a' x)
               | (a', Inr _) \<Rightarrow> (u', Some m, BeatDone a')))"

datatype hb_end = HbStopped | HbRaised py_error | HbRunning

fun heartbeat_loop ::
  "(json \<Rightarrow> string) \<Rightarrow> beat list \<Rightarrow> usage_state \<Rightarrow> usage_state \<times> (rat \<times> OutboundAgentMessage) list \<times> hb_end" where
  "heartbeat_loop dumps [] u = (u, [], HbRunning)"
| "heartbeat_loop dumps (b # bs) u =
     (if ag_stop_event (bt_agent b) then (u, [], HbStopped)
      else case heartbeat dumps b u of
             (u', m, r) \<Rightarrow>
               let here = (case m of None \<Rightarrow> [] | Some x \<Rightarrow> [(ue_now (bt_usage b), x)])
               in (case r of
                     BeatRaised _ x \<Rightarrow> (u', here, HbRaised x)
                   | _ \<Rightarrow> (case heartbeat_loop dumps bs u' of (u2, ms, e) \<Rightarrow> (u2, here @ ms, e))))"

section \<open>Lemmas\<close>

lemma sync_now_agent [simp]:
  "ag_interval (fst (sync_now dumps oc now ps a)) = ag_interval a"
  "ag_status (fst (sync_now dumps oc now ps a)) = ag_status a"
  "ag_tenant_id (fst (sync_now dumps oc now ps a)) = ag_tenant_id a"
  "ws_stop_event (fst (sync_now dumps oc now ps a)) = ws_stop_event a"
  by (auto simp: sync_now_def send_def split: sum.splits)

definition apart :: "rat \<Rightarrow> rat \<Rightarrow> bool" where
  "apart s t \<longleftrightarrow> 54999 / 1000 \<le> t - s"

lemma due_apart: "55 \<le> fl (t - s) \<Longrightarrow> apart s t"
  using fl_upper [of "t - s"] fl_pos_imp [of "t - s"] by (simp add: apart_def field_simps)

lemma apart_trans: "apart r s \<Longrightarrow> apart s t \<Longrightarrow> apart r t"
  by (simp add: apart_def field_simps)

fun has_usage :: "OutboundAgentMessage \<Rightarrow> bool" where
  "has_usage (AgentHeartbeat _ _ (Some _)) \<longleftrightarrow> True"
| "has_usage _ \<longleftrightarrow> False"

definition usage_times :: "(rat \<times> OutboundAgentMessage) list \<Rightarrow> rat list" where
  "usage_times ms = map fst (filter (\<lambda>x. has_usage (snd x)) ms)"

lemma usage_times_simps [simp]:
  "usage_times [] = []"
  "usage_times ((t, m) # ms) = (if has_usage m then t # usage_times ms else usage_times ms)"
  by (simp_all add: usage_times_def)

text \<open>What one beat does to the time of the last sample.\<close>

lemma usage_if_due_cases:
  assumes "usage_if_due e u = (u', r)"
  shows "us_last_usage_at u' = us_last_usage_at u \<and> r = None \<or>
    us_last_usage_at u' = ue_now e \<and> apart (us_last_usage_at u) (ue_now e)"
proof (cases "fl (ue_now e - us_last_usage_at u) < 55")
  case True
  then show ?thesis using assms by (simp add: usage_if_due_def)
next
  case False
  then have "apart (us_last_usage_at u) (ue_now e)" by (intro due_apart) simp
  then show ?thesis
    using assms False by (auto simp: usage_if_due_def split: sum.splits prod.splits)
qed

text \<open>The two ways a beat can go.\<close>

lemma heartbeat_cases:
  assumes "heartbeat dumps b u = (u', m, r)"
  shows "u' = u \<and> m = None \<and> r = BeatSkipped \<or>
    (\<exists>usage. usage_if_due (bt_usage b) u = (u', usage) \<and>
       m = Some (AgentHeartbeat (bt_now b) (Some (int (active_count (bt_agent b)))) usage))"
proof (cases "ws_connected (bt_agent b)")
  case True
  obtain u1 usage where u1: "usage_if_due (bt_usage b) u = (u1, usage)" by fastforce
  show ?thesis
    using assms True
    by (simp add: heartbeat_def Let_def u1 split: prod.splits) (auto split: sum.splits unit.splits)
qed (use assms in \<open>simp add: heartbeat_def\<close>)

lemma heartbeat_gap:
  assumes "heartbeat dumps b u = (u', m, r)"
  shows "us_last_usage_at u' = us_last_usage_at u \<and> (\<forall>x. m = Some x \<longrightarrow> \<not> has_usage x) \<or>
    us_last_usage_at u' = ue_now (bt_usage b) \<and> apart (us_last_usage_at u) (ue_now (bt_usage b))"
  using heartbeat_cases [OF assms] usage_if_due_cases [of "bt_usage b" u u'] by fastforce

lemma heartbeat_loop_spacing:
  "sorted_wrt apart (us_last_usage_at u # usage_times (fst (snd (heartbeat_loop dumps bs u))))"
proof (induction dumps bs u rule: heartbeat_loop.induct)
  case (2 dumps b bs u)
  obtain u' m r where h: "heartbeat dumps b u = (u', m, r)" by (metis prod_cases3)
  obtain u2 ms e where rest: "heartbeat_loop dumps bs u' = (u2, ms, e)" by (metis prod_cases3)
  have IH: "sorted_wrt apart (us_last_usage_at u' # usage_times ms)"
    if "\<not> ag_stop_event (bt_agent b)" "\<And>a x. r \<noteq> BeatRaised a x"
    using 2 that h rest by (cases r) auto
  show ?case
  proof (cases "ag_stop_event (bt_agent b)")
    case False
    define here where "here = (case m of Some x \<Rightarrow> if has_usage x then [ue_now (bt_usage b)] else [] | None \<Rightarrow> [])"
    obtain L where L: "sorted_wrt apart (us_last_usage_at u' # L)"
      "usage_times (fst (snd (heartbeat_loop dumps (b # bs) u))) = here @ L"
    proof (cases "\<exists>a x. r = BeatRaised a x")
      case True
      then show thesis using that [of "[]"] False h by (auto simp: here_def split: option.splits)
    next
      case no: False
      then show thesis
        using that [of "usage_times ms"] IH False h rest
        by (cases r) (auto simp: here_def split: option.splits)
    qed
    show ?thesis
      using heartbeat_gap [OF h] L apart_trans by (auto simp: here_def split: option.splits if_splits)
  qed simp
qed simp

lemma write_written:
  "write_status dumps we now sn d = (d', Inr x) \<Longrightarrow> sd_status d' = Text (dumps (status_payload now sn))"
  by (cases we) (auto simp: write_status_def Let_def)

lemma snapshot_status [simp]: "snapshot c ps (a\<lparr>ag_status := d\<rparr>) = snapshot c ps a"
  by (simp add: snapshot_def active_count_def)

lemma snapshot_written:
  assumes "write_status_snapshot dumps e c a = (a', Inr x)"
  shows "sd_status (ag_status a') = Text (dumps (status_payload (se_now e) (snapshot c (se_discovered e) a'))) \<and>
    a' = a\<lparr>ag_status := ag_status a'\<rparr>"
  using assms write_written by (auto simp: write_status_snapshot_def split: prod.splits)

lemma heartbeat_status:
  assumes "heartbeat dumps b u = (u', m, BeatDone a')"
  shows "sd_status (ag_status a') = Text (dumps (status_payload (se_now (bt_snapshot b))
    (snapshot ''connected'' (se_discovered (bt_snapshot b)) a')))"
proof (cases "ws_connected (bt_agent b)")
  case True
  obtain u1 usage where u1: "usage_if_due (bt_usage b) u = (u1, usage)" by fastforce
  show ?thesis
    using assms True snapshot_written
    by (auto simp: heartbeat_def Let_def u1 split: prod.splits sum.splits)
qed (use assms in \<open>simp add: heartbeat_def\<close>)

lemma payload_object:
  "is_dict (status_payload now sn)" "json_truthy (status_payload now sn)"
  using merge_keys [of "''updatedAt''" "JStr now" sn] by (auto simp: status_payload_def)

lemma snapshot_fields:
  "field_or d (status_payload now (snapshot c ps a)) ''connection'' = JStr c"
  "field_or d (status_payload now (snapshot c ps a)) ''tenantId'' = opt_json (ag_tenant_id a)"
  "field_or d (status_payload now (snapshot c ps a)) ''queueDepth'' = JInt (int (active_count a))"
  "field_or d (status_payload now (snapshot c ps a)) ''printers'' =
     JList (case ps of Inl _ \<Rightarrow> [] | Inr ps \<Rightarrow> map printer_entry ps)"
  "field_or d (status_payload now (snapshot c ps a)) ''updatedAt'' = JStr now"
proof -
  have "distinct (map fst (snapshot c ps a))" by (simp add: snapshot_def)
  note get = payload_get [OF this, of d now]
  show "field_or d (status_payload now (snapshot c ps a)) ''connection'' = JStr c"
    "field_or d (status_payload now (snapshot c ps a)) ''tenantId'' = opt_json (ag_tenant_id a)"
    "field_or d (status_payload now (snapshot c ps a)) ''queueDepth'' = JInt (int (active_count a))"
    "field_or d (status_payload now (snapshot c ps a)) ''printers'' =
       JList (case ps of Inl _ \<Rightarrow> [] | Inr ps \<Rightarrow> map printer_entry ps)"
    "field_or d (status_payload now (snapshot c ps a)) ''updatedAt'' = JStr now"
    unfolding get by (simp_all add: field_or_def snapshot_def)
qed

lemma report_of_snapshot:
  assumes "loads (dumps (status_payload now (snapshot conn ps a))) = Loaded (status_payload now (snapshot conn ps a))"
    and "load_config loads config_file = Inr c"
  shows "\<exists>r. collect_status loads service config_file (Text (dumps (status_payload now (snapshot conn ps a)))) = Inr r \<and>
    sr_connection r = JStr conn \<and> sr_tenantId r = opt_json (ag_tenant_id a) \<and>
    sr_queueDepth r = JInt (int (active_count a)) \<and>
    sr_printerCount r = (case ps of Inl _ \<Rightarrow> 0 | Inr ps \<Rightarrow> length ps) \<and>
    sr_lastUpdatedAt r = JStr now \<and> sr_paired r = is_paired c"
  using assms
  by (cases ps) (simp_all add: collect_status_def read_status_def snapshot_of_def report_of_def payload_object snapshot_fields)

section \<open>Properties\<close>

text \<open>
  C35: Usage points are never closer than 55 seconds. Over any run of the heartbeat loop, with any
  clock, any failures of the sampler and any reconnections, two heartbeats that carry CPU and
  memory are at least 55 seconds apart (54.999 allows for the rounding of the clock's difference).
\<close>

theorem usage_spacing:
  assumes "heartbeat_loop dumps bs u = (u', ms, e)"
  shows "sorted_wrt (\<lambda>s t. 54999 / 1000 \<le> t - s) (us_last_usage_at u # usage_times ms)"
  using heartbeat_loop_spacing [of u dumps bs] assms unfolding apart_def by simp

definition sample_agent :: agent where
  "sample_agent = sys.extend (fresh_install\<lparr>ws_socket := True, ws_connected := True\<rparr>)
     (agent.fields sample_paired 30 (Some ''T'') None False \<lparr>sd_status = Missing, sd_tmp = Missing\<rparr>)"

lemma sample_agent_simps [simp]:
  "ws_connected sample_agent" "ws_socket sample_agent" "\<not> ag_stop_event sample_agent" "ag_tenant_id sample_agent = Some ''T''"
  "tasks sample_agent = {}" "ag_config sample_agent = sample_paired"
  by (simp_all add: sample_agent_def sys.defs agent.defs fresh_install_def)

definition sample_beat :: "rat \<Rightarrow> write_end \<Rightarrow> beat" where
  "sample_beat t we = \<lparr>bt_agent = sample_agent,
     bt_usage = \<lparr>ue_now = t, ue_sample = Inr (t, \<lparr>t_user = 1, t_system = 0, t_children_user = 0, t_children_system = 0\<rparr>,
       \<lparr>me_platform = Win32, me_counters = Inr None, me_statm = None, me_page_size = Inr 4096, me_ps = Inl (OSError [])\<rparr>)\<rparr>,
     bt_at_send = sample_agent, bt_now = ''t'', bt_send = Accepted, bt_others = (\<lambda>a. a),
     bt_snapshot = \<lparr>se_now = ''t'', se_discovered = Inr [], se_write = we\<rparr>\<rparr>"

theorem usage_spacing_witness:
  "\<exists>u' ms e. heartbeat_loop (\<lambda>_. ''x'') [sample_beat 100 Written, sample_beat 130 Written, sample_beat 160 Written]
       (new_usage (0, 0)) = (u', ms, e) \<and>
     sorted_wrt (\<lambda>s t. 54999 / 1000 \<le> t - s) (0 # usage_times ms)"
proof -
  let ?run = "heartbeat_loop (\<lambda>_. ''x'') [sample_beat 100 Written, sample_beat 130 Written, sample_beat 160 Written]
    (new_usage (0, 0))"
  obtain u' ms e where run: "?run = (u', ms, e)" by (metis prod_cases3)
  have "sorted_wrt (\<lambda>s t. 54999 / 1000 \<le> t - s) (us_last_usage_at (new_usage (0, 0)) # usage_times ms)"
    by (rule usage_spacing [OF run])
  then show ?thesis using run unfolding new_usage_def by simp
qed

text \<open>
  The status command shows what the agent last wrote. After a heartbeat that went through, the
  report of \<^verbatim>\<open>eres-print-agent status\<close> says connected, with the tenant, the number of jobs in flight and
  of printers found, and the time of that heartbeat, and says paired exactly when the
  configuration on disk is.
\<close>

theorem status_shows_heartbeat:
  assumes "heartbeat dumps b u = (u', m, BeatDone a')"
    and "payload = status_payload (se_now (bt_snapshot b)) (snapshot ''connected'' (se_discovered (bt_snapshot b)) a')"
    and "loads (dumps payload) = Loaded payload" and "load_config loads config_file = Inr c"
  shows "\<exists>r. collect_status loads service config_file (sd_status (ag_status a')) = Inr r \<and>
    sr_connection r = JStr ''connected'' \<and> sr_tenantId r = opt_json (ag_tenant_id a') \<and>
    sr_queueDepth r = JInt (int (active_count a')) \<and>
    sr_printerCount r = (case se_discovered (bt_snapshot b) of Inl _ \<Rightarrow> 0 | Inr ps \<Rightarrow> length ps) \<and>
    sr_lastUpdatedAt r = JStr (se_now (bt_snapshot b)) \<and> sr_paired r = is_paired c"
  using report_of_snapshot [of loads dumps "se_now (bt_snapshot b)" "''connected''" "se_discovered (bt_snapshot b)" a']
    heartbeat_status [OF assms(1)] assms(2-4) by auto

lemma beat_done:
  assumes "ws_connected (bt_agent b)" and "se_write (bt_snapshot b) = Written"
  shows "\<exists>u' m a'. heartbeat dumps b u = (u', m, BeatDone a')"
proof -
  obtain u1 usage where "usage_if_due (bt_usage b) u = (u1, usage)" by fastforce
  then show ?thesis
    using assms by (simp add: heartbeat_def Let_def write_status_snapshot_def write_status_def)
qed

theorem status_shows_heartbeat_witness:
  "\<exists>u' m a' payload r. heartbeat (\<lambda>_. ''x'') (sample_beat 10 Written) (new_usage (0, 0)) = (u', m, BeatDone a') \<and>
     collect_status (\<lambda>_. Loaded payload) ''running'' Missing (sd_status (ag_status a')) = Inr r \<and>
     sr_connection r = JStr ''connected'' \<and> sr_printerCount r = 0"
proof -
  obtain u' m a' where b: "heartbeat (\<lambda>_. ''x'') (sample_beat 10 Written) (new_usage (0, 0)) = (u', m, BeatDone a')"
    using beat_done [of "sample_beat 10 Written" "\<lambda>_. ''x''" "new_usage (0, 0)"] by (auto simp: sample_beat_def)
  let ?p = "status_payload (se_now (bt_snapshot (sample_beat 10 Written)))
    (snapshot ''connected'' (se_discovered (bt_snapshot (sample_beat 10 Written))) a')"
  from status_shows_heartbeat [OF b refl, of "\<lambda>_. Loaded ?p" Missing default_config "''running''"]
  show ?thesis using b by (fastforce simp: load_config_def sample_beat_def)
qed

text \<open>
  A heartbeat can report a lost connection as alive. When the connection drops while the heartbeat
  is being sent, the disconnection callback records it, but the loop then writes its own snapshot
  without looking again: the client is disconnected, and the status command says connected.
\<close>

theorem late_heartbeat_says_connected:
  assumes beat: "heartbeat dumps b u = (u', m, BeatDone a')"
    and "bt_others b = (\<lambda>a. fst (agent_on_disconnected dumps e (a\<lparr>ws_socket := False, ws_connected := False\<rparr>)))"
    and "payload = status_payload (se_now (bt_snapshot b)) (snapshot ''connected'' (se_discovered (bt_snapshot b)) a')"
    and "loads (dumps payload) = Loaded payload" and "load_config loads config_file = Inr c"
  shows "\<not> ws_connected a' \<and> \<not> ws_socket a' \<and>
    (\<exists>r. collect_status loads service config_file (sd_status (ag_status a')) = Inr r \<and> sr_connection r = JStr ''connected'')"
proof -
  obtain u1 usage where u1: "usage_if_due (bt_usage b) u = (u1, usage)" by fastforce
  have "\<not> ws_connected a' \<and> \<not> ws_socket a'"
    using beat by (auto simp: heartbeat_def Let_def u1 assms(2) agent_on_disconnected_def write_status_snapshot_def
        split: prod.splits sum.splits if_splits)
  moreover obtain r where "collect_status loads service config_file (sd_status (ag_status a')) = Inr r"
    "sr_connection r = JStr ''connected''"
    using report_of_snapshot [OF _ assms(5)] heartbeat_status [OF beat] assms(3,4) by metis
  ultimately show ?thesis by blast
qed

definition dropping_beat :: beat where
  "dropping_beat = (sample_beat 10 Written)\<lparr>bt_others := \<lambda>a. fst (agent_on_disconnected (\<lambda>_. ''x'')
    \<lparr>se_now = ''t'', se_discovered = Inr [], se_write = Written\<rparr> (a\<lparr>ws_socket := False, ws_connected := False\<rparr>))\<rparr>"

theorem late_heartbeat_says_connected_witness:
  "\<exists>u' m a' payload r. heartbeat (\<lambda>_. ''x'') dropping_beat (new_usage (0, 0)) = (u', m, BeatDone a') \<and> \<not> ws_connected a' \<and>
     collect_status (\<lambda>_. Loaded payload) ''running'' Missing (sd_status (ag_status a')) = Inr r \<and>
     sr_connection r = JStr ''connected''"
proof -
  obtain u' m a' where b: "heartbeat (\<lambda>_. ''x'') dropping_beat (new_usage (0, 0)) = (u', m, BeatDone a')"
    using beat_done [of dropping_beat "\<lambda>_. ''x''" "new_usage (0, 0)"] by (auto simp: dropping_beat_def sample_beat_def)
  let ?p = "status_payload (se_now (bt_snapshot dropping_beat))
    (snapshot ''connected'' (se_discovered (bt_snapshot dropping_beat)) a')"
  have "bt_others dropping_beat = (\<lambda>a. fst (agent_on_disconnected (\<lambda>_. ''x'')
      \<lparr>se_now = ''t'', se_discovered = Inr [], se_write = Written\<rparr> (a\<lparr>ws_socket := False, ws_connected := False\<rparr>)))"
    by (simp add: dropping_beat_def)
  from late_heartbeat_says_connected [OF b this refl, of "\<lambda>_. Loaded ?p" Missing default_config "''running''"]
  show ?thesis using b by (fastforce simp: load_config_def)
qed

text \<open>
  A status file that cannot be replaced ends the heartbeats. When the write of the snapshot
  raises after a heartbeat, for instance because another process has the file open on Windows, the
  exception is not caught: the heartbeat is the last one, the loop ends with the exception, and
  with it the agent.
\<close>

theorem status_failure_ends_heartbeats:
  assumes "\<not> ag_stop_event (bt_agent b)" and "ws_connected (bt_agent b)"
    and "se_write (bt_snapshot b) = ReplaceFails x"
  shows "\<exists>u' m. heartbeat_loop dumps (b # bs) u = (u', [(ue_now (bt_usage b), m)], HbRaised x)"
proof -
  obtain u1 usage where u1: "usage_if_due (bt_usage b) u = (u1, usage)" by fastforce
  have "\<exists>m a'. heartbeat dumps b u = (u1, Some m, BeatRaised a' x)"
    using assms(2,3) by (simp add: heartbeat_def Let_def u1 write_status_snapshot_def write_status_def)
  then show ?thesis using assms(1) by auto
qed

theorem status_failure_ends_heartbeats_witness:
  "\<exists>u' m. heartbeat_loop (\<lambda>_. ''x'') [sample_beat 10 (ReplaceFails (OSError ''in use'')), sample_beat 40 Written]
     (new_usage (0, 0)) = (u', [(10, m)], HbRaised (OSError ''in use''))"
  using status_failure_ends_heartbeats [of "sample_beat 10 (ReplaceFails (OSError ''in use''))" "OSError ''in use''"
      "\<lambda>_. ''x''" "[sample_beat 40 Written]" "new_usage (0, 0)"]
  by (simp add: sample_beat_def)

text \<open>Whatever the hub asks for, the heartbeat interval stays at 5 seconds or more.\<close>

lemma interval_at_least_5:
  assumes "5 \<le> ag_interval a" and "agent_on_authenticated dumps e sy m a = (a', r)"
  shows "5 \<le> ag_interval a'"
  using assms
  by (auto simp: agent_on_authenticated_def at_least_5_def write_status_snapshot_def
      split: sum.splits prod.splits unit.splits if_splits)

end
