(* ===== verification/Agent_Run.thy ===== *)
theory Agent_Run
  imports Agent_Loops
begin

text \<open>
  The agent put together, \<^verbatim>\<open>Agent.run\<close> of \<^verbatim>\<open>eres_print_agent/core/agent.py\<close>: the
  callbacks of \<^verbatim>\<open>Agent_Loops\<close> are installed in the reconnect loop of \<^verbatim>\<open>Ws_Client\<close>, and an inbound message
  runs the handler of \<^verbatim>\<open>Job_Worker\<close> to its end, as the receive loop awaits it. Here the handler runs
  without other coroutines between its pieces; how they interleave is the subject of \<^verbatim>\<open>Job_System\<close>.
\<close>

section \<open>Handlers run to their end\<close>

text \<open>The exception that a piece of a handler raises.\<close>

fun handler_error :: "choice \<Rightarrow> handler \<Rightarrow> sys \<Rightarrow> py_error option" where
  "handler_error ch (DGot d v) s = (case v of Inl e \<Rightarrow> Some e | Inr _ \<Rightarrow> None)"
| "handler_error ch (DInsert d) s =
     (case insert_received (ch_now ch) (pd_jobId d) (pd_printerId d) (pd_documentType d) (pd_documentId d)
             (pd_documentUrl d) (pd_copies d) (db s) of
        Inl e \<Rightarrow> Some e
      | Inr _ \<Rightarrow> None)"
| "handler_error ch (DGotAgain d v) s = (case v of Inl e \<Rightarrow> Some e | Inr _ \<Rightarrow> None)"
| "handler_error ch (CGot j v) s = (case v of Inl e \<Rightarrow> Some e | Inr _ \<Rightarrow> None)"
| "handler_error ch h s = None"

fun run_handler :: "nat \<Rightarrow> (nat \<Rightarrow> choice) \<Rightarrow> sys \<Rightarrow> (sys \<times> py_error option) option" where
  "run_handler 0 chs s = (if current s = None then Some (s, None) else None)"
| "run_handler (Suc n) chs s =
     (case current s of
        None \<Rightarrow> Some (s, None)
      | Some h \<Rightarrow>
          (case handler_error (chs 0) h s of
             Some e \<Rightarrow> Some (idle s, Some e)
           | None \<Rightarrow> run_handler n (\<lambda>i. chs (Suc i)) (handler_exec (chs 0) h s)))"

text \<open>The pieces that are left at a program counter; no handler has more than six.\<close>

fun handler_rank :: "handler \<Rightarrow> nat" where
  "handler_rank (DGet d) = 6"
| "handler_rank (DGot d v) = 5"
| "handler_rank (DInsert d) = 4"
| "handler_rank (DAck d) = 2"
| "handler_rank (DSpawn d) = 1"
| "handler_rank (DGetAgain d) = 3"
| "handler_rank (DGotAgain d v) = 2"
| "handler_rank (DResend r) = 1"
| "handler_rank (CGet j) = 4"
| "handler_rank (CGot j v) = 3"
| "handler_rank (CUpd j) = 2"
| "handler_rank (CSend j) = 1"

section \<open>The agent's callbacks\<close>

text \<open>What the environment does during a callback, as a function of the state.\<close>

record agent_env =
  ae_authenticated :: "agent \<Rightarrow> snapshot_env"
  ae_sync :: "agent \<Rightarrow> string \<times> DiscoveredPrinter list result \<times> send_outcome"
  ae_disconnected :: "agent \<Rightarrow> snapshot_env"
  ae_choices :: "agent \<Rightarrow> nat \<Rightarrow> choice"

definition exc_of :: "unit result \<Rightarrow> exc option" where
  "exc_of r = (case r of Inl e \<Rightarrow> Some (Py e) | Inr _ \<Rightarrow> None)"

text \<open>The message is handed to its handler, which runs to its end; fuel 6 is enough
  (\<^verbatim>\<open>run_handler_ends\<close> below).\<close>

definition agent_receive :: "(nat \<Rightarrow> choice) \<Rightarrow> InboundHubMessage \<Rightarrow> agent \<Rightarrow> agent \<times> exc option" where
  "agent_receive chs m a =
     (let b = agent_on_inbound_message m a
      in case run_handler 6 chs (sys.truncate b) of
           None \<Rightarrow> (b, None)
         | Some (s, e) \<Rightarrow> (sys.extend s (sys.more b), map_option Py e))"

definition agent_callbacks :: "(json \<Rightarrow> string) \<Rightarrow> agent_env \<Rightarrow> agent callbacks" where
  "agent_callbacks dumps E =
     \<lparr>on_authenticated = (\<lambda>m a. map_prod id exc_of
        (agent_on_authenticated dumps (ae_authenticated E a) (ae_sync E a) m a)),
      on_inbound_message = (\<lambda>m a. agent_receive (ae_choices E a) m a),
      on_disconnected = (\<lambda>a. map_prod id exc_of (agent_on_disconnected dumps (ae_disconnected E a) a))\<rparr>"

section \<open>The main routine\<close>

text \<open>\<^verbatim>\<open>asyncio.gather\<close> of the three loops, which end in this order: it raises the first exception at once,
  and returns when all have returned.\<close>

datatype loops_end = AllReturned | FirstRaised exc | StillRunning

fun gather :: "nat \<Rightarrow> exc option list \<Rightarrow> loops_end" where
  "gather n [] = (if n = 0 then AllReturned else StillRunning)"
| "gather n (None # rs) = gather (n - 1) rs"
| "gather n (Some e # rs) = FirstRaised e"

record run_result =
  rr_agent :: agent
  rr_end :: loops_end
  rr_store_closed :: bool

text \<open>\<^term>\<open>ends\<close> are the ends of the three loops as they come, \<^term>\<open>later\<close> is the agent as the loops leave it.\<close>

definition agent_run ::
  "(json \<Rightarrow> string) \<Rightarrow> snapshot_env \<Rightarrow> choice \<Rightarrow> (nat \<Rightarrow> choice) \<Rightarrow> exc option list \<Rightarrow> (agent \<Rightarrow> agent) \<Rightarrow>
     agent \<Rightarrow> run_result" where
  "agent_run dumps e ch chs ends later a =
     (case write_status_snapshot dumps e ''disconnected'' a of
        (a1, Inl x) \<Rightarrow> \<lparr>rr_agent = a1, rr_end = FirstRaised (Py x), rr_store_closed = False\<rparr>
      | (a1, Inr _) \<Rightarrow>
          let a2 = on_sys (recover_on_startup ch chs) a1
          in (case list_non_terminal (snd (mark_stuck_printing_as_failed (ch_now ch) (db a1))) of
                Inl x \<Rightarrow> \<lparr>rr_agent = a2, rr_end = FirstRaised (Py x), rr_store_closed = False\<rparr>
              | Inr _ \<Rightarrow> \<lparr>rr_agent = later a2, rr_end = gather 3 ends, rr_store_closed = gather 3 ends \<noteq> StillRunning\<rparr>))"

section \<open>Lemmas\<close>

lemma truncate_fields [simp]:
  "db (sys.truncate a) = db a" "tasks (sys.truncate a) = tasks a" "procs (sys.truncate a) = procs a"
  "current (sys.truncate a) = current a" "ws_sent (sys.truncate a) = ws_sent a"
  "ws_durable_queue (sys.truncate a) = ws_durable_queue a" "ws_socket (sys.truncate a) = ws_socket a"
  by (simp_all add: sys.truncate_def)

lemma extend_fields [simp]:
  "db (sys.extend s m) = db s" "tasks (sys.extend s m) = tasks s" "procs (sys.extend s m) = procs s"
  "current (sys.extend s m) = current s" "ws_sent (sys.extend s m) = ws_sent s"
  "ws_durable_queue (sys.extend s m) = ws_durable_queue s" "sys.more (sys.extend s m) = m"
  "sys.truncate (sys.extend s m) = s"
  by (simp_all add: sys.extend_def sys.truncate_def)

lemma extend_truncate [simp]: "sys.extend (sys.truncate a) (sys.more a) = a"
  by (simp add: sys.extend_def sys.truncate_def)

lemma handler_rank_decreases:
  assumes "current s = Some h" and "handler_error ch h s = None" and "current (handler_exec ch h s) = Some h'"
  shows "handler_rank h' < handler_rank h"
  using assms
  by (cases h) (auto simp: handler_at_def idle_def post_def store_status_def spawn_def resend_terminal_event_def
      send_def cancel_task_def goto_def split: sum.splits option.splits if_splits PrintJobStatus.splits)

lemma run_handler_ends:
  assumes "\<And>h. current s = Some h \<Longrightarrow> handler_rank h \<le> n"
  shows "\<exists>t e. run_handler n chs s = Some (t, e) \<and> current t = None"
  using assms
proof (induction n arbitrary: chs s)
  case 0
  have "handler_rank h \<noteq> 0" for h by (cases h) auto
  with 0 show ?case by (cases "current s") auto
next
  case (Suc n)
  show ?case
  proof (cases "current s")
    case (Some h)
    show ?thesis
    proof (cases "handler_error (chs 0) h s")
      case None
      have "handler_rank h' \<le> n" if "current (handler_exec (chs 0) h s) = Some h'" for h'
        using handler_rank_decreases [OF Some None that] Suc.prems [OF Some] by simp
      then show ?thesis using Suc.IH Some None by auto
    qed (use Some in \<open>simp add: idle_def\<close>)
  qed simp
qed

text \<open>A dispatch for a new job, and one for a job that is still in flight.\<close>

lemma run_handler_six: "run_handler 6 = run_handler (Suc (Suc (Suc (Suc (Suc (Suc 0))))))"
  by (simp add: eval_nat_numeral)

lemma dispatch_new:
  assumes "store_wf (db s)" and "view (db s) (pd_jobId d) = None" and "fits_int64 (pd_copies d)"
  shows "\<exists>t db'. run_handler 6 chs (handle_dispatch d s) = Some (t, None) \<and> current t = None \<and>
    insert_received (ch_now (chs 2)) (pd_jobId d) (pd_printerId d) (pd_documentType d) (pd_documentId d)
      (pd_documentUrl d) (pd_copies d) (db s) = Inr (True, db') \<and>
    db t = db' \<and> tasks t = insert (pd_jobId d) (tasks s) \<and> procs t = (procs s)(pd_jobId d \<mapsto> PStart) \<and>
    wsq.events t = add_mset (PrintJobReceived (ch_now (chs 3)) (pd_jobId d)) (wsq.events s)"
proof -
  have "find_row (db s) (pd_jobId d) = None" using assms(1,2) view_None_iff by blast
  then obtain db' where ins: "insert_received (ch_now (chs 2)) (pd_jobId d) (pd_printerId d) (pd_documentType d)
      (pd_documentId d) (pd_documentUrl d) (pd_copies d) (db s) = Inr (True, db')"
    using assms(3) by (auto simp: insert_received_def)
  moreover have "chs (Suc (Suc 0)) = chs 2" "chs (Suc (Suc (Suc 0))) = chs 3" by (simp_all add: eval_nat_numeral)
  ultimately show ?thesis
    using get_view [OF assms(1), of "pd_jobId d"] assms(2)
    by (simp add: run_handler_six handle_dispatch_def handler_at_def idle_def spawn_def post_def wsq.events_def send_def)
qed

lemma dispatch_again:
  assumes "store_wf (db s)" and "view (db s) (pd_jobId d) = Some r" and "\<not> record_is_terminal r" and "current s = None"
  shows "run_handler 6 chs (handle_dispatch d s) = Some (s, None)"
  using assms get_view [OF assms(1), of "pd_jobId d"]
  by (simp add: run_handler_six handle_dispatch_def handler_at_def idle_def)

lemma agent_receive_dispatch:
  "run_handler 6 chs (handle_dispatch d (sys.truncate a)) = Some (t, e) \<Longrightarrow>
     agent_receive chs (InDispatch d) a = (sys.extend t (sys.more a), map_option Py e)"
  by (simp add: agent_receive_def on_sys_def Let_def)

lemma frames_again:
  assumes "decode R loads raw = Inr (Some (InDispatch d))" and "store_wf (db a)"
    and "view (db a) (pd_jobId d) = Some r" and "\<not> record_is_terminal r" and "current a = None"
  shows "frames_loop (agent_callbacks dumps E) R loads (replicate n raw) fin a = (a, fin)"
proof (induction n)
  case (Suc n)
  have "agent_receive chs (InDispatch d) a = (a, None)" for chs
    using agent_receive_dispatch [OF dispatch_again] assms(2-5) by simp
  with Suc assms(1) show ?case by (simp add: agent_callbacks_def)
qed simp

section \<open>Properties\<close>


definition calm_env :: agent_env where
  "calm_env = (let e = \<lparr>se_now = ''t'', se_discovered = Inr [], se_write = Written\<rparr>
     in \<lparr>ae_authenticated = (\<lambda>_. e), ae_sync = (\<lambda>_. (''t'', Inr [], Accepted)), ae_disconnected = (\<lambda>_. e),
         ae_choices = (\<lambda>_ _. good)\<rparr>)"


text \<open>The status file tells that the agent is disconnected.\<close>

definition shows_disconnected :: "(json \<Rightarrow> string) \<Rightarrow> agent \<Rightarrow> bool" where
  "shows_disconnected dumps a \<longleftrightarrow> \<not> ws_connected a \<and> \<not> ws_socket a \<and>
     (\<exists>now ps. sd_status (ag_status a) = Text (dumps (status_payload now (snapshot ''disconnected'' ps a))))"

lemma shows_disconnected_stop [simp]: "shows_disconnected dumps (ws_stop a) = shows_disconnected dumps a"
  by (simp add: shows_disconnected_def ws_stop_def snapshot_def active_count_def)

lemma disconnect_shows:
  assumes "disconnect (agent_callbacks dumps E) a = (b, x)" and "\<And>a. se_write (ae_disconnected E a) = Written"
  shows "x = None \<and> shows_disconnected dumps b"
proof -
  let ?a = "a\<lparr>ws_socket := False, ws_connected := False\<rparr>"
  obtain b' where w: "write_status_snapshot dumps (ae_disconnected E ?a) ''disconnected'' ?a = (b', Inr ())"
    using assms(2) by (simp add: write_status_snapshot_def write_status_def)
  then have b: "b = b'" "x = None"
    using assms(1) by (simp_all add: disconnect_def agent_callbacks_def agent_on_disconnected_def exc_of_def)
  note s = snapshot_written [OF w]
  have "\<not> ws_connected b' \<and> \<not> ws_socket b'"
    by (subst (1 2) s [THEN conjunct2]) simp
  with s b show ?thesis unfolding shows_disconnected_def by blast
qed

lemma run_forever_shows:
  assumes "run_forever (agent_callbacks dumps E) R loads cns i a = (a', ds, r)"
    and "\<And>a. se_write (ae_disconnected E a) = Written"
    and "shows_disconnected dumps a \<or> cns \<noteq> [] \<and> \<not> ws_stop_event a"
  shows "shows_disconnected dumps a'"
  using assms(1,3)
proof (induction cns arbitrary: i a a' ds r)
  case (Cons cn cns)
  show ?case
  proof (cases "ws_stop_event a")
    case False
    obtain w1 i1 e where s: "session (agent_callbacks dumps E) R loads cn i a = (w1, i1, e)" by (metis prod_cases3)
    obtain w2 e2 where d: "disconnect (agent_callbacks dumps E) (if cn_stop_during cn then ws_stop w1 else w1) = (w2, e2)"
      by fastforce
    note w2 = disconnect_shows [OF d assms(2)]
    let ?w3 = "if cn_stop_in_delay cn then ws_stop w2 else w2"
    obtain w4 ds' r' where rec: "run_forever (agent_callbacks dumps E) R loads cns (Suc i1) ?w3 = (w4, ds', r')"
      by (metis prod_cases3)
    have "a' = w2 \<or> a' = w4"
      using Cons.prems(1) False s d rec by (auto simp: Let_def split: if_splits)
    moreover have "shows_disconnected dumps w4"
      using Cons.IH [OF rec] w2 by simp
    ultimately show ?thesis using w2 by blast
  qed (use Cons.prems in simp)
qed simp



text \<open>The first loop that raises ends \<^verbatim>\<open>run\<close> with its exception, and the store is closed; \<^verbatim>\<open>run\<close> returns
  normally only when the three loops have returned.\<close>

lemma gather_first: "list_all (\<lambda>r. r = None) rs \<Longrightarrow> gather n (rs @ Some e # rest) = FirstRaised e"
  by (induction rs arbitrary: n) auto

lemma gather_returned: "gather n rs = AllReturned \<Longrightarrow> list_all (\<lambda>r. r = None) rs \<and> n \<le> length rs"
  by (induction n rs rule: gather.induct) (auto split: if_splits)

lemma agent_run_raises:
  assumes "se_write e = Written" and "store_wf (db a)" and "list_all (\<lambda>r. r = None) rs"
  shows "rr_end (agent_run dumps e ch chs (rs @ Some x # rest) later a) = FirstRaised x \<and>
    rr_store_closed (agent_run dumps e ch chs (rs @ Some x # rest) later a)"
proof -
  have "store_wf (snd (mark_stuck_printing_as_failed (ch_now ch) (db a)))"
    using assms(2) by (rule store_wf_mark_stuck)
  then obtain rows where "list_non_terminal (snd (mark_stuck_printing_as_failed (ch_now ch) (db a))) = Inr rows"
    using list_non_terminal_set by blast
  then show ?thesis
    using assms(1,3) by (simp add: agent_run_def write_status_snapshot_def write_status_def Let_def gather_first)
qed

lemma agent_run_returns:
  assumes "rr_end (agent_run dumps e ch chs ends later a) = AllReturned"
  shows "list_all (\<lambda>r. r = None) ends \<and> 3 \<le> length ends"
  using assms gather_returned [of 3 ends] by (auto simp: agent_run_def Let_def split: prod.splits sum.splits)

end
