(* ===== verification/Agent_Start.thy ===== *)
theory Agent_Start
  imports Agent_Run Job_Safety
begin

text \<open>
  A new process: the constructors of \<^verbatim>\<open>core/agent.py\<close>, \<^verbatim>\<open>net/ws_client.py\<close>, \<^verbatim>\<open>core/job_worker.py\<close> and
  \<^verbatim>\<open>db/queue_store.py\<close>, over what the last process left on the disk, and how the states that they build fit
  the ones of \<^verbatim>\<open>Job_System\<close>.
\<close>

section \<open>Constructors\<close>

text \<open>What the process finds on its machine; no database file before the first start.\<close>

record machine =
  mc_hostname :: string
  mc_os_name :: string
  mc_platform :: platform
  mc_config_dir :: string
  mc_insecure :: "string option" \<comment> \<open>\<^verbatim>\<open>ERES_PRINT_AGENT_ALLOW_INSECURE_HTTP\<close>\<close>
  mc_db :: "store option"
  mc_fs :: files
  mc_status :: status_dir

text \<open>\<^verbatim>\<open>sqlite3.connect\<close> creates a missing file, and the schema creates missing tables only.\<close>

definition open_store :: "store option \<Rightarrow> store" where
  "open_store f = (case f of None \<Rightarrow> [] | Some rows \<Rightarrow> rows)"

text \<open>Pairing writes texts into the configuration; the model answers \<^verbatim>\<open>TypeError\<close> for other values, where
  the program would fail at their first use.\<close>

fun config_text :: "json \<Rightarrow> string result" where
  "config_text (JStr s) = Inr s"
| "config_text _ = Inl (TypeError ''config'')"

fun optional_text :: "json \<Rightarrow> string option result" where
  "optional_text JNull = Inr None"
| "optional_text v = bind_result (config_text v) (\<lambda>s. Inr (Some s))"

definition allow_insecure_http :: "string option \<Rightarrow> bool" where
  "allow_insecure_http v \<longleftrightarrow> v = Some ''1''"

text \<open>No message has been accepted by a socket yet.\<close>

definition new_ws_client :: "string \<Rightarrow> string \<Rightarrow> string \<Rightarrow> string \<Rightarrow> string \<Rightarrow> string \<Rightarrow> ws_client" where
  "new_ws_client hub_url agent_id agent_secret host os_name agent_version =
     \<lparr>ws_agent_id = agent_id, ws_agent_secret = agent_secret, ws_hostname = host, ws_os_name = os_name,
      ws_agent_version = agent_version, ws_hub_url = hub_url, ws_socket = False, ws_durable_queue = [],
      ws_stop_event = False, ws_connected = False, ws_sent = []\<rparr>"

definition new_job_worker :: "ws_client \<Rightarrow> store \<Rightarrow> files \<Rightarrow> string option \<Rightarrow> string \<Rightarrow> bool \<Rightarrow> sys" where
  "new_job_worker w st files allowed_host download_dir insecure =
     ws_client.extend w (sys.fields allowed_host download_dir insecure st files Down {} Map.empty {} [] None [] [])"

definition new_agent :: "machine \<Rightarrow> AgentConfig \<Rightarrow> string \<Rightarrow> agent result" where
  "new_agent m config agent_secret =
     (if \<not> is_paired config then Inl (RuntimeError ''Agent is not paired'')
      else bind_result (config_text (cfg_agentId config)) (\<lambda>agent_id.
           bind_result (config_text (cfg_hubUrl config)) (\<lambda>hub_url.
           bind_result (optional_text (cfg_allowedDocumentHost config)) (\<lambda>allowed_host.
             Inr (sys.extend
               (new_job_worker
                 (new_ws_client hub_url agent_id agent_secret (mc_hostname m) (mc_os_name m) VERSION)
                 (open_store (mc_db m)) (mc_fs m) allowed_host
                 (DOWNLOADS_DIR (mc_platform m) (mc_config_dir m)) (allow_insecure_http (mc_insecure m)))
               (agent.fields config HEARTBEAT_INTERVAL_SECONDS None None False (mc_status m)))))))"

section \<open>Lemmas\<close>

lemma new_agent_state:
  assumes "new_agent m config secret = Inr a"
  shows "db a = open_store (mc_db m)" "fs a = mc_fs m" "procs a = Map.empty" "life a = Down" "prints a = []"
    "ws_sent a = []" "ws_durable_queue a = []" "ag_status a = mc_status m" "tasks a = {}" "orphans a = []"
    "current a = None" "flushing a = []" "cancel_requested a = {}" "\<not> ws_socket a" "\<not> ws_connected a"
  using assms
  by (auto simp: new_agent_def new_job_worker_def new_ws_client_def sys.defs ws_client.defs agent.defs
      split: if_splits sum.splits)

text \<open>On a fresh installation the job worker starts in the initial state of \<^verbatim>\<open>Job_System\<close>.\<close>

lemma first_start_initial:
  assumes "new_agent m config secret = Inr a" and "mc_db m = None"
  shows "initial (sys.truncate a)"
  using new_agent_state [OF assms(1)] assms(2) by (simp add: initial_def open_store_def sys.defs)

lemma first_start_reachable:
  "new_agent m config secret = Inr a \<Longrightarrow> mc_db m = None \<Longrightarrow> reachable (sys.truncate a)"
  by (intro reachable.start first_start_initial)

text \<open>The step \<^const>\<open>crash\<close> leaves what a new process over the same disk starts from, but for the history.\<close>

lemma restart_is_crash:
  assumes "new_agent m config secret = Inr a" and "mc_db m = Some (db s)" and "mc_fs m = fs s"
  shows "db (crash s) = db a" "fs (crash s) = fs a" "life (crash s) = life a" "procs (crash s) = procs a"
    "tasks (crash s) = tasks a" "cancel_requested (crash s) = cancel_requested a" "flushing (crash s) = flushing a"
    "current (crash s) = current a" "orphans (crash s) = orphans a" "ws_durable_queue (crash s) = ws_durable_queue a"
    "ws_socket (crash s) = ws_socket a" "ws_connected (crash s) = ws_connected a"
  using new_agent_state [OF assms(1)] assms(2,3) by (simp_all add: crash_def open_store_def)

lemma truncate_more_fields [simp]:
  "prints (sys.truncate a) = prints a" "life (sys.truncate a) = life a" "wsq.events (sys.truncate a) = wsq.events a"
  by (simp_all add: sys.truncate_def wsq.events_def)

text \<open>Before the first connection everything that is posted is buffered, in order.\<close>

lemma recover_reports_buffered:
  "\<not> ws_socket s \<Longrightarrow> ws_sent (recover_reports chs js s) = ws_sent s \<and>
     ws_durable_queue (recover_reports chs js s) = ws_durable_queue s @ restart_reports chs js"
  by (induction chs js s rule: recover_reports.induct) (simp_all add: recover_send_def post_def send_def)

lemma fold_resume_client:
  "ws_sent (fold resume_job rs s) = ws_sent s" "ws_durable_queue (fold resume_job rs s) = ws_durable_queue s"
  by (induction rs arbitrary: s) (simp_all add: resume_job_def spawn_def)

lemma recovery_buffered:
  assumes "store_wf (db s)" and "\<not> ws_socket s"
  shows "ws_sent (recover_on_startup ch chs s) = ws_sent s \<and>
    ws_durable_queue (recover_on_startup ch chs s) =
      ws_durable_queue s @ restart_reports chs (fst (mark_stuck_printing_as_failed (ch_now ch) (db s)))"
proof -
  let ?u = "recover_reports chs (fst (mark_stuck_printing_as_failed (ch_now ch) (db s))) (recover_mark ch s)"
  have "store_wf (db ?u)" using assms(1) by (simp add: recover_reports_sel recover_mark_eq store_wf_mark_stuck)
  then obtain rs where "recover_on_startup ch chs s = (fold resume_job rs ?u)\<lparr>life := Up\<rparr>"
    using recover_resume_Up unfolding recover_on_startup_def by blast
  then show ?thesis
    using recover_reports_buffered [of "recover_mark ch s"] assms(2) by (simp add: fold_resume_client recover_mark_eq)
qed

text \<open>\<^verbatim>\<open>run\<close> up to the start of the loops.\<close>

lemma agent_run_recovers:
  assumes "store_wf (db a)" and "se_write e = Written"
  shows "sys.truncate (rr_agent (agent_run dumps e ch chs ends (\<lambda>x. x) a)) = recover_on_startup ch chs (sys.truncate a)"
proof -
  obtain rows where "list_non_terminal (snd (mark_stuck_printing_as_failed (ch_now ch) (db a))) = Inr rows"
    using list_non_terminal_set [OF store_wf_mark_stuck [OF assms(1)]] by blast
  moreover have "sys.truncate (a\<lparr>ag_status := d\<rparr>) = sys.truncate a" for d by (simp add: sys.truncate_def)
  ultimately show ?thesis
    using assms(2) by (simp add: agent_run_def write_status_snapshot_def write_status_def Let_def on_sys_def)
qed

section \<open>Properties\<close>

text \<open>
  C10: A new process takes up what the last one left. The running agent stops at any moment and a new
  process is constructed over its database: once \<^verbatim>\<open>run\<close> has written the status file and recovered, every
  job that was PRINTING is FAILED and no other status has changed, the buffer of the new client
  holds exactly one failure report for each job that was PRINTING, a coroutine runs for exactly the
  jobs that were RECEIVED or WAITING_FOR_PRINTER, and nothing has been printed.
\<close>

theorem restarted_agent:
  assumes "reachable s" and "new_agent m config secret = Inr a" and "mc_db m = Some (db s)"
    and "se_write e = Written"
    and "t = rr_agent (agent_run dumps e ch chs ends (\<lambda>x. x) a)"
  shows "(\<forall>j. job_status (db t) j = map_option (\<lambda>st. if st = PRINTING then FAILED else st) (job_status (db s) j)) \<and>
    (\<exists>js. set js = {j. job_status (db s) j = Some PRINTING} \<and> distinct js \<and>
       ws_durable_queue t = restart_reports chs js \<and> ws_sent t = []) \<and>
    (\<forall>j. procs t j = (if resumable_status (job_status (db s) j) then Some PStart else None)) \<and>
    prints t = []"
proof -
  let ?js = "fst (mark_stuck_printing_as_failed (ch_now ch) (db s))"
  note new = new_agent_state [OF assms(2)]
  have wf: "store_wf (db s)" using reachable_sys_inv [OF assms(1)] by (simp add: sys_inv_def)
  have a: "db a = db s" using new(1) assms(3) by (simp add: open_store_def)
  have t: "sys.truncate t = recover_on_startup ch chs (sys.truncate a)"
    unfolding assms(5) by (rule agent_run_recovers [OF _ assms(4)]) (simp add: a wf)
  have proj: "db t = db (sys.truncate t)" "procs t = procs (sys.truncate t)" "prints t = prints (sys.truncate t)"
    "ws_sent t = ws_sent (sys.truncate t)" "ws_durable_queue t = ws_durable_queue (sys.truncate t)" by simp_all
  have "distinct ?js" "set ?js = {j. job_status (db s) j = Some PRINTING}"
    using wf mark_stuck_ids [OF wf]
    by (auto simp: mark_stuck_printing_as_failed_def store_wf_def Let_def intro: distinct_map_filter)
  moreover have "ws_durable_queue t = restart_reports chs ?js \<and> ws_sent t = []"
    unfolding proj t using recovery_buffered [of "sys.truncate a" ch chs] wf new a by simp
  ultimately show ?thesis
    using recovery_effect [of "sys.truncate a" "sys.truncate t" ch chs] wf a new t unfolding proj by auto
qed

definition shop_machine :: "store option \<Rightarrow> machine" where
  "shop_machine st = \<lparr>mc_hostname = ''h'', mc_os_name = ''os'', mc_platform = OtherPlatform, mc_config_dir = ''c'',
     mc_insecure = None, mc_db = st, mc_fs = Map.empty, mc_status = \<lparr>sd_status = Missing, sd_tmp = Missing\<rparr>\<rparr>"

theorem restarted_agent_witness:
  "\<exists>s a t. reachable s \<and> job_status (db s) ''j'' = Some PRINTING \<and>
     new_agent (shop_machine (Some (db s))) sample_paired ''s'' = Inr a \<and>
     t = rr_agent (agent_run (\<lambda>_. ''x'') \<lparr>se_now = ''t'', se_discovered = Inr [], se_write = Written\<rparr> good (\<lambda>_. good) [] (\<lambda>x. x) a) \<and>
     job_status (db t) ''j'' = Some FAILED \<and> procs t ''j'' = None"
proof -
  obtain s0 s where run: "performs (boot @ accept_job @ work 8 good) fresh_install = Some s0"
    "perform (MProc ''j'' good) s0 = Some s" and st: "job_status (db s) ''j'' = Some PRINTING"
    using printing_run by blast
  have s: "reachable s" using reachable_run [OF run(1)] perform_step [OF run(2)] by (rule reachable.next_step)
  obtain a where a: "new_agent (shop_machine (Some (db s))) sample_paired ''s'' = Inr a"
    by (simp add: new_agent_def sample_paired_def is_paired_def)
  have m: "mc_db (shop_machine (Some (db s))) = Some (db s)" by (simp add: shop_machine_def)
  show ?thesis
    using restarted_agent [OF s a m _ refl, of "\<lparr>se_now = ''t'', se_discovered = Inr [], se_write = Written\<rparr>" "\<lambda>_. ''x''" good "\<lambda>_. good" "[]"]
      s a st by (auto simp: resumable_status_def)
qed

end
