(* ===== verification/Log_Redaction.thy ===== *)
theory Log_Redaction
  imports Agent_Prelude
begin

text \<open>
  Secret redaction, \<^verbatim>\<open>eres_print_agent/logging_setup.py\<close>: the two patterns, \<^verbatim>\<open>_redact\<close>, the logging filter
  and the message that the formatters print. A pattern is a function that tries to match at the
  start of a text and answers the replacement and the length of the match; \<^verbatim>\<open>re_sub\<close> is
  \<^verbatim>\<open>Pattern.sub\<close>, which replaces the leftmost match and goes on behind it. Neither pattern can match
  in two ways from the same start, so greedy matching is exact.
\<close>

type_synonym pattern = "string \<Rightarrow> (string \<times> nat) option"

text \<open>Both patterns match at least one character.\<close>

function re_sub :: "pattern \<Rightarrow> string \<Rightarrow> string" where
  "re_sub m [] = []"
| "re_sub m (c # cs) =
     (case m (c # cs) of
        None \<Rightarrow> c # re_sub m cs
      | Some (r, k) \<Rightarrow> r @ re_sub m (drop (k - 1) cs))"
  by pat_completeness auto
termination
  by (relation "measure (length \<circ> snd)") auto

definition alnum :: "char \<Rightarrow> bool" where
  "alnum c \<longleftrightarrow> (let n = (of_char c :: nat) in 48 \<le> n \<and> n \<le> 57 \<or> 65 \<le> n \<and> n \<le> 90 \<or> 97 \<le> n \<and> n \<le> 122)"

definition secret_char :: "char \<Rightarrow> bool" where
  "secret_char c \<longleftrightarrow> alnum c \<or> c = CHR ''_'' \<or> c = CHR ''-''"

definition bearer_char :: "char \<Rightarrow> bool" where
  "bearer_char c \<longleftrightarrow> secret_char c \<or> c = CHR ''.''"

definition SECRET_PREFIX :: string where "SECRET_PREFIX = ''eres_agent_live_''"

definition AGENT_SECRET_PATTERN :: pattern where
  "AGENT_SECRET_PATTERN s =
     (let token = takeWhile secret_char (drop 16 s)
      in if take 16 s = SECRET_PREFIX \<and> token \<noteq> []
         then Some (SECRET_PREFIX @ ''[redacted]'', 16 + length token) else None)"

definition BEARER_TOKEN_PATTERN :: pattern where
  "BEARER_TOKEN_PATTERN s =
     (let blanks = takeWhile is_space (drop 6 s);
          group1 = take (6 + length blanks) s;
          token = takeWhile bearer_char (drop (6 + length blanks) s)
      in if py_lower (take 6 s) = ''bearer'' \<and> blanks \<noteq> [] \<and> token \<noteq> []
         then Some (group1 @ ''[redacted]'', 6 + length blanks + length token) else None)"

definition redact :: "string \<Rightarrow> string" where
  "redact message = re_sub BEARER_TOKEN_PATTERN (re_sub AGENT_SECRET_PATTERN message)"

text \<open>A log record, as far as the filter and the formatters read it. The operator \<^verbatim>\<open>%\<close> on texts is an
  argument.\<close>

record log_record =
  lr_msg :: string
  lr_args :: "string list"

definition redacting_filter :: "'a log_record_scheme \<Rightarrow> 'a log_record_scheme" where
  "redacting_filter r = r\<lparr>lr_msg := redact (lr_msg r)\<rparr>"

definition get_message :: "(string \<Rightarrow> string list \<Rightarrow> string) \<Rightarrow> 'a log_record_scheme \<Rightarrow> string" where
  "get_message percent r = (if lr_args r = [] then lr_msg r else percent (lr_msg r) (lr_args r))"

section \<open>What makes a redaction final\<close>

text \<open>A text is clean for a pattern when the pattern matches nowhere in it.\<close>

fun clean :: "pattern \<Rightarrow> string \<Rightarrow> bool" where
  "clean m [] \<longleftrightarrow> m [] = None"
| "clean m (c # cs) \<longleftrightarrow> m (c # cs) = None \<and> clean m cs"

lemma clean_iff: "clean m s \<longleftrightarrow> (\<forall>u v. s = u @ v \<longrightarrow> m v = None)"
  by (induction s) (auto simp: Cons_eq_append_conv)

lemma clean_drop: "clean m s \<Longrightarrow> clean m (drop n s)"
  unfolding clean_iff by (metis append.assoc append_take_drop_id)

lemma clean_here: "clean m s \<Longrightarrow> m s = None"
  by (cases s) auto

lemma clean_append: "clean m (a @ b) \<longleftrightarrow> clean m b \<and> (\<forall>i < length a. m (drop i a @ b) = None)"
  by (induction a) (auto simp: less_Suc_eq_0_disj)

lemma re_sub_clean: "clean m s \<Longrightarrow> re_sub m s = s"
  by (induction s) auto

text \<open>
  A redacting pattern matches because of a prefix without opening bracket, keeps some characters
  of its match and puts the mark behind them, and matches neither there nor inside the mark.
\<close>

locale redaction =
  fixes m :: pattern
  assumes form: "m s = Some (r, k) \<Longrightarrow> \<exists>j. j < k \<and> k \<le> length s \<and> r = take j s @ ''[redacted]''"
    and trigger: "m s \<noteq> None \<Longrightarrow> \<exists>p. prefix p s \<and> CHR ''['' \<notin> set p \<and> (\<forall>t. m (p @ t) \<noteq> None)"
    and mark: "i < 10 \<Longrightarrow> m (drop i ''[redacted]'' @ t) = None"
    and kept: "m s = Some (r, k) \<Longrightarrow> i \<le> length r - 10 \<Longrightarrow> m (drop i r @ t) = None"
begin

lemma mark_tail:
  "r = q @ ''[redacted]'' \<Longrightarrow> length q \<le> i \<Longrightarrow> i < length r \<Longrightarrow> m (drop i r @ t) = None"
  using mark [of "i - length q" t] by simp

text \<open>A match survives when the text behind the first opening bracket changes.\<close>

lemma match_transfer:
  assumes "m (u @ CHR ''['' # v) \<noteq> None" shows "m (u @ w) \<noteq> None"
proof -
  obtain p where p: "prefix p (u @ CHR ''['' # v)" "CHR ''['' \<notin> set p" "\<forall>t. m (p @ t) \<noteq> None"
    using trigger [OF assms] by blast
  have "prefix p u"
    using p(1,2) by (auto simp: prefix_append prefix_Cons)
  then show ?thesis using p(3) by (auto simp: prefix_def)
qed

text \<open>Induction along the scan: the end, a character that is copied, a match that is replaced.\<close>

lemma scan_induct [case_names stop copy hit]:
  assumes "P []"
    and "\<And>c cs. m (c # cs) = None \<Longrightarrow> P cs \<Longrightarrow> P (c # cs)"
    and "\<And>c cs r k j. m (c # cs) = Some (r, k) \<Longrightarrow> r = take j (c # cs) @ ''[redacted]'' \<Longrightarrow>
           P (drop (k - 1) cs) \<Longrightarrow> P (c # cs)"
  shows "P s"
proof (induction s rule: length_induct)
  case (1 s)
  show ?case
  proof (cases s)
    case (Cons c cs)
    show ?thesis
    proof (cases "m (c # cs)")
      case None
      then show ?thesis using 1 Cons assms(2) by simp
    next
      case (Some rk)
      obtain r k where rk: "m (c # cs) = Some (r, k)" using Some by (cases rk) auto
      moreover obtain j where "r = take j (c # cs) @ ''[redacted]''" using form [OF rk] by blast
      moreover have "P (drop (k - 1) cs)" using 1 Cons by simp
      ultimately show ?thesis using Cons assms(3) by blast
    qed
  qed (use assms(1) in simp)
qed

lemma unmarked_prefix: "prefix p (re_sub m s) \<Longrightarrow> CHR ''['' \<notin> set p \<Longrightarrow> prefix p s"
proof (induction s arbitrary: p rule: scan_induct)
  case (copy c cs)
  then show ?case by (cases p) auto
next
  case (hit c cs r k j)
  then have "prefix p (take j (c # cs))" by (auto simp: prefix_append prefix_Cons)
  then show ?case using take_is_prefix prefix_order.trans by blast
qed simp

lemma nil_none [simp]: "m [] = None"
  using form [of "[]"] by (cases "m []") auto

lemma replacement_none:
  assumes "m s = Some (r, k)" and "i < length r" shows "m (drop i r @ t) = None"
proof (cases "i \<le> length r - 10")
  case True
  then show ?thesis using kept [OF assms(1)] by simp
next
  case False
  obtain j where r: "r = take j s @ ''[redacted]''" using form [OF assms(1)] by blast
  then have "length (take j s) \<le> i" using False by (simp add: min_def)
  then show ?thesis using mark_tail [OF r _ assms(2)] by blast
qed

lemma re_sub_leaves_none: "clean m (re_sub m s)"
proof (induction s rule: scan_induct)
  case (copy c cs)
  have "m (re_sub m (c # cs)) = None"
  proof (rule ccontr)
    assume "m (re_sub m (c # cs)) \<noteq> None"
    then obtain p where "prefix p (c # cs)" "\<forall>t. m (p @ t) \<noteq> None"
      using trigger unmarked_prefix by blast
    then show False using copy(1) by (metis prefixE)
  qed
  then show ?case using copy by simp
next
  case (hit c cs r k j)
  have "re_sub m (c # cs) = r @ re_sub m (drop (k - 1) cs)" using hit(1) by simp
  then show ?case using hit(3) replacement_none [OF hit(1)] by (simp only: clean_append) blast
qed simp

end

text \<open>One redaction after another: the second brings back no match of the first.\<close>

locale redaction_after = redaction m + first: redaction n for m n
begin

lemma re_sub_keeps_clean: "clean n s \<Longrightarrow> clean n (re_sub m s)"
proof (induction s rule: scan_induct)
  case (copy c cs)
  have "n (re_sub m (c # cs)) = None"
  proof (rule ccontr)
    assume "n (re_sub m (c # cs)) \<noteq> None"
    then obtain p where "prefix p (c # cs)" "\<forall>t. n (p @ t) \<noteq> None"
      using first.trigger unmarked_prefix by blast
    then show False using clean_here [OF copy(3)] by (metis prefixE)
  qed
  then show ?case using copy by simp
next
  case (hit c cs r k j)
  have "n (drop i r @ t) = None" if i: "i < length r" for i t
  proof (cases "i < length (take j (c # cs))")
    case True
    then have "drop i (c # cs) = drop i (take j (c # cs)) @ drop j (c # cs)"
      by (metis append_take_drop_id drop_append diff_is_0_eq drop0 less_imp_le)
    then have "n (drop i (take j (c # cs)) @ drop j (c # cs)) = None"
      using clean_here clean_drop [OF hit(4), of i] by metis
    then have "n (drop i (take j (c # cs)) @ CHR ''['' # ''redacted]'' @ t) = None"
      using first.match_transfer by blast
    then show ?thesis using True hit(2) by simp
  next
    case False
    then show ?thesis using first.mark_tail [OF hit(2) _ i] by (meson not_le)
  qed
  moreover have "clean n (drop (k - 1) cs)" using clean_drop [OF hit(4), of "Suc (k - 1)"] by simp
  moreover have "re_sub m (c # cs) = r @ re_sub m (drop (k - 1) cs)" using hit(1) by simp
  ultimately show ?case using hit(3) by (simp only: clean_append) blast
qed simp

end

section \<open>Both patterns are redactions\<close>

lemma takeWhile_nonempty: "takeWhile P s \<noteq> [] \<longleftrightarrow> (\<exists>c cs. s = c # cs \<and> P c)"
  by (cases s) auto

lemma secret_prefix_length [simp]: "length SECRET_PREFIX = 16"
  by (simp add: SECRET_PREFIX_def)

lemma secret_match:
  "AGENT_SECRET_PATTERN s \<noteq> None \<longleftrightarrow> (\<exists>c rest. s = SECRET_PREFIX @ c # rest \<and> secret_char c)"
proof -
  have "take 16 s = SECRET_PREFIX \<longleftrightarrow> (\<exists>t. s = SECRET_PREFIX @ t)"
    by (metis append_eq_conv_conj append_take_drop_id secret_prefix_length)
  then show ?thesis
    by (auto simp: AGENT_SECRET_PATTERN_def Let_def takeWhile_nonempty)
qed

lemma not_special [simp]: "\<not> secret_char (CHR ''['')" "\<not> secret_char (CHR '']'')" "\<not> bearer_char (CHR ''['')"
  "\<not> is_space (CHR ''['')"
  by code_simp+

lemma below_ten: "i < 10 \<longleftrightarrow> i \<in> {0, 1, 2, 3, 4, 5, 6, 7, 8, 9}" for i :: nat
  by auto

lemma secret_none:
  "AGENT_SECRET_PATTERN s = None \<longleftrightarrow> \<not> (\<exists>c rest. s = SECRET_PREFIX @ c # rest \<and> secret_char c)"
  using secret_match [of s] by blast

interpretation secret: redaction AGENT_SECRET_PATTERN
proof (unfold_locales, goal_cases)
  case (1 s r k)
  then obtain c rest where "s = SECRET_PREFIX @ c # rest" "secret_char c" using secret_match [of s] by auto
  then show ?case
    using 1 length_takeWhile_le [of secret_char rest]
    by (intro exI [of _ 16]) (auto simp: AGENT_SECRET_PATTERN_def Let_def)
next
  case (2 s)
  then obtain c rest where c: "s = SECRET_PREFIX @ c # rest" "secret_char c" unfolding secret_match by blast
  then have "c \<noteq> CHR ''[''" using not_special by blast
  then have "CHR ''['' \<notin> set (SECRET_PREFIX @ [c])" by (simp add: SECRET_PREFIX_def)
  moreover have "AGENT_SECRET_PATTERN ((SECRET_PREFIX @ [c]) @ t) \<noteq> None" for t
    unfolding secret_match using c(2) by simp
  moreover have "prefix (SECRET_PREFIX @ [c]) s" using c(1) by (simp add: prefix_def)
  ultimately show ?case by blast
next
  case (3 i t)
  then show ?case unfolding below_ten by (auto simp: secret_none SECRET_PREFIX_def)
next
  case (4 s r k i t)
  then have r: "r = SECRET_PREFIX @ ''[redacted]''"
    by (auto simp: AGENT_SECRET_PATTERN_def Let_def split: if_splits)
  with 4(2) have "i < 10 \<or> i - 10 < 10 \<and> i = 10 + (i - 10) \<and> i \<le> 16" by auto
  then have "i \<in> {0, 1, 2, 3, 4, 5, 6, 7, 8, 9} \<or> i \<in> {10, 11, 12, 13, 14, 15, 16}" unfolding below_ten by auto
  then show ?case unfolding r by (auto simp: secret_none SECRET_PREFIX_def)
qed

lemma lower_bearer: assumes "py_lower b = ''bearer''" shows "length b = 6"
proof -
  have "length (map lower_char b) = length ''bearer''" using assms unfolding py_lower_def by (rule arg_cong)
  then show ?thesis by simp
qed

lemma space_not_token: "is_space c \<Longrightarrow> \<not> bearer_char c"
  by (auto simp: is_space_def bearer_char_def secret_char_def alnum_def Let_def)

lemma takeWhile_blanks:
  "list_all is_space ws \<Longrightarrow> \<not> is_space c \<Longrightarrow> takeWhile is_space (ws @ c # rest) = ws"
  by (induction ws) auto

lemma bearer_value:
  assumes "py_lower b = ''bearer''" and "list_all is_space ws" and "\<not> is_space c"
  shows "BEARER_TOKEN_PATTERN (b @ ws @ c # rest) =
    (if ws \<noteq> [] \<and> bearer_char c
     then Some (b @ ws @ ''[redacted]'', 6 + length ws + length (takeWhile bearer_char (c # rest))) else None)"
  using assms lower_bearer [OF assms(1)] takeWhile_blanks [OF assms(2,3)]
  by (simp add: BEARER_TOKEN_PATTERN_def Let_def)

lemma bearer_match:
  "BEARER_TOKEN_PATTERN s \<noteq> None \<longleftrightarrow>
     (\<exists>b ws c rest. s = b @ ws @ c # rest \<and> py_lower b = ''bearer'' \<and> ws \<noteq> [] \<and> list_all is_space ws \<and> bearer_char c)"
    (is "?l \<longleftrightarrow> ?r")
proof
  assume ?r
  then show ?l using bearer_value space_not_token by fastforce
next
  assume l: ?l
  define ws where "ws = takeWhile is_space (drop 6 s)"
  have "py_lower (take 6 s) = ''bearer''" "ws \<noteq> []" "takeWhile bearer_char (drop (6 + length ws) s) \<noteq> []"
    using l unfolding BEARER_TOKEN_PATTERN_def Let_def ws_def by (auto split: if_splits)
  moreover from this(3) obtain c rest where c: "drop (6 + length ws) s = c # rest" "bearer_char c"
    by (auto simp: takeWhile_nonempty)
  moreover have "drop 6 s = ws @ drop (length ws) (drop 6 s)"
    unfolding ws_def by (metis takeWhile_dropWhile_id dropWhile_eq_drop)
  then have "s = take 6 s @ ws @ c # rest"
    using c(1) by (metis append_take_drop_id drop_drop add.commute)
  moreover have "list_all is_space ws"
    unfolding ws_def by (auto simp: list_all_iff dest: set_takeWhileD)
  ultimately show ?r by blast
qed

lemma bearer_head: "BEARER_TOKEN_PATTERN (c # cs) \<noteq> None \<Longrightarrow> lower_char c = CHR ''b''"
  unfolding bearer_match by (auto simp: Cons_eq_append_conv py_lower_def)

lemma bearer_none: "lower_char c \<noteq> CHR ''b'' \<Longrightarrow> BEARER_TOKEN_PATTERN (c # cs) = None"
  using bearer_head by blast

lemma mark_lower: "c \<in> set ''[redacted]'' \<Longrightarrow> lower_char c \<noteq> CHR ''b''"
  by (auto simp: lower_char_def Let_def)

lemma space_lower: "is_space c \<Longrightarrow> lower_char c \<noteq> CHR ''b''"
  by (auto simp: lower_char_def is_space_def Let_def)

lemma bearer_tail_lower:
  assumes "py_lower b = ''bearer''" and "0 < i" and "i < 6"
  shows "lower_char (b ! i) \<noteq> CHR ''b''"
proof -
  have "lower_char (b ! i) = ''bearer'' ! i"
    using assms lower_bearer [OF assms(1)] by (metis nth_map py_lower_def)
  moreover have "i = 1 \<or> i = 2 \<or> i = 3 \<or> i = 4 \<or> i = 5" using assms(2,3) by auto
  ultimately show ?thesis by auto
qed

text \<open>Behind its first character a replaced match holds no further start of the pattern.\<close>

lemma bearer_none_at:
  assumes "i < length u" and "lower_char (u ! i) \<noteq> CHR ''b''"
  shows "BEARER_TOKEN_PATTERN (drop i u @ t) = None"
  using assms Cons_nth_drop_Suc [OF assms(1)] bearer_none [OF assms(2)] by (metis append_Cons)

lemma bearer_inner:
  assumes b: "py_lower b = ''bearer''" and u: "\<forall>c \<in> set u. lower_char c \<noteq> CHR ''b''"
    and i: "0 < i" "i < length (b @ u)"
  shows "BEARER_TOKEN_PATTERN (drop i (b @ u) @ t) = None"
proof (rule bearer_none_at [OF i(2)])
  note len = lower_bearer [OF b]
  show "lower_char ((b @ u) ! i) \<noteq> CHR ''b''"
  proof (cases "i < 6")
    case True
    then show ?thesis using bearer_tail_lower [OF b i(1)] len by (simp add: nth_append)
  next
    case False
    then have "(b @ u) ! i \<in> set u" using i(2) len by (simp add: nth_append)
    then show ?thesis using u by blast
  qed
qed

lemma bearer_hit:
  assumes "BEARER_TOKEN_PATTERN s = Some (r, k)"
  obtains b ws c rest where "s = b @ ws @ c # rest" "py_lower b = ''bearer''" "list_all is_space ws" "bearer_char c"
    "r = b @ ws @ ''[redacted]''" "k = 6 + length ws + length (takeWhile bearer_char (c # rest))"
proof -
  obtain b ws c rest where s: "s = b @ ws @ c # rest" "py_lower b = ''bearer''" "ws \<noteq> []"
    "list_all is_space ws" "bearer_char c"
    using bearer_match [of s] assms by blast
  then have "\<not> is_space c" using space_not_token by blast
  from bearer_value [OF s(2,4) this, of rest] s assms that show thesis by simp
qed

interpretation bearer: redaction BEARER_TOKEN_PATTERN
proof (unfold_locales, goal_cases)
  case (1 s r k)
  then show ?case
  proof (rule bearer_hit, goal_cases)
    case (1 b ws c rest)
    then show ?case
      using lower_bearer [OF 1(2)] length_takeWhile_le [of bearer_char rest]
      by (intro exI [of _ "6 + length ws"]) simp
  qed
next
  case (2 s)
  then obtain b ws c rest where s: "s = b @ ws @ c # rest" "py_lower b = ''bearer''" "ws \<noteq> []"
    "list_all is_space ws" "bearer_char c"
    unfolding bearer_match by blast
  have "CHR ''['' \<notin> set b"
  proof
    assume "CHR ''['' \<in> set b"
    then have "lower_char (CHR ''['') \<in> set (py_lower b)" by (simp add: py_lower_def)
    then show False unfolding s(2) by (simp add: lower_char_def)
  qed
  moreover have "CHR ''['' \<notin> set ws" using s(4) not_special(4) by (auto simp: list_all_iff)
  moreover have "c \<noteq> CHR ''[''" using s(5) not_special(3) by blast
  moreover have "BEARER_TOKEN_PATTERN ((b @ ws @ [c]) @ t) \<noteq> None" for t
    unfolding bearer_match using s(2-5) by simp blast
  ultimately show ?case
    using s(1) by (intro exI [of _ "b @ ws @ [c]"]) (simp add: prefix_def)
next
  case (3 i t)
  then have len: "i < length ''[redacted]''" by simp
  from bearer_none_at [OF len mark_lower [OF nth_mem [OF len]]] show ?case .
next
  case (4 s r k i t)
  obtain b ws where s: "py_lower b = ''bearer''" "list_all is_space ws" and r: "r = b @ ws @ ''[redacted]''"
    using bearer_hit [OF 4(1)] by metis
  show ?case
  proof (cases "i = 0")
    case True
    then show ?thesis using r bearer_value [OF s, of "CHR ''[''" "''redacted]'' @ t"] by simp
  next
    case False
    moreover have "i < length r" using 4(2) r lower_bearer [OF s(1)] by simp
    moreover have "\<forall>c \<in> set (ws @ ''[redacted]''). lower_char c \<noteq> CHR ''b''"
      unfolding set_append ball_Un using s(2) space_lower mark_lower unfolding list_all_iff by blast
    ultimately show ?thesis using bearer_inner [OF s(1), of "ws @ ''[redacted]''" i t] unfolding r by blast
  qed
qed

interpretation both: redaction_after BEARER_TOKEN_PATTERN AGENT_SECRET_PATTERN
  by unfold_locales

lemma redact_clean: "clean AGENT_SECRET_PATTERN (redact s)" "clean BEARER_TOKEN_PATTERN (redact s)"
  unfolding redact_def
  by (rule both.re_sub_keeps_clean, rule secret.re_sub_leaves_none) (rule bearer.re_sub_leaves_none)

lemma redact_again: "redact (redact s) = redact s"
  using redact_clean [of s] by (simp add: redact_def [of "redact s"] re_sub_clean)

section \<open>Properties\<close>


text \<open>
  The filter does not see the arguments of a log call. It redacts the format, and the arguments
  are put in later, so a secret that is logged as an argument is printed in full.
\<close>

theorem redaction_skips_arguments:
  assumes "percent ''%s'' [''eres_agent_live_x''] = ''eres_agent_live_x''"
  shows "get_message percent (redacting_filter \<lparr>lr_msg = ''%s'', lr_args = [''eres_agent_live_x'']\<rparr>) =
    ''eres_agent_live_x''"
proof -
  have "redact ''%s'' = ''%s''" by code_simp
  with assms show ?thesis by (simp add: get_message_def redacting_filter_def)
qed

theorem redaction_skips_arguments_witness:
  "get_message (\<lambda>f args. if f = ''%s'' then hd args else f)
     (redacting_filter \<lparr>lr_msg = ''%s'', lr_args = [''eres_agent_live_x'']\<rparr>) = ''eres_agent_live_x''"
  by (rule redaction_skips_arguments) simp

end
