(* ===== verification/Log_Setup.thy ===== *)
theory Log_Setup
  imports Log_Redaction Protocol
begin

text \<open>
  The handlers and formatters of \<^verbatim>\<open>eres_print_agent/logging_setup.py\<close>: what \<^verbatim>\<open>configure_logging\<close> installs and
  the lines that a log call then writes. The two time texts of a record, the text of its exception,
  the operator \<^verbatim>\<open>%\<close> and the JSON writer are arguments; the rotation of the file is left out.
\<close>

record log_event = log_record +
  le_ts :: string
  le_asctime :: string
  le_levelname :: string
  le_name :: string
  le_exc_info :: "string option" \<comment> \<open>the formatted exception, if there is one\<close>

definition json_line :: "(json \<Rightarrow> string) \<Rightarrow> (string \<Rightarrow> string list \<Rightarrow> string) \<Rightarrow> log_event \<Rightarrow> string" where
  "json_line dumps percent r =
     dumps (JObj ([(''ts'', JStr (le_ts r)), (''level'', JStr (le_levelname r)), (''logger'', JStr (le_name r)),
                   (''message'', JStr (get_message percent r))] @
                  (case le_exc_info r of None \<Rightarrow> [] | Some t \<Rightarrow> [(''exc_info'', JStr t)])))"

text \<open>The standard formatter puts the exception on a line of its own.\<close>

definition text_line :: "(string \<Rightarrow> string list \<Rightarrow> string) \<Rightarrow> log_event \<Rightarrow> string" where
  "text_line percent r =
     (let s = le_asctime r @ '' '' @ le_levelname r @ '' '' @ le_name r @ '': '' @ get_message percent r
      in s @ (case le_exc_info r of
                None \<Rightarrow> []
              | Some t \<Rightarrow> if (of_char (last s) :: nat) = 10 then t else char_of (10 :: nat) # t))"

datatype log_target = AgentLog | Stdout

record log_handler =
  lh_target :: log_target
  lh_json :: bool \<comment> \<open>\<^verbatim>\<open>JsonFormatter\<close>, or the plain format\<close>
  lh_redacts :: bool \<comment> \<open>the handler has a \<^verbatim>\<open>RedactingFilter\<close>\<close>

record log_root =
  rt_level :: string
  rt_handlers :: "log_handler list"

text \<open>\<^verbatim>\<open>configure_logging\<close>: the exceptions of creating the directories, of a level that does not exist and of
  opening the file are arguments.\<close>

definition configure_logging ::
  "py_error option \<Rightarrow> (string \<Rightarrow> py_error option) \<Rightarrow> py_error option \<Rightarrow> bool \<Rightarrow> string \<Rightarrow> log_root \<Rightarrow>
     log_root \<times> unit result" where
  "configure_logging dirs bad_level open_file has_stdout level lg =
     (case dirs of
        Some e \<Rightarrow> (lg, Inl e)
      | None \<Rightarrow> (case bad_level level of
          Some e \<Rightarrow> (lg, Inl e)
        | None \<Rightarrow>
            let lg = \<lparr>rt_level = level, rt_handlers = []\<rparr>
            in (case open_file of
                  Some e \<Rightarrow> (lg, Inl e)
                | None \<Rightarrow>
                    (lg\<lparr>rt_handlers := \<lparr>lh_target = AgentLog, lh_json = True, lh_redacts = True\<rparr> #
                       (if has_stdout then [\<lparr>lh_target = Stdout, lh_json = False, lh_redacts = True\<rparr>] else [])\<rparr>,
                     Inr ()))))"

text \<open>A record goes through the handlers in order; a filter changes the record itself, for the later
  handlers too.\<close>

fun emit ::
  "(json \<Rightarrow> string) \<Rightarrow> (string \<Rightarrow> string list \<Rightarrow> string) \<Rightarrow> log_handler list \<Rightarrow> log_event \<Rightarrow> (log_target \<times> string) list"
where
  "emit dumps percent [] r = []"
| "emit dumps percent (h # hs) r =
     (let r' = (if lh_redacts h then redacting_filter r else r)
      in (lh_target h, if lh_json h then json_line dumps percent r' else text_line percent r') #
         emit dumps percent hs r')"

section \<open>Properties\<close>

text \<open>
  Every handler redacts. After \<^verbatim>\<open>configure_logging\<close>, a log call without arguments writes one line to the
  file and, when there is a standard output, one to it, and the message in both is the redacted one:
  no handler prints the text as it was logged, and the second redaction changes nothing.
\<close>

theorem handlers_redact:
  assumes "configure_logging dirs bad_level open_file has_stdout level lg = (lg', Inr ())" and "lr_args r = []"
  shows "emit dumps percent (rt_handlers lg') r =
    (AgentLog, json_line dumps percent (r\<lparr>lr_msg := redact (lr_msg r)\<rparr>)) #
    (if has_stdout then [(Stdout, text_line percent (r\<lparr>lr_msg := redact (lr_msg r)\<rparr>))] else []) \<and>
    get_message percent (r\<lparr>lr_msg := redact (lr_msg r)\<rparr>) = redact (lr_msg r)"
  using assms
  by (auto simp: configure_logging_def Let_def redacting_filter_def redact_again get_message_def split: option.splits if_splits)

definition leaking_event :: log_event where
  "leaking_event = \<lparr>lr_msg = ''Agent loop crashed'', lr_args = [], le_ts = ''t'', le_asctime = ''t'', le_levelname = ''ERROR'',
     le_name = ''n'', le_exc_info = Some ''RuntimeError: eres_agent_live_abc''\<rparr>"

theorem handlers_redact_witness:
  "\<exists>lg'. configure_logging None (\<lambda>_. None) None True ''INFO'' \<lparr>rt_level = ''WARNING'', rt_handlers = []\<rparr> = (lg', Inr ()) \<and>
     map fst (emit (\<lambda>_. ''x'') (\<lambda>s _. s) (rt_handlers lg') leaking_event) = [AgentLog, Stdout]"
proof -
  obtain lg' where c: "configure_logging None (\<lambda>_. None) None True ''INFO'' \<lparr>rt_level = ''WARNING'', rt_handlers = []\<rparr> =
      (lg', Inr ())" by (simp add: configure_logging_def Let_def)
  from handlers_redact [OF c, of leaking_event "\<lambda>_. ''x''" "\<lambda>s _. s"] c show ?thesis by (auto simp: leaking_event_def)
qed

text \<open>
  An exception is not redacted. The text of the exception that a log call carries is added behind the
  redacted message by both formatters as it is, so a secret in it reaches the file and the output.
\<close>

theorem exception_not_redacted:
  assumes "configure_logging dirs bad_level open_file True level lg = (lg', Inr ())" and "le_exc_info r = Some t"
  shows "\<exists>line. (Stdout, line) \<in> set (emit dumps percent (rt_handlers lg') r) \<and> (\<exists>pre. line = pre @ t)"
proof -
  have "\<exists>pre. text_line percent q = pre @ t" if "le_exc_info q = Some t" for q
  proof -
    let ?s = "le_asctime q @ '' '' @ le_levelname q @ '' '' @ le_name q @ '': '' @ get_message percent q"
    have "text_line percent q = ?s @ (if (of_char (last ?s) :: nat) = 10 then t else char_of (10 :: nat) # t)"
      by (simp only: text_line_def Let_def that option.case)
    also have "\<dots> = (?s @ (if (of_char (last ?s) :: nat) = 10 then [] else [char_of (10 :: nat)])) @ t" by simp
    finally have "text_line percent q = \<dots>" .
    then show ?thesis by blast
  qed
  then show ?thesis
    using assms
    by (auto simp: configure_logging_def Let_def redacting_filter_def split: option.splits)
qed

theorem exception_not_redacted_witness:
  "\<exists>lg' line. configure_logging None (\<lambda>_. None) None True ''INFO'' \<lparr>rt_level = ''WARNING'', rt_handlers = []\<rparr> = (lg', Inr ()) \<and>
     (Stdout, line) \<in> set (emit (\<lambda>_. ''x'') (\<lambda>s _. s) (rt_handlers lg') leaking_event) \<and>
     (\<exists>pre. line = pre @ ''RuntimeError: eres_agent_live_abc'')"
proof -
  obtain lg' where c: "configure_logging None (\<lambda>_. None) None True ''INFO'' \<lparr>rt_level = ''WARNING'', rt_handlers = []\<rparr> =
      (lg', Inr ())" by (simp add: configure_logging_def Let_def)
  from exception_not_redacted [OF c, of leaking_event "''RuntimeError: eres_agent_live_abc''" "\<lambda>_. ''x''" "\<lambda>s _. s"] c
  show ?thesis by (auto simp: leaking_event_def)
qed

end
