(* ===== verification/Cli_Args.thy ===== *)
theory Cli_Args
  imports Metrics
begin

text \<open>
  The arguments of the command line: the table that \<^verbatim>\<open>build_parser\<close> of \<^verbatim>\<open>eres_print_agent/cli.py\<close> builds,
  and what \<^verbatim>\<open>parse_args\<close> of the standard library's argparse makes of an argument list with it, as
  CPython 3.11 does: long options may be abbreviated and may carry their value after an equals sign,
  options and positionals mix, \<^verbatim>\<open>--\<close> ends the options, negative numbers are values. The outcome is a
  command or the exit code with which argparse leaves the process; its texts are not modelled.

  Shown here: every command has a command line that reads back as it, whatever its texts are; an
  argument list is refused with 2 or, when help is asked for, answered with 0; and a command is only
  reached by its full name.
\<close>

section \<open>Commands\<close>

datatype command =
    CVersion
  | CPair string "string option" bool
  | CRun
  | CInstall
  | CUninstall
  | CStart
  | CStop
  | CRestart
  | CStatus bool
  | CPrinters bool
  | CLogs int
  | CTestPrint "string option"

fun command_name :: "command \<Rightarrow> string" where
  "command_name CVersion = ''version''"
| "command_name (CPair _ _ _) = ''pair''"
| "command_name CRun = ''run''"
| "command_name CInstall = ''install''"
| "command_name CUninstall = ''uninstall''"
| "command_name CStart = ''start''"
| "command_name CStop = ''stop''"
| "command_name CRestart = ''restart''"
| "command_name (CStatus _) = ''status''"
| "command_name (CPrinters _) = ''printers''"
| "command_name (CLogs _) = ''logs''"
| "command_name (CTestPrint _) = ''test-print''"

section \<open>The parser\<close>

text \<open>The actions that the program uses: \<^verbatim>\<open>store_true\<close>, and \<^verbatim>\<open>store\<close> of a text or an integer with a
  default. Every parser has the help options.\<close>

datatype option_action = Help | StoreTrue | StoreText "string option" | StoreInt int

record option_spec =
  op_flag :: string
  op_dest :: string
  op_action :: option_action

record sub_parser =
  sp_name :: string
  sp_positional :: "string option"
  sp_options :: "option_spec list"

definition option_spec :: "string \<Rightarrow> string \<Rightarrow> option_action \<Rightarrow> option_spec" where
  "option_spec flag dest act = \<lparr>op_flag = flag, op_dest = dest, op_action = act\<rparr>"

definition sub_parser :: "string \<Rightarrow> string option \<Rightarrow> option_spec list \<Rightarrow> sub_parser" where
  "sub_parser name pos opts = \<lparr>sp_name = name, sp_positional = pos, sp_options = opts\<rparr>"

definition help_options :: "option_spec list" where
  "help_options = [option_spec ''-h'' ''help'' Help, option_spec ''--help'' ''help'' Help]"

definition build_parser :: "sub_parser list" where
  "build_parser =
     [sub_parser ''version'' None [],
      sub_parser ''pair'' (Some ''code'')
        [option_spec ''--web-url'' ''web_url'' (StoreText None), option_spec ''--no-service'' ''no_service'' StoreTrue],
      sub_parser ''run'' None [],
      sub_parser ''install'' None [],
      sub_parser ''uninstall'' None [],
      sub_parser ''start'' None [],
      sub_parser ''stop'' None [],
      sub_parser ''restart'' None [],
      sub_parser ''status'' None [option_spec ''--json'' ''json'' StoreTrue],
      sub_parser ''printers'' None [option_spec ''--json'' ''json'' StoreTrue],
      sub_parser ''logs'' None [option_spec ''--lines'' ''lines'' (StoreInt 200)],
      sub_parser ''test-print'' None [option_spec ''--printer'' ''printer'' (StoreText None)]]"

section \<open>Reading arguments\<close>

text \<open>What an argument string is. The value an option string carries comes with whether an equals sign
  separates it.\<close>

datatype token = Arg string | Dashes | Opt option_spec "(bool \<times> string) option" | Unknown

definition drop_newline :: "string \<Rightarrow> string" where
  "drop_newline s = (if s \<noteq> [] \<and> (of_char (last s) :: nat) = 10 then butlast s else s)"

definition looks_negative :: "string \<Rightarrow> bool" where
  "looks_negative arg =
     (let d = tl (drop_newline arg); (p, dot, q) = partition_at CHR ''.'' d
      in d \<noteq> [] \<and> list_all is_digit d \<or> dot \<and> list_all is_digit p \<and> q \<noteq> [] \<and> list_all is_digit q)"

text \<open>\<^verbatim>\<open>_get_option_tuples\<close>: the options an abbreviation may stand for.\<close>

definition option_tuples :: "option_spec list \<Rightarrow> string \<Rightarrow> token list" where
  "option_tuples opts arg =
     (if starts_with ''--'' arg
      then (case partition_at CHR ''='' arg of (pre, sep, post) \<Rightarrow>
              map (\<lambda>p. Opt p (if sep then Some (True, post) else None))
                (filter (\<lambda>p. starts_with pre (op_flag p)) opts))
      else map (\<lambda>p. Opt p (if op_flag p = take 2 arg then Some (False, drop 2 arg) else None))
             (filter (\<lambda>p. op_flag p = take 2 arg \<or> starts_with arg (op_flag p)) opts))"

definition find_option :: "option_spec list \<Rightarrow> string \<Rightarrow> option_spec option" where
  "find_option opts flag = find (\<lambda>p. op_flag p = flag) opts"

text \<open>\<^verbatim>\<open>_parse_optional\<close>; no token for an ambiguous abbreviation.\<close>

definition parse_optional :: "option_spec list \<Rightarrow> string \<Rightarrow> token option" where
  "parse_optional opts arg =
     (if arg = [] \<or> hd arg \<noteq> CHR ''-'' then Some (Arg arg)
      else case find_option opts arg of
             Some p \<Rightarrow> Some (Opt p None)
           | None \<Rightarrow>
               if length arg = 1 then Some (Arg arg)
               else case partition_at CHR ''='' arg of (pre, sep, post) \<Rightarrow>
                 (case (if sep then find_option opts pre else None) of
                    Some p \<Rightarrow> Some (Opt p (Some (True, post)))
                  | None \<Rightarrow>
                      (case option_tuples opts arg of
                         [t] \<Rightarrow> Some t
                       | _ # _ # _ \<Rightarrow> None
                       | [] \<Rightarrow> if looks_negative arg \<or> CHR '' '' \<in> set arg then Some (Arg arg) else Some Unknown)))"

fun tokens :: "option_spec list \<Rightarrow> string list \<Rightarrow> token list option" where
  "tokens opts [] = Some []"
| "tokens opts (arg # args) =
     (if arg = ''--'' then Some (Dashes # map Arg args)
      else case parse_optional opts arg of
             None \<Rightarrow> None
           | Some t \<Rightarrow> map_option ((#) t) (tokens opts args))"

datatype arg_value = AText "string option" | AInt int | ABool bool

type_synonym namespace = "string \<rightharpoonup> arg_value"

datatype 'a parsed = Parsed 'a | Exits int

text \<open>A help option prints the help and leaves with 0, unless it is given a value; letters after
  \<^verbatim>\<open>-h\<close> are further options.\<close>

definition help_taken :: "(bool \<times> string) option \<Rightarrow> bool" where
  "help_taken e =
     (case e of
        None \<Rightarrow> True
      | Some (True, _) \<Rightarrow> False
      | Some (False, t) \<Rightarrow>
          (let r = dropWhile (\<lambda>c. c = CHR ''h'') t in r = [] \<or> hd r \<noteq> CHR ''='' \<and> hd r \<noteq> CHR ''-''))"

definition store_value :: "option_spec \<Rightarrow> string \<Rightarrow> namespace \<Rightarrow> namespace option" where
  "store_value p v ns =
     (case op_action p of
        StoreInt _ \<Rightarrow> (case py_int v of Inl _ \<Rightarrow> None | Inr n \<Rightarrow> Some (ns(op_dest p \<mapsto> AInt n)))
      | _ \<Rightarrow> Some (ns(op_dest p \<mapsto> AText (Some v))))"

text \<open>
  \<^verbatim>\<open>_parse_known_args\<close> of a subcommand's parser: the positional that is still missing, the namespace so
  far, and whether strings were left over.
\<close>

definition drop_dashes :: "token list \<Rightarrow> token list" where
  "drop_dashes ts = (case ts of Dashes # us \<Rightarrow> us | _ \<Rightarrow> ts)"

lemma length_drop_dashes: "length (drop_dashes ts) \<le> length ts"
  by (simp add: drop_dashes_def split: list.split token.split)

function parse_tokens :: "token list \<Rightarrow> string option \<Rightarrow> namespace \<Rightarrow> bool \<Rightarrow> (namespace \<times> bool) parsed" where
  "parse_tokens [] pos ns extras = (if pos = None then Parsed (ns, extras) else Exits 2)"
| "parse_tokens (Unknown # ts) pos ns extras = parse_tokens ts pos ns True"
| "parse_tokens (Arg s # ts) pos ns extras =
     (case pos of
        None \<Rightarrow> parse_tokens ts None ns True
      | Some d \<Rightarrow> parse_tokens (drop_dashes ts) None (ns(d \<mapsto> AText (Some s))) extras)"
| "parse_tokens (Dashes # ts) pos ns extras =
     (case (pos, ts) of
        (Some d, Arg s # us) \<Rightarrow> parse_tokens us None (ns(d \<mapsto> AText (Some s))) extras
      | _ \<Rightarrow> parse_tokens ts pos ns True)"
| "parse_tokens (Opt p e # ts) pos ns extras =
     (case op_action p of
        Help \<Rightarrow> Exits (if help_taken e then 0 else 2)
      | StoreTrue \<Rightarrow>
          if e = None then parse_tokens ts pos (ns(op_dest p \<mapsto> ABool True)) extras else Exits 2
      | _ \<Rightarrow>
          (case e of
             Some (_, v) \<Rightarrow> (case store_value p v ns of None \<Rightarrow> Exits 2 | Some ns' \<Rightarrow> parse_tokens ts pos ns' extras)
           | None \<Rightarrow>
               (case ts of
                  Arg v # us \<Rightarrow> (case store_value p v ns of None \<Rightarrow> Exits 2 | Some ns' \<Rightarrow> parse_tokens us pos ns' extras)
                | _ \<Rightarrow> Exits 2)))"
  by pat_completeness auto
termination
  by (relation "measure (\<lambda>(ts, _). length ts)") (auto simp: le_imp_less_Suc [OF length_drop_dashes])

fun default_value :: "option_action \<Rightarrow> arg_value" where
  "default_value Help = AText None"
| "default_value StoreTrue = ABool False"
| "default_value (StoreText d) = AText d"
| "default_value (StoreInt d) = AInt d"

definition defaults :: "sub_parser \<Rightarrow> namespace" where
  "defaults sp = map_of (map (\<lambda>p. (op_dest p, default_value (op_action p))) (sp_options sp))"

definition parse_sub :: "sub_parser \<Rightarrow> string list \<Rightarrow> (namespace \<times> bool) parsed" where
  "parse_sub sp args =
     (case tokens (help_options @ sp_options sp) args of
        None \<Rightarrow> Exits 2
      | Some ts \<Rightarrow> parse_tokens ts (sp_positional sp) (defaults sp) False)"

text \<open>The top-level parser, whose only options are the help options: the first argument names the
  subcommand, which gets all the rest. Strings left over are an error at the end.\<close>

fun parse_main :: "sub_parser list \<Rightarrow> bool \<Rightarrow> string list \<Rightarrow> (string \<times> namespace) parsed" where
  "parse_main sps extras [] = Exits 2"
| "parse_main sps extras (arg # args) =
     (if arg = ''--'' then Exits 2
      else case parse_optional help_options arg of
             Some (Arg _) \<Rightarrow>
               (case find (\<lambda>sp. sp_name sp = arg) sps of
                  None \<Rightarrow> Exits 2
                | Some sp \<Rightarrow>
                    (case parse_sub sp args of
                       Exits n \<Rightarrow> Exits n
                     | Parsed (ns, extras') \<Rightarrow> if extras \<or> extras' then Exits 2 else Parsed (arg, ns)))
           | Some (Opt _ e) \<Rightarrow> Exits (if help_taken e then 0 else 2)
           | Some Unknown \<Rightarrow> parse_main sps True args
           | _ \<Rightarrow> Exits 2)"

text \<open>The command functions read their arguments off the namespace.\<close>

definition text_arg :: "namespace \<Rightarrow> string \<Rightarrow> string option" where
  "text_arg ns d = (case ns d of Some (AText v) \<Rightarrow> v | _ \<Rightarrow> None)"

definition bool_arg :: "namespace \<Rightarrow> string \<Rightarrow> bool" where
  "bool_arg ns d \<longleftrightarrow> ns d = Some (ABool True)"

definition int_arg :: "namespace \<Rightarrow> string \<Rightarrow> int" where
  "int_arg ns d = (case ns d of Some (AInt n) \<Rightarrow> n | _ \<Rightarrow> 0)"

definition command_of :: "string \<Rightarrow> namespace \<Rightarrow> command option" where
  "command_of name ns = map_of
     [(''version'', CVersion),
      (''pair'', CPair (case text_arg ns ''code'' of None \<Rightarrow> [] | Some c \<Rightarrow> c) (text_arg ns ''web_url'') (bool_arg ns ''no_service'')),
      (''run'', CRun), (''install'', CInstall), (''uninstall'', CUninstall), (''start'', CStart), (''stop'', CStop),
      (''restart'', CRestart), (''status'', CStatus (bool_arg ns ''json'')), (''printers'', CPrinters (bool_arg ns ''json'')),
      (''logs'', CLogs (int_arg ns ''lines'')), (''test-print'', CTestPrint (text_arg ns ''printer''))] name"

definition parse_args :: "string list \<Rightarrow> command parsed" where
  "parse_args args =
     (case parse_main build_parser False args of
        Exits n \<Rightarrow> Exits n
      | Parsed (name, ns) \<Rightarrow> (case command_of name ns of None \<Rightarrow> Exits 2 | Some c \<Rightarrow> Parsed c))"

section \<open>A command line for every command\<close>

definition render :: "command \<Rightarrow> string list" where
  "render c = command_name c #
     (case c of
        CPair code web_url no_service \<Rightarrow>
          (case web_url of None \<Rightarrow> [] | Some u \<Rightarrow> [''--web-url='' @ u]) @
          (if no_service then [''--no-service''] else []) @ [''--'', code]
      | CStatus as_json \<Rightarrow> if as_json then [''--json''] else []
      | CPrinters as_json \<Rightarrow> if as_json then [''--json''] else []
      | CLogs n \<Rightarrow> [''--lines='' @ int_digits n]
      | CTestPrint (Some p) \<Rightarrow> [''--printer='' @ p]
      | _ \<Rightarrow> [])"

lemmas parser_simps = build_parser_def sub_parser_def option_spec_def help_options_def find_option_def
  parse_optional_def parse_sub_def defaults_def parse_args_def command_of_def bool_arg_def text_arg_def
  int_arg_def store_value_def drop_dashes_def

lemma partition_value:
  "partition_at CHR ''='' (''--web-url='' @ v) = (''--web-url'', True, v)"
  "partition_at CHR ''='' (''--lines='' @ v) = (''--lines'', True, v)"
  "partition_at CHR ''='' (''--printer='' @ v) = (''--printer'', True, v)"
  using partition_at_found [of "CHR ''=''" "''--web-url''" v] partition_at_found [of "CHR ''=''" "''--lines''" v]
    partition_at_found [of "CHR ''=''" "''--printer''" v] by simp_all

lemma is_digit_char: "k < (10 :: nat) \<Longrightarrow> is_digit (char_of (48 + k))"
  and digit_not_space: "is_digit c \<Longrightarrow> \<not> is_space c"
  and digit_not_sign: "is_digit c \<Longrightarrow> c \<noteq> CHR ''-'' \<and> c \<noteq> CHR ''+'' \<and> c \<noteq> CHR ''_''"
  by (auto simp: is_digit_def is_space_def)

lemma nat_digits_are_digits: "list_all is_digit (nat_digits n) \<and> nat_digits n \<noteq> []"
proof (induction n rule: nat_digits.induct)
  case (1 n)
  then show ?case by (subst (1 2) nat_digits.simps) (auto intro!: is_digit_char)
qed

lemma grouped_all_digits: "list_all is_digit s \<Longrightarrow> s \<noteq> [] \<Longrightarrow> grouped_digits s"
  by (induction s rule: grouped_digits.induct) (auto dest: digit_not_sign)

lemma digits_nat_digits: "digits_nat (nat_digits n) = n"
proof (induction n rule: nat_digits.induct)
  case (1 n)
  show ?case
  proof (cases "n < 10")
    case True
    then show ?thesis by (subst nat_digits.simps) (simp add: digits_nat_def is_digit_char)
  next
    case False
    then have "digits_nat (nat_digits n) = 10 * digits_nat (nat_digits (n div 10)) + n mod 10"
      by (subst nat_digits.simps) (simp add: digits_nat_def is_digit_char)
    with 1 False show ?thesis by simp
  qed
qed

lemma py_strip_no_space: "list_all (\<lambda>c. \<not> is_space c) s \<Longrightarrow> py_strip s = s"
proof -
  have "dropWhile is_space t = t" if "list_all (\<lambda>c. \<not> is_space c) t" for t using that by (cases t) auto
  then show "list_all (\<lambda>c. \<not> is_space c) s \<Longrightarrow> py_strip s = s" by (simp add: py_strip_def)
qed

lemma int_digits_reads: "py_int (int_digits n) = Inr n"
proof -
  have digits: "list_all is_digit (nat_digits k)" "nat_digits k \<noteq> []" for k using nat_digits_are_digits by auto
  have hd: "is_digit (hd (nat_digits k))" for k using digits [of k] by (cases "nat_digits k") auto
  have "list_all (\<lambda>c. \<not> is_space c) (nat_digits k)" for k
    using digits(1) [of k] by (auto simp: list_all_iff digit_not_space)
  moreover have "\<not> is_space CHR ''-''" by (simp add: is_space_def)
  ultimately have "py_strip (int_digits n) = int_digits n"
    by (simp add: int_digits_def py_strip_no_space)
  then show ?thesis
    using digits digit_not_sign [OF hd] by (simp add: py_int_def int_digits_def grouped_all_digits digits_nat_digits)
qed

lemma parse_rendered: "parse_args (render c) = Parsed c"
proof (cases c)
  case (CPair code web_url no_service)
  then show ?thesis
    by (cases web_url; cases no_service)
      (simp_all add: render_def parser_simps partition_value [simplified] starts_with_def)
next
  case (CStatus b)
  then show ?thesis by (cases b) (simp_all add: render_def parser_simps)
next
  case (CPrinters b)
  then show ?thesis by (cases b) (simp_all add: render_def parser_simps)
next
  case (CLogs n)
  then show ?thesis
    by (simp add: render_def parser_simps partition_value [simplified] int_digits_reads)
next
  case (CTestPrint p)
  then show ?thesis
    by (cases p) (simp_all add: render_def parser_simps partition_value [simplified])
qed (simp_all add: render_def parser_simps)

text \<open>
  C38: Every command can be given. For every command, whatever its texts and numbers are, the command
  line that \<^verbatim>\<open>render\<close> builds is read back by \<^verbatim>\<open>parse_args\<close> as exactly this command: codes and names that
  look like options, empty texts and negative numbers included.
\<close>

theorem command_line_roundtrip: "parse_args (render c) = Parsed c"
  by (rule parse_rendered)

section \<open>What argparse lets through\<close>

text \<open>An argument that asks for help: \<^verbatim>\<open>-h\<close>, with or without letters after it, or an abbreviation of
  \<^verbatim>\<open>--help\<close>.\<close>

definition asks_help :: "string \<Rightarrow> bool" where
  "asks_help a \<longleftrightarrow> starts_with ''-h'' a \<or> 2 < length a \<and> starts_with a ''--help''"

definition table_ok :: "option_spec list \<Rightarrow> bool" where
  "table_ok opts \<longleftrightarrow> (\<forall>p \<in> set opts. op_action p = Help \<longrightarrow> op_flag p \<in> {''-h'', ''--help''})"

lemma find_option_mem: "find_option opts f = Some p \<Longrightarrow> p \<in> set opts \<and> op_flag p = f"
  unfolding find_option_def by (rule find_key_SomeD)

lemma option_tuples_help:
  assumes "Opt p e \<in> set (option_tuples opts a)" and "table_ok opts" and "op_action p = Help"
    and "help_taken e" and "a \<noteq> ''--''" and "length a \<noteq> 1" and "a \<noteq> []" and "hd a = CHR ''-''"
  shows "asks_help a"
proof -
  have flag: "op_flag p = ''-h'' \<or> op_flag p = ''--help''"
    using assms(1-3) by (auto simp: option_tuples_def table_ok_def split: if_splits prod.splits)
  obtain b cs where a: "a = CHR ''-'' # b # cs" using assms(6-8) by (cases a; cases "tl a") auto
  show ?thesis
  proof (cases "b = CHR ''-''")
    case True
    then obtain d ds where cs: "cs = d # ds" using assms(5) a by (cases cs) auto
    have "starts_with ''--'' a" using a True by (simp add: starts_with_def)
    moreover obtain pre sep post where part: "partition_at CHR ''='' a = (pre, sep, post)"
      by (metis prod_cases3)
    ultimately have "\<not> sep \<and> starts_with pre (op_flag p)"
      using assms(1,4) by (auto simp: option_tuples_def help_taken_def split: if_splits)
    moreover from this part have "pre = a"
      by (auto simp: partition_at_def Let_def dropWhile_eq_Nil_conv takeWhile_eq_all_conv)
    ultimately have "starts_with a (op_flag p)" by simp
    with flag show ?thesis using a True cs by (auto simp: asks_help_def starts_with_def)
  next
    case False
    then have "\<not> starts_with ''--'' a" using a by (simp add: starts_with_def)
    then have "op_flag p = take 2 a \<or> starts_with a (op_flag p)"
      using assms(1) by (auto simp: option_tuples_def)
    with flag show ?thesis using a False by (auto simp: asks_help_def starts_with_def)
  qed
qed

lemma parse_optional_help:
  assumes "parse_optional opts a = Some (Opt p e)" and "table_ok opts" and "op_action p = Help" and "help_taken e"
    and "a \<noteq> ''--''"
  shows "asks_help a"
proof (cases "find_option opts a")
  case (Some q)
  then have "p = q" using assms(1) by (simp add: parse_optional_def split: if_splits)
  then show ?thesis
    using find_option_mem [OF Some] assms(2,3) by (auto simp: table_ok_def asks_help_def starts_with_def)
next
  case None
  obtain pre sep post where part: "partition_at CHR ''='' a = (pre, sep, post)" by (metis prod_cases3)
  have "Opt p e \<in> set (option_tuples opts a)" "length a \<noteq> 1" "a \<noteq> []" "hd a = CHR ''-''"
    using assms(1,4) None part
    by (auto simp: parse_optional_def help_taken_def split: if_splits option.splits list.splits)
  then show ?thesis using option_tuples_help assms(2-5) by blast
qed

lemma tokens_help:
  assumes "tokens opts args = Some ts" and "Opt p e \<in> set ts" and "table_ok opts" and "op_action p = Help" and "help_taken e"
  shows "\<exists>a \<in> set args. asks_help a"
  using assms(1,2)
proof (induction args arbitrary: ts)
  case (Cons a args)
  then show ?case
    using parse_optional_help [OF _ assms(3-5)] by (auto split: if_splits option.splits)
qed simp

lemma drop_dashes_subset: "set (drop_dashes ts) \<subseteq> set ts"
  by (auto simp: drop_dashes_def split: list.split token.split)

definition help_among :: "token list \<Rightarrow> bool" where
  "help_among ts \<longleftrightarrow> (\<exists>p e. Opt p e \<in> set ts \<and> op_action p = Help \<and> help_taken e)"

lemma help_among_Cons:
  "help_among (t # ts) \<longleftrightarrow> (\<exists>p e. t = Opt p e \<and> op_action p = Help \<and> help_taken e) \<or> help_among ts"
  by (auto simp: help_among_def)

lemma help_among_drop: "help_among (drop_dashes ts) \<Longrightarrow> help_among ts"
  using drop_dashes_subset [of ts] by (auto simp: help_among_def)

text \<open>An option with a value: the strings it leaves, and the namespace with its value.\<close>

definition store_step :: "option_spec \<Rightarrow> (bool \<times> string) option \<Rightarrow> token list \<Rightarrow> namespace \<Rightarrow> (token list \<times> namespace) option" where
  "store_step p e ts ns =
     (case e of
        Some (_, v) \<Rightarrow> map_option (\<lambda>ns'. (ts, ns')) (store_value p v ns)
      | None \<Rightarrow> (case ts of Arg v # us \<Rightarrow> map_option (\<lambda>ns'. (us, ns')) (store_value p v ns) | _ \<Rightarrow> None))"

lemma parse_tokens_store:
  assumes "\<exists>d. op_action p = StoreText d \<or> (\<exists>n. op_action p = StoreInt n)"
  shows "parse_tokens (Opt p e # ts) pos ns extras =
    (case store_step p e ts ns of None \<Rightarrow> Exits 2 | Some (us, ns') \<Rightarrow> parse_tokens us pos ns' extras)"
proof (cases e)
  case None
  with assms show ?thesis by (cases ts; cases "hd ts") (auto simp: store_step_def split: option.split)
next
  case (Some bv)
  with assms show ?thesis by (cases bv) (auto simp: store_step_def split: option.split)
qed

lemma store_step_subset: "store_step p e ts ns = Some (us, ns') \<Longrightarrow> length us \<le> length ts \<and> (help_among us \<longrightarrow> help_among ts)"
  by (auto simp: store_step_def help_among_Cons split: option.splits list.splits token.splits)

lemma parse_tokens_dashes:
  "\<exists>vs pos' ns' extras'. parse_tokens (Dashes # us) pos ns extras = parse_tokens vs pos' ns' extras' \<and>
     length vs \<le> length us \<and> (help_among vs \<longrightarrow> help_among us)"
proof (cases "\<exists>d s vs. pos = Some d \<and> us = Arg s # vs")
  case True
  then obtain d s vs where p: "pos = Some d" "us = Arg s # vs" by blast
  show ?thesis
    by (rule exI [of _ vs], rule exI [of _ None], rule exI [of _ "ns(d \<mapsto> AText (Some s))"], rule exI [of _ extras])
      (use p in \<open>simp add: help_among_Cons\<close>)
next
  case False
  then have "parse_tokens (Dashes # us) pos ns extras = parse_tokens us pos ns True"
    by (simp only: parse_tokens.simps prod.case) (auto split: option.split list.split token.split)
  then show ?thesis by blast
qed

lemma parse_tokens_exits: "parse_tokens ts pos ns extras = Exits n \<Longrightarrow> n = 2 \<or> n = 0 \<and> help_among ts"
proof (induction "length ts" arbitrary: ts pos ns extras rule: less_induct)
  case less
  note IH = less.hyps
  show ?case
  proof (cases ts)
    case Nil
    then show ?thesis using less.prems by (simp split: if_splits)
  next
    case (Cons t us)
    have tail: "n = 2 \<or> n = 0 \<and> help_among ts"
      if "parse_tokens vs pos' ns' extras' = Exits n" "length vs \<le> length us" "help_among vs \<longrightarrow> help_among us"
      for vs pos' ns' extras'
      using IH [OF _ that(1)] that(2,3) Cons by (auto simp: help_among_Cons)
    show ?thesis
    proof (cases t)
      case (Opt p e)
      show ?thesis
      proof (cases "\<exists>d. op_action p = StoreText d \<or> (\<exists>n. op_action p = StoreInt n)")
        case True
        note prem = less.prems [unfolded Cons Opt parse_tokens_store [OF True]]
        show ?thesis
        proof (cases "store_step p e us ns")
          case (Some v)
          obtain vs ns' where v: "v = (vs, ns')" by (cases v)
          show ?thesis
            by (rule tail [of vs pos ns' extras]) (use prem Some v store_step_subset [of p e us ns vs ns'] in auto)
        qed (use prem in simp)
      next
        case False
        then show ?thesis
          using less.prems Cons Opt tail [of us] by (cases "op_action p") (auto simp: help_among_Cons split: if_splits)
      qed
    next
      case (Arg s)
      then show ?thesis
        using less.prems Cons tail length_drop_dashes [of us] help_among_drop [of us]
        by (auto split: option.splits)
    next
      case Dashes
      then show ?thesis
        using less.prems Cons tail parse_tokens_dashes [of us pos ns extras] by metis
    next
      case Unknown
      then show ?thesis using less.prems Cons tail by simp
    qed
  qed
qed

lemma parse_sub_exits:
  assumes "parse_sub sp args = Exits n" and "table_ok (help_options @ sp_options sp)"
  shows "n = 2 \<or> n = 0 \<and> (\<exists>a \<in> set args. asks_help a)"
  using assms tokens_help [OF _ _ assms(2)] by (auto simp: parse_sub_def help_among_def dest!: parse_tokens_exits split: option.splits)

lemma table_ok_help: "table_ok help_options"
  by (simp add: table_ok_def help_options_def option_spec_def)

lemma table_ok_subs: "sp \<in> set build_parser \<Longrightarrow> table_ok (help_options @ sp_options sp)"
  by (auto simp: build_parser_def table_ok_def help_options_def option_spec_def sub_parser_def)

lemma parse_main_exits:
  assumes "parse_main sps extras args = Exits n" and "\<forall>sp \<in> set sps. table_ok (help_options @ sp_options sp)"
  shows "n = 2 \<or> n = 0 \<and> (\<exists>a \<in> set args. asks_help a)"
  using assms
proof (induction sps extras args rule: parse_main.induct)
  case (2 sps extras arg args)
  have "op_action p = Help" if "parse_optional help_options arg = Some (Opt p e)" for p e
    using that by (auto simp: parse_optional_def option_tuples_def find_option_def help_options_def option_spec_def
        split: if_splits prod.splits)
  moreover have "sp \<in> set sps" if "find (\<lambda>sp. sp_name sp = arg) sps = Some sp" for sp
    using find_key_SomeD [OF that] by simp
  ultimately show ?case
    using 2 parse_optional_help [OF _ table_ok_help] parse_sub_exits
    by (fastforce split: if_splits option.splits token.splits parsed.splits)
qed simp

lemma parse_main_name:
  "parse_main sps extras args = Parsed (name, ns) \<Longrightarrow> \<not> extras \<and> (\<exists>rest. args = name # rest)"
  by (induction sps extras args rule: parse_main.induct)
    (auto split: if_splits option.splits token.splits parsed.splits prod.splits)

lemma command_of_name: "command_of name ns = Some c \<Longrightarrow> command_name c = name"
  by (auto simp: command_of_def split: if_splits)

text \<open>
  What argparse lets through. An argument list that is accepted starts with the full name of its
  command; any other is answered with exit code 2, or with 0 if one of its arguments asks for help.
\<close>

theorem arguments_checked:
  "case parse_args args of
     Parsed c \<Rightarrow> \<exists>rest. args = command_name c # rest
   | Exits n \<Rightarrow> n = 2 \<or> n = 0 \<and> (\<exists>a \<in> set args. asks_help a)"
proof (cases "parse_main build_parser False args")
  case (Exits n)
  then show ?thesis using parse_main_exits [OF Exits] table_ok_subs by (simp add: parse_args_def)
next
  case (Parsed v)
  then obtain name ns where v: "v = (name, ns)" by (cases v)
  show ?thesis
    using parse_main_name [OF Parsed [unfolded v]] command_of_name [of name ns] Parsed v
    by (auto simp: parse_args_def split: option.split)
qed

end
