(* ===== verification/Test_Page.thy ===== *)
theory Test_Page
  imports Agent_Prelude
begin

text \<open>
  The PDF that \<^verbatim>\<open>eres-print-agent test-print\<close> prints, \<^verbatim>\<open>_build_local_test_pdf\<close> of
  \<^verbatim>\<open>eres_print_agent/cli.py\<close>. A PDF reader finds the objects through a table of byte offsets, so the
  property that matters is that the table is right. The file is ASCII, so a character is a byte.
\<close>

definition nl :: string where "nl = [char_of (10 :: nat)]"

definition test_content :: string where
  "test_content = ''BT /F1 18 Tf 40 750 Td ('' @ ''ERES Print Agent - Local Test Page'' @ '') Tj ET''"

definition test_objects :: "string list" where
  "test_objects =
     [''1 0 obj<</Type/Catalog/Pages 2 0 R>>endobj'',
      ''2 0 obj<</Type/Pages/Kids[3 0 R]/Count 1>>endobj'',
      ''3 0 obj<</Type/Page/Parent 2 0 R/MediaBox[0 0 612 792]/Contents 4 0 R/Resources<</Font<</F1 5 0 R>>>>>>endobj'',
      ''4 0 obj<</Length '' @ nat_digits (length test_content) @ ''>>stream'' @ nl @ test_content @ nl @ ''endstream endobj'',
      ''5 0 obj<</Type/Font/Subtype/Type1/BaseFont/Helvetica>>endobj'']"

text \<open>The loop that appends the objects and records where each begins.\<close>

fun append_objects :: "string list \<Rightarrow> string \<Rightarrow> string \<times> nat list" where
  "append_objects [] body = (body, [])"
| "append_objects (ob # obs) body =
     (case append_objects obs (body @ ob @ nl) of (b, offsets) \<Rightarrow> (b, length body # offsets))"

text \<open>\<^verbatim>\<open>f"{n:010d}"\<close>\<close>

definition pad10 :: "nat \<Rightarrow> string" where
  "pad10 n = replicate (10 - length (nat_digits n)) (CHR ''0'') @ nat_digits n"

definition xref_entry :: "nat \<Rightarrow> string" where
  "xref_entry offset = pad10 offset @ '' 00000 n '' @ nl"

definition pdf_header :: string where "pdf_header = ''%PDF-1.4'' @ nl"

definition pdf_tail :: "nat \<Rightarrow> nat list \<Rightarrow> nat \<Rightarrow> string" where
  "pdf_tail count offsets xref_start =
     ''xref'' @ nl @ ''0 '' @ nat_digits (count + 1) @ nl @ ''0000000000 65535 f '' @ nl @
     concat (map xref_entry offsets) @
     ''trailer<</Size '' @ nat_digits (count + 1) @ ''/Root 1 0 R>>'' @ nl @ ''startxref'' @ nl @
     nat_digits xref_start @ nl @ ''%%EOF''"

definition build_pdf :: "string list \<Rightarrow> string" where
  "build_pdf objects =
     (case append_objects objects pdf_header of
        (body, offsets) \<Rightarrow> body @ pdf_tail (length objects) offsets (length body))"

definition build_local_test_pdf :: string where
  "build_local_test_pdf = build_pdf test_objects"

section \<open>Lemmas\<close>

lemma append_objects_body: "fst (append_objects obs body) = body @ concat (map (\<lambda>ob. ob @ nl) obs)"
  by (induction obs arbitrary: body) (simp_all add: case_prod_beta)

lemma append_objects_length: "length (snd (append_objects obs body)) = length obs"
  by (induction obs arbitrary: body) (simp_all add: case_prod_beta)

lemma append_objects_offset:
  "k < length obs \<Longrightarrow> snd (append_objects obs body) ! k = length (body @ concat (map (\<lambda>ob. ob @ nl) (take k obs)))"
proof (induction obs arbitrary: body k)
  case (Cons ob obs)
  then show ?case
    by (cases k) (simp_all add: case_prod_beta)
qed simp

lemma nat_digits_length: "n < 10 ^ k \<Longrightarrow> 0 < k \<Longrightarrow> length (nat_digits n) \<le> k"
proof (induction k arbitrary: n)
  case (Suc k)
  show ?case
  proof (cases "n < 10")
    case False
    then have "length (nat_digits n) = Suc (length (nat_digits (n div 10)))"
      by (subst nat_digits.simps) simp
    moreover have "n div 10 < 10 ^ k" using Suc.prems by (simp add: less_mult_imp_div_less)
    moreover have "0 < k" using Suc.prems False by (cases k) auto
    ultimately show ?thesis using Suc.IH by simp
  qed (subst nat_digits.simps, simp)
qed simp

lemma xref_entry_length: "n < 10 ^ 10 \<Longrightarrow> length (xref_entry n) = 20"
  using nat_digits_length [of n 10] by (simp add: xref_entry_def pad10_def nl_def)

lemma concat_slot:
  assumes "\<forall>x \<in> set xs. length (f x) = w" and "k < length xs"
  shows "take w (drop (w * k) (concat (map f xs))) = f (xs ! k)"
  using assms
proof (induction xs arbitrary: k)
  case (Cons x xs)
  then show ?case by (cases k) auto
qed simp

lemma concat_bound: "\<forall>x \<in> set xs. length (f x) \<le> w \<Longrightarrow> length (concat (map f xs)) \<le> w * length xs"
  by (induction xs) auto

section \<open>Properties\<close>

text \<open>
  The cross-reference table of the test page is right. For every list of objects whose file stays
  below 10 to the 10 bytes: the recorded offset of each object is where it stands in the file, the
  20-byte entry with its number holds that offset in ten digits, the number behind startxref is
  where the table begins, and the file ends with the end marker.
\<close>

theorem xref_table_right:
  assumes "append_objects objects pdf_header = (body, offsets)" and "length body < 10 ^ 10"
  shows "length offsets = length objects \<and>
    (\<forall>k < length objects. starts_with (objects ! k @ nl) (drop (offsets ! k) (build_pdf objects)) \<and>
       take 20 (drop (20 * k) (concat (map xref_entry offsets))) = pad10 (offsets ! k) @ '' 00000 n '' @ nl) \<and>
    starts_with (''xref'' @ nl) (drop (length body) (build_pdf objects)) \<and>
    (\<exists>pre. build_pdf objects = pre @ ''startxref'' @ nl @ nat_digits (length body) @ nl @ ''%%EOF'')"
proof -
  let ?tail = "pdf_tail (length objects) offsets (length body)"
  have len: "length offsets = length objects" using append_objects_length [of objects pdf_header] assms(1) by simp
  have body: "body = pdf_header @ concat (map (\<lambda>ob. ob @ nl) objects)"
    using append_objects_body [of objects pdf_header] assms(1) by simp
  have pdf: "build_pdf objects = body @ ?tail" using assms(1) by (simp add: build_pdf_def)
  have off: "offsets ! k = length (pdf_header @ concat (map (\<lambda>ob. ob @ nl) (take k objects)))"
    if "k < length objects" for k
    using append_objects_offset [OF that, of pdf_header] assms(1) by simp
  have split: "body = (pdf_header @ concat (map (\<lambda>ob. ob @ nl) (take k objects))) @ (objects ! k @ nl) @
      concat (map (\<lambda>ob. ob @ nl) (drop (Suc k) objects))" if "k < length objects" for k
    unfolding body by (subst id_take_nth_drop [OF that]) simp
  have obj: "starts_with (objects ! k @ nl) (drop (offsets ! k) (build_pdf objects))" if "k < length objects" for k
    unfolding pdf off [OF that] by (subst split [OF that]) (simp add: starts_with_iff)
  have "offsets ! k < 10 ^ 10" if "k < length objects" for k
    using assms(2) split [OF that] off [OF that] by (metis le_add1 le_less_trans length_append)
  then have "\<forall>x \<in> set offsets. length (xref_entry x) = 20"
    using len xref_entry_length by (metis in_set_conv_nth)
  then have "take 20 (drop (20 * k) (concat (map xref_entry offsets))) = pad10 (offsets ! k) @ '' 00000 n '' @ nl"
    if "k < length objects" for k
    using concat_slot [of offsets xref_entry 20 k] that len by (simp add: xref_entry_def)
  moreover have "starts_with (''xref'' @ nl) (drop (length body) (build_pdf objects))"
    unfolding pdf by (simp add: pdf_tail_def starts_with_iff)
  moreover have "\<exists>pre. build_pdf objects = pre @ ''startxref'' @ nl @ nat_digits (length body) @ nl @ ''%%EOF''"
    unfolding pdf pdf_tail_def by (metis append.assoc)
  ultimately show ?thesis using len obj by blast
qed

theorem xref_table_right_witness:
  "\<exists>body offsets. append_objects test_objects pdf_header = (body, offsets) \<and> length offsets = length test_objects \<and>
     starts_with (''xref'' @ nl) (drop (length body) build_local_test_pdf)"
proof -
  obtain body offsets where a: "append_objects test_objects pdf_header = (body, offsets)" by fastforce
  have "length test_content \<le> 70" by (simp add: test_content_def)
  moreover from this have "length (nat_digits (length test_content)) \<le> 10" by (intro nat_digits_length) simp_all
  ultimately have "\<forall>ob \<in> set test_objects. length (ob @ nl) \<le> 201" by (simp add: test_objects_def nl_def)
  then have "length (concat (map (\<lambda>ob. ob @ nl) test_objects)) \<le> 201 * length test_objects"
    by (rule concat_bound)
  moreover have "body = pdf_header @ concat (map (\<lambda>ob. ob @ nl) test_objects)"
    using append_objects_body [of test_objects pdf_header] a by (simp only: fst_conv)
  moreover have "length test_objects = 5" "length pdf_header = 9"
    by (simp_all add: test_objects_def pdf_header_def nl_def)
  ultimately have "length body < 10 ^ 10" by simp
  from xref_table_right [OF a this] \<open>length test_objects = 5\<close> a show ?thesis
    unfolding build_local_test_pdf_def by blast
qed

end
