(* ===== verification/Service_Base.thy ===== *)
theory Service_Base
  imports Printer_Base Credentials
begin

text \<open>
  What the two background-service modules of \<^verbatim>\<open>eres_print_agent/service\<close> have in common: operations on
  the state of the machine that may raise, and the functions that the command line calls on either
  module. An exception of pywin32 carries a Windows error number, and so
  does an \<^verbatim>\<open>OSError\<close> on Windows: both are \<^verbatim>\<open>WinError\<close>.
\<close>

datatype svc_exc = WinError int string | PyErr py_error

type_synonym ('s, 'a) svc = "'s \<Rightarrow> 's \<times> (svc_exc + 'a)"

definition ret :: "'a \<Rightarrow> ('s, 'a) svc" where
  "ret x = (\<lambda>s. (s, Inr x))"

definition raise_exc :: "svc_exc \<Rightarrow> ('s, 'a) svc" where
  "raise_exc e = (\<lambda>s. (s, Inl e))"

text \<open>Sequencing; an exception skips the rest.\<close>

definition andthen :: "('s, 'a) svc \<Rightarrow> ('a \<Rightarrow> ('s, 'b) svc) \<Rightarrow> ('s, 'b) svc" where
  "andthen m f = (\<lambda>s. case m s of (s', Inl e) \<Rightarrow> (s', Inl e) | (s', Inr x) \<Rightarrow> f x s')"

text \<open>\<^verbatim>\<open>try: m except Exception: handler\<close>\<close>

definition try_except :: "('s, 'a) svc \<Rightarrow> (svc_exc \<Rightarrow> ('s, 'a) svc) \<Rightarrow> ('s, 'a) svc" where
  "try_except m h = (\<lambda>s. case m s of (s', Inl e) \<Rightarrow> h e s' | (s', Inr x) \<Rightarrow> (s', Inr x))"

lemma ret_apply [simp]: "ret x s = (s, Inr x)"
  by (simp add: ret_def)

lemma raise_exc_apply [simp]: "raise_exc e s = (s, Inl e)"
  by (simp add: raise_exc_def)

lemma andthen_apply:
  "andthen m f s = (case m s of (s', Inl e) \<Rightarrow> (s', Inl e) | (s', Inr x) \<Rightarrow> f x s')"
  by (simp add: andthen_def)

lemma andthen_Inr [simp]: "m s = (s', Inr x) \<Longrightarrow> andthen m f s = f x s'"
  by (simp add: andthen_def)

lemma andthen_Inl [simp]: "m s = (s', Inl e) \<Longrightarrow> andthen m f s = (s', Inl e)"
  by (simp add: andthen_def)

lemma andthen_returns:
  "andthen m f s = (t, Inr y) \<longleftrightarrow> (\<exists>u x. m s = (u, Inr x) \<and> f x u = (t, Inr y))"
  by (auto simp: andthen_def split: prod.splits sum.splits)

lemma try_except_Inr [simp]: "m s = (s', Inr x) \<Longrightarrow> try_except m h s = (s', Inr x)"
  by (simp add: try_except_def)

lemma try_except_Inl [simp]: "m s = (s', Inl e) \<Longrightarrow> try_except m h s = h e s'"
  by (simp add: try_except_def)

text \<open>A service module, as the command line sees it.\<close>

record 's service_module =
  sm_exists :: "('s, bool) svc"
  sm_install :: "('s, unit) svc"
  sm_uninstall :: "('s, unit) svc"
  sm_start :: "('s, unit) svc"
  sm_stop :: "('s, unit) svc"
  sm_restart :: "('s, unit) svc"
  sm_query :: "('s, string) svc"

end
