(* ===== verification/Mac_Service.thy ===== *)
theory Mac_Service
  imports Service_Base Url
begin

text \<open>
  The launchd agent of macOS, \<^verbatim>\<open>eres_print_agent/service/macos_service.py\<close>. The state is the property
  list file and the state of launchd; \<^verbatim>\<open>launchctl\<close> is an argument that changes the latter. What the
  module relies on is \<^verbatim>\<open>launchd_ok\<close>: \<^verbatim>\<open>print\<close> tells whether the agent is loaded and changes nothing,
  \<^verbatim>\<open>bootout\<close> unloads it, a \<^verbatim>\<open>bootstrap\<close> that succeeds loads it, \<^verbatim>\<open>kickstart\<close> leaves it loaded.
\<close>

definition LABEL :: string where "LABEL = ''cloud.eres.printagent''"

definition PASSTHROUGH_ENV :: "string list" where
  "PASSTHROUGH_ENV = [''ERES_PRINT_AGENT_ALLOW_INSECURE_HTTP'']"

record plist =
  pl_Label :: string
  pl_ProgramArguments :: "string list"
  pl_RunAtLoad :: bool
  pl_KeepAlive :: bool
  pl_ThrottleInterval :: int
  pl_ProcessType :: string
  pl_StandardOutPath :: string
  pl_StandardErrorPath :: string
  pl_EnvironmentVariables :: "(string \<times> string) list option"

record mac_env =
  mv_uid :: nat
  mv_frozen :: bool
  mv_executable :: string
  mv_plist_path :: string
  mv_log_dir :: string
  mv_environ :: "string \<rightharpoonup> string"
  mv_write :: "py_error option" \<comment> \<open>the exception of creating the directory or the file, if one raises\<close>
  mv_unlink :: "py_error option"

record 'w mac_state =
  ms_plist :: "plist option"
  ms_launchd :: 'w

type_synonym 'w launchctl_run = "string list \<Rightarrow> 'w \<Rightarrow> 'w \<times> completed_process result"

definition domain :: "mac_env \<Rightarrow> string" where
  "domain e = ''gui/'' @ nat_digits (mv_uid e)"

definition target :: "mac_env \<Rightarrow> string" where
  "target e = domain e @ ''/'' @ LABEL"

definition launchctl :: "'w launchctl_run \<Rightarrow> string list \<Rightarrow> ('w mac_state, completed_process) svc" where
  "launchctl L args s =
     (case L args (ms_launchd s) of
        (w, Inl x) \<Rightarrow> (s\<lparr>ms_launchd := w\<rparr>, Inl (PyErr x))
      | (w, Inr r) \<Rightarrow> (s\<lparr>ms_launchd := w\<rparr>, Inr r))"

definition program_arguments :: "mac_env \<Rightarrow> string list" where
  "program_arguments e =
     (if mv_frozen e then [mv_executable e, ''run''] else [mv_executable e, ''-m'', ''eres_print_agent'', ''run''])"

definition mac_service_exists :: "('w mac_state, bool) svc" where
  "mac_service_exists s = (s, Inr (ms_plist s \<noteq> None))"

definition is_loaded :: "'w launchctl_run \<Rightarrow> mac_env \<Rightarrow> ('w mac_state, bool) svc" where
  "is_loaded L e = andthen (launchctl L [''print'', target e]) (\<lambda>r. ret (cp_returncode r = 0))"

definition passed_env :: "mac_env \<Rightarrow> (string \<times> string) list" where
  "passed_env e =
     map (\<lambda>k. (k, the (mv_environ e k))) (filter (\<lambda>k. py_truthy (mv_environ e k)) PASSTHROUGH_ENV)"

definition agent_plist :: "mac_env \<Rightarrow> plist" where
  "agent_plist e =
     \<lparr>pl_Label = LABEL, pl_ProgramArguments = program_arguments e, pl_RunAtLoad = True, pl_KeepAlive = True,
      pl_ThrottleInterval = 15, pl_ProcessType = ''Background'',
      pl_StandardOutPath = path_join (mv_log_dir e) ''launchd.out.log'',
      pl_StandardErrorPath = path_join (mv_log_dir e) ''launchd.err.log'',
      pl_EnvironmentVariables = (if passed_env e = [] then None else Some (passed_env e))\<rparr>"

definition write_plist :: "mac_env \<Rightarrow> ('w mac_state, unit) svc" where
  "write_plist e s =
     (case mv_write e of
        Some x \<Rightarrow> (s, Inl (PyErr x))
      | None \<Rightarrow> (s\<lparr>ms_plist := Some (agent_plist e)\<rparr>, Inr ()))"

definition launch_error :: "string \<Rightarrow> completed_process \<Rightarrow> svc_exc" where
  "launch_error what r =
     PyErr (RuntimeError (''launchctl '' @ what @ '' failed: '' @
       py_strip (if cp_stderr r \<noteq> [] then cp_stderr r else cp_stdout r)))"

definition mac_install_service :: "'w launchctl_run \<Rightarrow> mac_env \<Rightarrow> ('w mac_state, unit) svc" where
  "mac_install_service L e =
     andthen (write_plist e) (\<lambda>_.
     andthen (is_loaded L e) (\<lambda>loaded.
     andthen (if loaded then andthen (launchctl L [''bootout'', target e]) (\<lambda>_. ret ()) else ret ()) (\<lambda>_.
     andthen (launchctl L [''bootstrap'', domain e, mv_plist_path e]) (\<lambda>r.
       if cp_returncode r \<noteq> 0
       then andthen (is_loaded L e) (\<lambda>now. if \<not> now then raise_exc (launch_error ''bootstrap'' r) else ret ())
       else ret ()))))"

definition unlink_plist :: "mac_env \<Rightarrow> ('w mac_state, unit) svc" where
  "unlink_plist e s =
     (if ms_plist s = None then (s, Inr ())
      else case mv_unlink e of
             Some x \<Rightarrow> (s, Inl (PyErr x))
           | None \<Rightarrow> (s\<lparr>ms_plist := None\<rparr>, Inr ()))"

definition boot_out_if_loaded :: "'w launchctl_run \<Rightarrow> mac_env \<Rightarrow> ('w mac_state, unit) svc" where
  "boot_out_if_loaded L e =
     andthen (is_loaded L e) (\<lambda>loaded.
       if loaded then andthen (launchctl L [''bootout'', target e]) (\<lambda>_. ret ()) else ret ())"

definition mac_uninstall_service :: "'w launchctl_run \<Rightarrow> mac_env \<Rightarrow> ('w mac_state, unit) svc" where
  "mac_uninstall_service L e = andthen (boot_out_if_loaded L e) (\<lambda>_. unlink_plist e)"

definition mac_start_service :: "'w launchctl_run \<Rightarrow> mac_env \<Rightarrow> ('w mac_state, unit) svc" where
  "mac_start_service L e =
     andthen mac_service_exists (\<lambda>there.
       if \<not> there then mac_install_service L e
       else andthen (is_loaded L e) (\<lambda>loaded.
            andthen (if \<not> loaded
                     then andthen (launchctl L [''bootstrap'', domain e, mv_plist_path e]) (\<lambda>_. ret ())
                     else ret ()) (\<lambda>_.
            andthen (launchctl L [''kickstart'', target e]) (\<lambda>_. ret ()))))"

definition mac_stop_service :: "'w launchctl_run \<Rightarrow> mac_env \<Rightarrow> ('w mac_state, unit) svc" where
  "mac_stop_service = boot_out_if_loaded"

definition mac_restart_service :: "'w launchctl_run \<Rightarrow> mac_env \<Rightarrow> ('w mac_state, unit) svc" where
  "mac_restart_service L e =
     andthen (is_loaded L e) (\<lambda>loaded.
       if \<not> loaded then mac_start_service L e
       else andthen (launchctl L [''kickstart'', ''-k'', target e]) (\<lambda>r.
              if cp_returncode r \<noteq> 0 then raise_exc (launch_error ''kickstart'' r) else ret ()))"

text \<open>The value of the first line that begins with \<^verbatim>\<open>state =\<close>.\<close>

fun state_of_lines :: "string list \<Rightarrow> string option" where
  "state_of_lines [] = None"
| "state_of_lines (l # ls) =
     (if starts_with ''state ='' (py_strip l)
      then Some (py_strip (snd (snd (partition_at (CHR ''='') (py_strip l)))))
      else state_of_lines ls)"

definition mac_query_service_status :: "'w launchctl_run \<Rightarrow> mac_env \<Rightarrow> ('w mac_state, string) svc" where
  "mac_query_service_status L e =
     andthen mac_service_exists (\<lambda>there.
       if \<not> there then ret ''not installed''
       else andthen (launchctl L [''print'', target e]) (\<lambda>r.
              if cp_returncode r \<noteq> 0 then ret ''stopped''
              else case state_of_lines (py_splitlines (cp_stdout r)) of
                     Some st \<Rightarrow> ret st
                   | None \<Rightarrow> ret ''loaded''))"

definition mac_service :: "'w launchctl_run \<Rightarrow> mac_env \<Rightarrow> ('w mac_state) service_module" where
  "mac_service L e =
     \<lparr>sm_exists = mac_service_exists, sm_install = mac_install_service L e, sm_uninstall = mac_uninstall_service L e,
      sm_start = mac_start_service L e, sm_stop = mac_stop_service L e, sm_restart = mac_restart_service L e,
      sm_query = mac_query_service_status L e\<rparr>"

section \<open>What launchd promises\<close>

definition launchd_ok :: "'w launchctl_run \<Rightarrow> mac_env \<Rightarrow> ('w \<Rightarrow> bool) \<Rightarrow> bool" where
  "launchd_ok L e loaded \<longleftrightarrow>
     (\<forall>w. \<exists>r. L [''print'', target e] w = (w, Inr r) \<and> (cp_returncode r = 0 \<longleftrightarrow> loaded w)) \<and>
     (\<forall>w. \<exists>w' r. L [''bootout'', target e] w = (w', Inr r) \<and> \<not> loaded w') \<and>
     (\<forall>w. \<exists>w' r. L [''bootstrap'', domain e, mv_plist_path e] w = (w', Inr r) \<and>
        (cp_returncode r = 0 \<longrightarrow> loaded w') \<and> (cp_returncode r \<noteq> 0 \<longrightarrow> loaded w' = loaded w)) \<and>
     (\<forall>w. \<exists>w' r. L [''kickstart'', target e] w = (w', Inr r) \<and> loaded w' = loaded w) \<and>
     (\<forall>w. \<exists>w' r. L [''kickstart'', ''-k'', target e] w = (w', Inr r) \<and> loaded w' = loaded w)"

lemma is_loaded_ok:
  "launchd_ok L e loaded \<Longrightarrow> is_loaded L e s = (s, Inr (loaded (ms_launchd s)))"
  unfolding launchd_ok_def is_loaded_def launchctl_def andthen_def by (auto dest!: spec [of _ "ms_launchd s"])

lemma bootout_ok:
  assumes "launchd_ok L e loaded"
  obtains w r where "launchctl L [''bootout'', target e] s = (s\<lparr>ms_launchd := w\<rparr>, Inr r)" "\<not> loaded w"
  using assms unfolding launchd_ok_def launchctl_def by (metis (no_types, lifting) old.prod.case sum.case(2))

lemma bootstrap_ok:
  assumes "launchd_ok L e loaded"
  obtains w r where "launchctl L [''bootstrap'', domain e, mv_plist_path e] s = (s\<lparr>ms_launchd := w\<rparr>, Inr r)"
    "cp_returncode r = 0 \<Longrightarrow> loaded w" "cp_returncode r \<noteq> 0 \<Longrightarrow> loaded w = loaded (ms_launchd s)"
  using assms unfolding launchd_ok_def launchctl_def by (metis (no_types, lifting) old.prod.case sum.case(2))

lemma kickstart_ok:
  assumes "launchd_ok L e loaded"
  obtains w r where "launchctl L [''kickstart'', target e] s = (s\<lparr>ms_launchd := w\<rparr>, Inr r)"
    "loaded w = loaded (ms_launchd s)"
  using assms unfolding launchd_ok_def launchctl_def by (metis (no_types, lifting) old.prod.case sum.case(2))

lemma boot_out_effect:
  assumes "launchd_ok L e loaded"
  shows "\<exists>w. boot_out_if_loaded L e s = (s\<lparr>ms_launchd := w\<rparr>, Inr ()) \<and> \<not> loaded w"
proof (cases "loaded (ms_launchd s)")
  case True
  obtain w r where "launchctl L [''bootout'', target e] s = (s\<lparr>ms_launchd := w\<rparr>, Inr r)" "\<not> loaded w"
    using bootout_ok [OF assms] .
  then show ?thesis
    using is_loaded_ok [OF assms, of s] True by (auto simp: boot_out_if_loaded_def)
next
  case False
  then show ?thesis
    using is_loaded_ok [OF assms, of s] by (intro exI [of _ "ms_launchd s"]) (simp add: boot_out_if_loaded_def)
qed

text \<open>The end of an installation, once the old agent is out.\<close>

lemma bootstrap_effect:
  assumes "launchd_ok L e loaded"
  obtains w x where
    "andthen (launchctl L [''bootstrap'', domain e, mv_plist_path e]) (\<lambda>r.
       if cp_returncode r \<noteq> 0
       then andthen (is_loaded L e) (\<lambda>now. if \<not> now then raise_exc (launch_error ''bootstrap'' r) else ret ())
       else ret ()) s = (s\<lparr>ms_launchd := w\<rparr>, x)"
    "x = Inr () \<longleftrightarrow> loaded w"
proof -
  obtain w r where b: "launchctl L [''bootstrap'', domain e, mv_plist_path e] s = (s\<lparr>ms_launchd := w\<rparr>, Inr r)"
    and w: "cp_returncode r = 0 \<Longrightarrow> loaded w"
    using bootstrap_ok [OF assms, of s] by metis
  have "is_loaded L e (s\<lparr>ms_launchd := w\<rparr>) = (s\<lparr>ms_launchd := w\<rparr>, Inr (loaded w))"
    using is_loaded_ok [OF assms] by simp
  with b w that [of w "if loaded w then Inr () else Inl (launch_error ''bootstrap'' r)"] show thesis
    by (cases "cp_returncode r = 0") auto
qed

lemma install_effect:
  assumes "launchd_ok L e loaded"
  shows "mac_install_service L e s =
      (case mv_write e of
         Some x \<Rightarrow> (s, Inl (PyErr x))
       | None \<Rightarrow> andthen (boot_out_if_loaded L e) (\<lambda>_.
           andthen (launchctl L [''bootstrap'', domain e, mv_plist_path e]) (\<lambda>r.
             if cp_returncode r \<noteq> 0
             then andthen (is_loaded L e) (\<lambda>now. if \<not> now then raise_exc (launch_error ''bootstrap'' r) else ret ())
             else ret ())) (s\<lparr>ms_plist := Some (agent_plist e)\<rparr>))"
  using is_loaded_ok [OF assms]
  by (simp add: mac_install_service_def boot_out_if_loaded_def write_plist_def andthen_def split: option.split)

section \<open>Properties\<close>


text \<open>A launchd with one agent, for concrete runs; \<^term>\<open>broken\<close> makes every bootstrap fail.\<close>

definition simple_launchd :: "bool \<Rightarrow> bool launchctl_run" where
  "simple_launchd broken args w =
     (let rc = (\<lambda>n. Inr \<lparr>cp_returncode = n, cp_stdout = [], cp_stderr = ''error''\<rparr>)
      in if hd args = ''print'' then (w, rc (if w then 0 else 113))
         else if hd args = ''bootout'' then (False, rc 0)
         else if hd args = ''bootstrap'' then (if broken then (w, rc 5) else (True, rc 0))
         else (w, rc (if w then 0 else 113)))"

definition sample_mac :: mac_env where
  "sample_mac = \<lparr>mv_uid = 501, mv_frozen = True, mv_executable = ''/a/agent'', mv_plist_path = ''/p.plist'',
     mv_log_dir = ''/l'', mv_environ = Map.empty, mv_write = None, mv_unlink = None\<rparr>"

lemma simple_launchd_ok: "launchd_ok (simple_launchd broken) sample_mac (\<lambda>w. w)"
  by (auto simp: launchd_ok_def simple_launchd_def Let_def)


text \<open>
  Starting hides a failure. When the property list exists and the agent is not loaded,
  \<^verbatim>\<open>start_service\<close> ignores the result of \<^verbatim>\<open>launchctl bootstrap\<close>: with a launchd that refuses it, the
  call returns as if the service had been started, and nothing is loaded.
\<close>

theorem start_hides_failure:
  assumes "launchd_ok L e loaded" and "ms_plist s \<noteq> None" and "\<not> loaded (ms_launchd s)"
    and "\<And>w. \<exists>w' r. L [''bootstrap'', domain e, mv_plist_path e] w = (w', Inr r) \<and> cp_returncode r \<noteq> 0"
  shows "\<exists>t. mac_start_service L e s = (t, Inr ()) \<and> \<not> loaded (ms_launchd t)"
proof -
  obtain w r where b: "launchctl L [''bootstrap'', domain e, mv_plist_path e] s = (s\<lparr>ms_launchd := w\<rparr>, Inr r)"
    and w: "cp_returncode r \<noteq> 0 \<Longrightarrow> loaded w = loaded (ms_launchd s)"
    using bootstrap_ok [OF assms(1), of s] by metis
  have "cp_returncode r \<noteq> 0"
    using assms(4) [of "ms_launchd s"] b by (auto simp: launchctl_def)
  with w assms(3) have "\<not> loaded w" by simp
  moreover obtain w2 r2 where "launchctl L [''kickstart'', target e] (s\<lparr>ms_launchd := w\<rparr>) =
      (s\<lparr>ms_launchd := w2\<rparr>, Inr r2)" "loaded w2 = loaded w"
    using kickstart_ok [OF assms(1), of "s\<lparr>ms_launchd := w\<rparr>"] by auto
  ultimately show ?thesis
    using assms(2,3) b is_loaded_ok [OF assms(1), of s]
    by (simp add: mac_start_service_def mac_service_exists_def andthen_apply)
qed

theorem start_hides_failure_witness:
  "\<exists>t. mac_start_service (simple_launchd True) sample_mac
       \<lparr>ms_plist = Some (agent_plist sample_mac), ms_launchd = False\<rparr> = (t, Inr ()) \<and> \<not> ms_launchd t"
  by (rule start_hides_failure [OF simple_launchd_ok]) (simp_all add: simple_launchd_def Let_def)

end
