(* ===== verification/Windows_Service.thy ===== *)
theory Windows_Service
  imports Service_Base Protocol
begin

text \<open>
  The Windows service, \<^verbatim>\<open>eres_print_agent/service/windows_service.py\<close>. The management functions call the
  service control manager, which is an argument. The service process itself is a state machine
  of three threads: \<^verbatim>\<open>SvcDoRun\<close>, the agent's thread that it starts, and the control thread on which
  the manager calls \<^verbatim>\<open>SvcStop\<close>; each step is one statement that another thread can observe.
\<close>

section \<open>Managing the service\<close>

record 'w scm =
  scm_query :: "'w \<Rightarrow> svc_exc + int"
  scm_install :: "('w, unit) svc"
  scm_remove :: "('w, unit) svc"
  scm_start :: "('w, unit) svc"
  scm_stop :: "('w, unit) svc"
  scm_restart :: "('w, unit) svc"
  scm_sc :: "string list \<Rightarrow> ('w, unit) svc" \<comment> \<open>\<^verbatim>\<open>sc.exe\<close> with \<^verbatim>\<open>check=True\<close>\<close>

definition SERVICE_NAME :: string where "SERVICE_NAME = ''ERESPrintAgent''"

definition win_service_exists :: "'w scm \<Rightarrow> ('w, bool) svc" where
  "win_service_exists M w = (w, Inr (case scm_query M w of Inl _ \<Rightarrow> False | Inr _ \<Rightarrow> True))"

definition auto_restart_args :: "string list" where
  "auto_restart_args =
     [''sc.exe'', ''failure'', SERVICE_NAME, ''reset='', ''86400'', ''actions='', ''restart/5000/restart/5000/restart/5000'']"

definition win_install_service :: "'w scm \<Rightarrow> ('w, unit) svc" where
  "win_install_service M = andthen (scm_install M) (\<lambda>_. scm_sc M auto_restart_args)"

definition win_uninstall_service :: "'w scm \<Rightarrow> ('w, unit) svc" where
  "win_uninstall_service M = andthen (try_except (scm_stop M) (\<lambda>_. ret ())) (\<lambda>_. scm_remove M)"

definition win_query_service_status :: "'w scm \<Rightarrow> ('w, string) svc" where
  "win_query_service_status M w =
     (w, case scm_query M w of
           Inl x \<Rightarrow> Inl x
         | Inr code \<Rightarrow> Inr (if code = 1 then ''stopped'' else if code = 2 then ''starting'' else if code = 3 then ''stopping''
             else if code = 4 then ''running'' else ''unknown ('' @ int_digits code @ '')''))"

definition windows_service :: "'w scm \<Rightarrow> 'w service_module" where
  "windows_service M =
     \<lparr>sm_exists = win_service_exists M, sm_install = win_install_service M, sm_uninstall = win_uninstall_service M,
      sm_start = scm_start M, sm_stop = scm_stop M, sm_restart = scm_restart M, sm_query = win_query_service_status M\<rparr>"

definition ERROR_FAILED_SERVICE_CONTROLLER_CONNECT :: int where
  "ERROR_FAILED_SERVICE_CONTROLLER_CONNECT = 1063"

text \<open>\<^verbatim>\<open>run_service_dispatcher\<close>, given how the dispatcher call ends.\<close>

definition run_service_dispatcher :: "svc_exc option \<Rightarrow> svc_exc + bool" where
  "run_service_dispatcher dispatcher =
     (case dispatcher of
        None \<Rightarrow> Inr True
      | Some (WinError n text) \<Rightarrow>
          if n = ERROR_FAILED_SERVICE_CONTROLLER_CONNECT then Inr False else Inl (WinError n text)
      | Some e \<Rightarrow> Inl e)"

section \<open>The service process\<close>

text \<open>The start-up test of \<^verbatim>\<open>SvcDoRun\<close>. An agent id that is not a text is in no store.\<close>

definition secret_of :: "cred_env \<Rightarrow> AgentConfig \<Rightarrow> cred_store \<Rightarrow> string option" where
  "secret_of env config st =
     (case cfg_agentId config of JStr a \<Rightarrow> load_agent_secret env a st | _ \<Rightarrow> None)"

definition service_can_start :: "cred_env \<Rightarrow> AgentConfig \<Rightarrow> cred_store \<Rightarrow> bool" where
  "service_can_start env config st \<longleftrightarrow>
     is_paired config \<and>
     py_truthy (if json_truthy (cfg_agentId config) then secret_of env config st else None)"

definition service_usable :: "cred_env \<Rightarrow> AgentConfig result \<Rightarrow> cred_store \<Rightarrow> bool result" where
  "service_usable env config st = bind_result config (\<lambda>c. Inr (service_can_start env c st))"

datatype svc_pc = VBegin | VAgent | VLoop | VThread | VWait | VJoin | VDone | VRaised

datatype agent_thread = TNone | TRunning | TEnded | TCrashed

datatype control = CIdle | CSet

record svc_process =
  vs_pc :: svc_pc
  vs_thread :: agent_thread
  vs_control :: control
  vs_agent :: bool \<comment> \<open>\<^verbatim>\<open>self._agent is not None\<close>\<close>
  vs_loop :: bool \<comment> \<open>\<^verbatim>\<open>self._loop is not None\<close>\<close>
  vs_event :: bool \<comment> \<open>the auto-reset stop event is signalled\<close>
  vs_agent_stop :: bool \<comment> \<open>\<^verbatim>\<open>agent.stop\<close> has been scheduled\<close>
  vs_stops :: nat \<comment> \<open>completed calls of \<^verbatim>\<open>SvcStop\<close>\<close>

definition svc_start :: svc_process where
  "svc_start = \<lparr>vs_pc = VBegin, vs_thread = TNone, vs_control = CIdle, vs_agent = False, vs_loop = False,
     vs_event = False, vs_agent_stop = False, vs_stops = 0\<rparr>"

text \<open>The next statement of \<^verbatim>\<open>SvcDoRun\<close>, when it can run. \<^term>\<open>usable\<close> is the result
  of \<^const>\<open>service_usable\<close>, and \<^term>\<open>agent_ok\<close> says that the constructor of \<^verbatim>\<open>Agent\<close> returns.
  The join ends with the thread or after 15 seconds.\<close>

fun SvcDoRun :: "bool result \<Rightarrow> bool \<Rightarrow> svc_process \<Rightarrow> svc_process option" where
  "SvcDoRun usable agent_ok s =
     (case vs_pc s of
        VBegin \<Rightarrow> Some (s\<lparr>vs_pc := case usable of Inl _ \<Rightarrow> VRaised | Inr b \<Rightarrow> if b then VAgent else VDone\<rparr>)
      | VAgent \<Rightarrow> Some (if agent_ok then s\<lparr>vs_agent := True, vs_pc := VLoop\<rparr> else s\<lparr>vs_pc := VRaised\<rparr>)
      | VLoop \<Rightarrow> Some (s\<lparr>vs_loop := True, vs_pc := VThread\<rparr>)
      | VThread \<Rightarrow> Some (s\<lparr>vs_thread := TRunning, vs_pc := VWait\<rparr>)
      | VWait \<Rightarrow> if vs_event s then Some (s\<lparr>vs_event := False, vs_pc := VJoin\<rparr>) else None
      | VJoin \<Rightarrow> Some (s\<lparr>vs_pc := VDone\<rparr>)
      | VDone \<Rightarrow> None
      | VRaised \<Rightarrow> None)"

text \<open>\<^verbatim>\<open>SvcStop\<close>: first it forwards the request to the agent, if there is one, then it sets the event.\<close>

fun SvcStop :: "svc_process \<Rightarrow> svc_process" where
  "SvcStop s =
     (case vs_control s of
        CIdle \<Rightarrow> s\<lparr>vs_agent_stop := vs_agent_stop s \<or> vs_agent s \<and> vs_loop s, vs_control := CSet\<rparr>
      | CSet \<Rightarrow> s\<lparr>vs_event := True, vs_control := CIdle, vs_stops := Suc (vs_stops s)\<rparr>)"

text \<open>\<^verbatim>\<open>_run_agent_loop\<close>: the agent runs until it is told to stop, or an exception is caught and logged.\<close>

definition run_agent_loop :: "bool \<Rightarrow> svc_process \<Rightarrow> svc_process" where
  "run_agent_loop crash s = s\<lparr>vs_thread := if crash then TCrashed else TEnded\<rparr>"

inductive svc_step :: "bool result \<Rightarrow> svc_process \<Rightarrow> svc_process \<Rightarrow> bool" for usable :: "bool result" where
  main: "SvcDoRun usable agent_ok s = Some t \<Longrightarrow> svc_step usable s t"
| control: "svc_step usable s (SvcStop s)"
| agent: "vs_thread s = TRunning \<Longrightarrow> crash \<or> vs_agent_stop s \<Longrightarrow> svc_step usable s (run_agent_loop crash s)"

inductive_cases svc_stepE: "svc_step usable s t"

inductive svc_run :: "bool result \<Rightarrow> svc_process \<Rightarrow> svc_process \<Rightarrow> bool" for usable :: "bool result" where
  here: "svc_run usable s s"
| more: "svc_run usable s t \<Longrightarrow> svc_step usable t u \<Longrightarrow> svc_run usable s u"

section \<open>Lemmas\<close>

fun main_rank :: "svc_pc \<Rightarrow> nat" where
  "main_rank VBegin = 6"
| "main_rank VAgent = 5"
| "main_rank VLoop = 4"
| "main_rank VThread = 3"
| "main_rank VWait = 2"
| "main_rank VJoin = 1"
| "main_rank VDone = 0"
| "main_rank VRaised = 0"

definition svc_inv :: "svc_process \<Rightarrow> bool" where
  "svc_inv s \<longleftrightarrow>
     (vs_stops s > 0 \<and> main_rank (vs_pc s) \<ge> 2 \<longrightarrow> vs_event s) \<and>
     (vs_thread s \<noteq> TNone \<longrightarrow> main_rank (vs_pc s) \<le> 2) \<and> (vs_agent_stop s \<longrightarrow> vs_agent s \<and> vs_loop s)"

lemma svc_inv_start: "svc_inv svc_start"
  by (simp add: svc_inv_def svc_start_def)

lemma svc_inv_step: "svc_step usable s t \<Longrightarrow> svc_inv s \<Longrightarrow> svc_inv t"
  by (erule svc_stepE)
    (auto simp: svc_inv_def run_agent_loop_def split: svc_pc.splits control.splits sum.splits if_splits)

lemma svc_inv_run: "svc_run usable s t \<Longrightarrow> svc_inv s \<Longrightarrow> svc_inv t"
  by (induction rule: svc_run.induct) (auto intro: svc_inv_step)

lemma main_progress:
  assumes "svc_inv s" and "0 < vs_stops s" and "0 < main_rank (vs_pc s)"
  shows "\<exists>t. SvcDoRun usable agent_ok s = Some t \<and> main_rank (vs_pc t) < main_rank (vs_pc s)"
  using assms by (cases "vs_pc s") (auto simp: svc_inv_def split: sum.splits)

text \<open>The main thread alone, at most \<^term>\<open>n\<close> statements.\<close>

fun run_main :: "bool result \<Rightarrow> bool \<Rightarrow> nat \<Rightarrow> svc_process \<Rightarrow> svc_process" where
  "run_main usable agent_ok 0 s = s"
| "run_main usable agent_ok (Suc n) s =
     (case SvcDoRun usable agent_ok s of None \<Rightarrow> s | Some t \<Rightarrow> run_main usable agent_ok n t)"

lemma main_keeps_stops: "SvcDoRun usable agent_ok s = Some t \<Longrightarrow> vs_stops t = vs_stops s"
  by (auto split: svc_pc.splits sum.splits if_splits)

lemma run_main_ends:
  assumes "svc_inv s" and "0 < vs_stops s" and "main_rank (vs_pc s) \<le> n"
  shows "main_rank (vs_pc (run_main usable agent_ok n s)) = 0"
  using assms
proof (induction n arbitrary: s)
  case (Suc n)
  show ?case
  proof (cases "main_rank (vs_pc s) = 0")
    case True
    then have "SvcDoRun usable agent_ok s = None" by (cases "vs_pc s") auto
    then show ?thesis using True by simp
  next
    case False
    then obtain t where t: "SvcDoRun usable agent_ok s = Some t" "main_rank (vs_pc t) < main_rank (vs_pc s)"
      using main_progress [OF Suc.prems(1,2)] by blast
    then show ?thesis
      using Suc.IH [of t] Suc.prems svc_inv_step [OF svc_step.main [OF t(1)]] main_keeps_stops [OF t(1)]
      by (simp del: SvcDoRun.simps)
  qed
qed simp

section \<open>Properties\<close>

text \<open>
  C32: A stop request always ends the service. However the three threads interleave before it, once one
  call of \<^verbatim>\<open>SvcStop\<close> has completed, \<^verbatim>\<open>SvcDoRun\<close> is never blocked: six more of its own statements end it,
  whether the agent had been created or not and whether its thread still runs.
\<close>

theorem stop_ends_service:
  assumes "svc_run usable svc_start s" and "0 < vs_stops s"
  shows "vs_pc (run_main usable agent_ok 6 s) \<in> {VDone, VRaised}"
proof -
  have "svc_inv s" using svc_inv_run [OF assms(1) svc_inv_start] .
  moreover have "main_rank (vs_pc s) \<le> 6" by (cases "vs_pc s") simp_all
  ultimately have "main_rank (vs_pc (run_main usable agent_ok 6 s)) = 0" using run_main_ends assms(2) by blast
  then show ?thesis by (cases "vs_pc (run_main usable agent_ok 6 s)") simp_all
qed

lemma svc_run_main:
  "svc_run usable s t \<Longrightarrow> SvcDoRun usable agent_ok t = Some u \<Longrightarrow> svc_run usable s u"
  by (erule svc_run.more) (rule svc_step.main)

lemma svc_running: "svc_run (Inr True) svc_start (svc_start\<lparr>vs_pc := VWait, vs_thread := TRunning, vs_agent := True, vs_loop := True\<rparr>)"
proof -
  note next_main = svc_run_main [where agent_ok = True]
  have "svc_run (Inr True) svc_start (svc_start\<lparr>vs_pc := VAgent\<rparr>)"
    by (rule next_main [OF svc_run.here]) (simp add: svc_start_def)
  then have "svc_run (Inr True) svc_start (svc_start\<lparr>vs_pc := VLoop, vs_agent := True\<rparr>)"
    by (rule next_main) (simp add: svc_start_def)
  then have "svc_run (Inr True) svc_start (svc_start\<lparr>vs_pc := VThread, vs_agent := True, vs_loop := True\<rparr>)"
    by (rule next_main) (simp add: svc_start_def)
  then show ?thesis by (rule next_main) (simp add: svc_start_def)
qed

theorem stop_ends_service_witness:
  "\<exists>s. svc_run (Inr True) svc_start s \<and> vs_stops s = 1 \<and> vs_pc (run_main (Inr True) True 6 s) \<in> {VDone, VRaised}"
proof -
  let ?r = "svc_start\<lparr>vs_pc := VWait, vs_thread := TRunning, vs_agent := True, vs_loop := True\<rparr>"
  have run: "svc_run (Inr True) svc_start (SvcStop (SvcStop ?r))"
    by (rule svc_run.more [OF svc_run.more [OF svc_running svc_step.control] svc_step.control])
  have one: "vs_stops (SvcStop (SvcStop ?r)) = 1" by (simp add: svc_start_def)
  from stop_ends_service [OF run] one have "vs_pc (run_main (Inr True) True 6 (SvcStop (SvcStop ?r))) \<in> {VDone, VRaised}"
    by (simp del: SvcStop.simps)
  with run one show ?thesis by blast
qed

text \<open>
  A crashed agent leaves the service running. After the agent's thread has ended with an
  exception, the main thread goes on waiting: as long as no stop request completes, no sequence of
  steps gets it past the wait, so the process does not exit, and the manager, which is told to
  restart the service when it exits, never does.
\<close>

theorem crash_goes_unnoticed:
  assumes "svc_run usable s t" and "vs_pc s = VWait" and "vs_thread s = TCrashed" and "\<not> vs_event s"
    and "vs_stops t = vs_stops s"
  shows "vs_pc t = VWait \<and> vs_thread t = TCrashed"
proof -
  have "vs_stops s \<le> vs_stops t \<and>
      (vs_stops t = vs_stops s \<longrightarrow> vs_pc t = VWait \<and> vs_thread t = TCrashed \<and> \<not> vs_event t)"
    using assms(1-4)
  proof (induction rule: svc_run.induct)
    case (more s t u)
    from more.hyps(2) show ?case
    proof (cases rule: svc_step.cases)
      case (main agent_ok)
      then show ?thesis using more.IH [OF more.prems] main_keeps_stops [OF main] by auto
    next
      case control
      then show ?thesis using more.IH [OF more.prems] by (auto split: control.splits)
    next
      case (agent crash)
      then show ?thesis using more.IH [OF more.prems] by (auto simp: run_agent_loop_def)
    qed
  qed simp
  with assms(5) show ?thesis by blast
qed

theorem crash_goes_unnoticed_witness:
  "\<exists>s t. svc_run (Inr True) svc_start s \<and> svc_run (Inr True) s t \<and> vs_thread s = TCrashed \<and> vs_pc t = VWait"
proof -
  let ?r = "svc_start\<lparr>vs_pc := VWait, vs_thread := TRunning, vs_agent := True, vs_loop := True\<rparr>"
  let ?s = "run_agent_loop True ?r"
  have s: "svc_run (Inr True) svc_start ?s"
    by (rule svc_run.more [OF svc_running svc_step.agent]) (simp_all add: svc_start_def)
  have t: "svc_run (Inr True) ?s (SvcStop ?s)" by (rule svc_run.more [OF svc_run.here svc_step.control])
  have "vs_pc (SvcStop ?s) = VWait \<and> vs_thread (SvcStop ?s) = TCrashed"
    by (rule crash_goes_unnoticed [OF t]) (simp_all add: run_agent_loop_def svc_start_def)
  moreover have "vs_thread ?s = TCrashed" by (simp add: run_agent_loop_def)
  ultimately show ?thesis using s t by blast
qed

end
