(* ===== verification/Printer_Mock.thy ===== *)
theory Printer_Mock
  imports Printer_Windows Downloader Credentials
begin

text \<open>
  The development backend \<^verbatim>\<open>eres_print_agent/printing/mock.py\<close>, which copies documents instead of printing
  them, and the choice of a backend in \<^verbatim>\<open>printing/factory.py\<close>. Paths are texts with slashes; the
  files are a map from paths to contents.
\<close>

record 'c mock =
  mk_output_dir :: string
  mk_printers :: "DiscoveredPrinter list"
  mk_print_calls :: "(string \<times> string \<times> int) list"
  mk_files :: "string \<rightharpoonup> 'c"

definition mock_office_printer :: DiscoveredPrinter where
  "mock_office_printer =
     \<lparr>dp_local_printer_id = ''Mock Office Printer'', dp_display_name = ''Mock Office Printer'',
      dp_driver_name = Some ''Mock Driver'', dp_port_name = Some ''MOCK001'', dp_is_default = True,
      dp_color = Some False, dp_duplex = Some True, dp_paper_sizes = Some [''A4'', ''Letter''],
      dp_status_detail = Some ''Ready'', dp_online = None\<rparr>"

text \<open>\<^verbatim>\<open>printers or [...]\<close>: the default also replaces an empty list.\<close>

definition new_mock :: "string \<Rightarrow> DiscoveredPrinter list option \<Rightarrow> (string \<rightharpoonup> 'c) \<Rightarrow> 'c mock" where
  "new_mock dir printers files =
     \<lparr>mk_output_dir = dir,
      mk_printers = (case printers of Some (p # ps) \<Rightarrow> p # ps | _ \<Rightarrow> [mock_office_printer]),
      mk_print_calls = [], mk_files = files\<rparr>"

definition mock_discover :: "'c mock \<Rightarrow> DiscoveredPrinter list result" where
  "mock_discover m = Inr (mk_printers m)"

definition known :: "'c mock \<Rightarrow> string \<Rightarrow> bool" where
  "known m name \<longleftrightarrow> list_ex (\<lambda>p. dp_local_printer_id p = name) (mk_printers m)"

definition mock_get_status :: "'c mock \<Rightarrow> string \<Rightarrow> PrinterStatus result" where
  "mock_get_status m name =
     Inr \<lparr>ps_online = known m name, ps_detail = (if known m name then ''Ready'' else ''Unknown printer'')\<rparr>"

text \<open>\<^verbatim>\<open>Path.name\<close>, \<^verbatim>\<open>Path.stem\<close> and \<^verbatim>\<open>Path.suffix\<close>: the last component, cut at its last dot unless that
  dot is the first or the last character.\<close>

definition path_name :: "string \<Rightarrow> string" where
  "path_name p = rev (takeWhile (\<lambda>c. c \<noteq> CHR ''/'') (rev p))"

definition last_dot :: "string \<Rightarrow> nat option" where
  "last_dot name =
     (let n = length (takeWhile (\<lambda>c. c \<noteq> CHR ''.'') (rev name))
      in if CHR ''.'' \<in> set name \<and> 0 < n \<and> Suc n < length name then Some (length name - Suc n) else None)"

definition path_stem :: "string \<Rightarrow> string" where
  "path_stem p = (case last_dot (path_name p) of None \<Rightarrow> path_name p | Some i \<Rightarrow> take i (path_name p))"

definition path_suffix :: "string \<Rightarrow> string" where
  "path_suffix p = (case last_dot (path_name p) of None \<Rightarrow> [] | Some i \<Rightarrow> drop i (path_name p))"

definition mock_destination :: "'c mock \<Rightarrow> string \<Rightarrow> string \<Rightarrow> nat \<Rightarrow> string" where
  "mock_destination m name path n =
     path_join (mk_output_dir m)
       (path_stem path @ ''.'' @ map (\<lambda>c. if c = CHR '' '' then CHR ''_'' else c) name @ ''.copy'' @ nat_digits n @
        path_suffix path)"

text \<open>\<^verbatim>\<open>shutil.copyfile\<close>\<close>

definition copyfile :: "string \<Rightarrow> string \<Rightarrow> (string \<rightharpoonup> 'c) \<Rightarrow> (string \<rightharpoonup> 'c) result" where
  "copyfile src dst files =
     (case files src of
        None \<Rightarrow> Inl (OSError ''No such file or directory'')
      | Some c \<Rightarrow> if src = dst then Inl (OSError ''are the same file'') else Inr (files(dst \<mapsto> c)))"

fun copy_loop :: "'c mock \<Rightarrow> string \<Rightarrow> string \<Rightarrow> nat list \<Rightarrow> 'c mock \<times> unit result" where
  "copy_loop m name path [] = (m, Inr ())"
| "copy_loop m name path (n # ns) =
     (case copyfile path (mock_destination m name path n) (mk_files m) of
        Inl e \<Rightarrow> (m, Inl e)
      | Inr files \<Rightarrow> copy_loop (m\<lparr>mk_files := files\<rparr>) name path ns)"

definition mock_print :: "string \<Rightarrow> string \<Rightarrow> int \<Rightarrow> 'c mock \<Rightarrow> 'c mock \<times> unit result" where
  "mock_print name path copies m =
     (if \<not> known m name then (m, Inl (RuntimeError (''Unknown printer: '' @ name)))
      else case copy_loop m name path [1..<Suc (nat copies)] of
             (m', Inl e) \<Rightarrow> (m', Inl e)
           | (m', Inr _) \<Rightarrow> (m'\<lparr>mk_print_calls := mk_print_calls m' @ [(name, path, copies)]\<rparr>, Inr ()))"

section \<open>Choice of the backend\<close>

datatype backend = MockBackend string | WindowsBackend string | MacBackend

text \<open>A path of Windows: its parts with backslashes between them.\<close>

definition win_path :: "string list \<Rightarrow> string" where
  "win_path = py_join [CHR 0x5C]"

definition sumatra_path :: "string option \<Rightarrow> string option \<Rightarrow> string" where
  "sumatra_path configured program_files =
     (if py_truthy configured then the configured
      else win_path [case program_files of None \<Rightarrow> win_path [''C:'', ''Program Files''] | Some d \<Rightarrow> d,
                     ''ERES Print Agent'', ''SumatraPDF.exe''])"

definition new_windows :: "bool \<Rightarrow> string option \<Rightarrow> string option \<Rightarrow> backend result" where
  "new_windows win32print_available configured program_files =
     (if \<not> win32print_available then Inl (RuntimeError ''pywin32 is not available'')
      else Inr (WindowsBackend (sumatra_path configured program_files)))"

record factory_env =
  fe_force_mock :: "string option" \<comment> \<open>\<^verbatim>\<open>ERES_PRINT_AGENT_FORCE_MOCK_PRINTER\<close>\<close>
  fe_platform :: platform
  fe_cwd :: string
  fe_win32print :: bool
  fe_sumatra :: "string option"
  fe_program_files :: "string option"

definition mock_dir :: "factory_env \<Rightarrow> string option \<Rightarrow> string" where
  "mock_dir e dir = (case dir of Some d \<Rightarrow> d | None \<Rightarrow> path_join (fe_cwd e) ''mock-print-output'')"

definition build_printer_manager :: "factory_env \<Rightarrow> string option \<Rightarrow> backend result" where
  "build_printer_manager e dir =
     (if fe_force_mock e = Some ''1'' then Inr (MockBackend (mock_dir e dir))
      else case fe_platform e of
             Win32 \<Rightarrow> new_windows (fe_win32print e) (fe_sumatra e) (fe_program_files e)
           | Darwin \<Rightarrow> Inr MacBackend
           | OtherPlatform \<Rightarrow> Inr (MockBackend (mock_dir e dir)))"

section \<open>The mock is a printer manager\<close>

text \<open>None of its printers is said to be offline; the default one says nothing.\<close>

definition mock_consistent :: "'c mock \<Rightarrow> bool" where
  "mock_consistent m \<longleftrightarrow> list_all (\<lambda>p. dp_online p \<noteq> Some False) (mk_printers m)"

lemma known_iff: "known m name \<longleftrightarrow> (\<exists>p \<in> set (mk_printers m). dp_local_printer_id p = name)"
  by (auto simp: known_def list_ex_iff)

interpretation mock: printer_manager mock_consistent mock_discover mock_get_status
proof (unfold_locales, goal_cases)
  case (1 e ps p b st)
  then have "known e (dp_local_printer_id p)" "b"
    by (auto simp: mock_discover_def known_iff mock_consistent_def list_all_iff)
  with 1(5) show ?case by (auto simp: mock_get_status_def)
qed

lemma default_mock_consistent: "mock_consistent (new_mock dir None files)"
  by (simp add: mock_consistent_def new_mock_def mock_office_printer_def)

section \<open>Copies\<close>

lemma nat_digits_last: "last (nat_digits n) = char_of (48 + n mod 10)"
  by (subst nat_digits.simps) simp

lemma nat_digits_nonempty: "nat_digits n \<noteq> []"
  by (subst nat_digits.simps) simp

lemma butlast_nat_digits: "10 \<le> n \<Longrightarrow> butlast (nat_digits n) = nat_digits (n div 10)"
  by (subst nat_digits.simps) simp

lemma nat_digits_short: "length (nat_digits n) = 1 \<longleftrightarrow> n < 10"
  using nat_digits_nonempty [of "n div 10"] by (subst nat_digits.simps) auto

lemma nat_digits_inj: "nat_digits m = nat_digits n \<Longrightarrow> m = n"
proof (induction m arbitrary: n rule: less_induct)
  case (less m)
  have "of_char (last (nat_digits k)) = 48 + k mod 10" for k
    by (simp add: nat_digits_last of_char_of)
  then have mod: "m mod 10 = n mod 10" using less.prems by (metis add_left_cancel)
  show ?case
  proof (cases "m < 10")
    case True
    then have "n < 10" using nat_digits_short less.prems by metis
    then show ?thesis using True mod by simp
  next
    case False
    then have "10 \<le> n" using nat_digits_short less.prems by (metis not_le)
    then have "m div 10 = n div 10"
      using less.IH [of "m div 10" "n div 10"] less.prems butlast_nat_digits False
      by (metis not_le zero_less_numeral div_less_dividend less_le_trans one_less_numeral_iff semiring_norm(76))
    then show ?thesis using mod by (metis mult_div_mod_eq)
  qed
qed

lemma path_join_inj: "pre \<noteq> [] \<Longrightarrow> path_join dir (pre @ x) = path_join dir (pre @ y) \<Longrightarrow> x = y"
  by (cases pre) (auto simp: path_join_def starts_with_def split: if_splits)

lemma mock_destination_inj:
  assumes "mock_destination m name path i = mock_destination m name path j" shows "i = j"
proof -
  let ?pre = "path_stem path @ ''.'' @ map (\<lambda>c. if c = CHR '' '' then CHR ''_'' else c) name @ ''.copy''"
  have eq: "mock_destination m name path n = path_join (mk_output_dir m) (?pre @ nat_digits n @ path_suffix path)" for n
    by (simp add: mock_destination_def)
  have "nat_digits i @ path_suffix path = nat_digits j @ path_suffix path"
    by (rule path_join_inj [OF _ assms [unfolded eq]]) simp
  then show ?thesis using nat_digits_inj by simp
qed

text \<open>The loop writes one copy for each number of the list and nothing else.\<close>

lemma copy_loop_effect:
  assumes "mk_files m path = Some c" and "\<forall>n \<in> set ns. mock_destination m name path n \<noteq> path"
  shows "copy_loop m name path ns =
    (m\<lparr>mk_files := \<lambda>p. if p \<in> mock_destination m name path ` set ns then Some c else mk_files m p\<rparr>, Inr ())"
  using assms
proof (induction ns arbitrary: m)
  case (Cons n ns)
  let ?m = "m\<lparr>mk_files := (mk_files m)(mock_destination m name path n \<mapsto> c)\<rparr>"
  have same: "mock_destination ?m name path = mock_destination m name path"
    by (simp add: mock_destination_def fun_eq_iff)
  have "copy_loop m name path (n # ns) = copy_loop ?m name path ns"
    using Cons.prems by (auto simp: copyfile_def)
  also have "\<dots> = (?m\<lparr>mk_files := \<lambda>p. if p \<in> mock_destination ?m name path ` set ns then Some c else mk_files ?m p\<rparr>,
      Inr ())"
    using Cons.prems by (intro Cons.IH) (auto simp: same)
  finally show ?case by (auto simp: same fun_eq_iff)
qed simp

section \<open>Properties\<close>

text \<open>
  The mock prints what it is asked for. For a printer it knows and a document that exists, outside
  its own output names, \<^verbatim>\<open>print\<close> succeeds, records one call, and leaves exactly as many new files as
  copies were asked for (none for zero or less), each with the content of the document; no other
  file changes.
\<close>

theorem mock_print_copies:
  assumes "known m name" and "mk_files m path = Some c" and "\<And>n. mock_destination m name path n \<noteq> path"
  shows "\<exists>m' out. mock_print name path copies m = (m', Inr ()) \<and>
    mk_print_calls m' = mk_print_calls m @ [(name, path, copies)] \<and> card out = nat copies \<and>
    (\<forall>p. mk_files m' p = (if p \<in> out then Some c else mk_files m p))"
proof -
  let ?out = "mock_destination m name path ` {1..<Suc (nat copies)}"
  have "inj_on (mock_destination m name path) {1..<Suc (nat copies)}"
    by (rule inj_onI) (rule mock_destination_inj)
  then have "card ?out = nat copies" by (simp add: card_image)
  moreover have "copy_loop m name path [1..<Suc (nat copies)] =
      (m\<lparr>mk_files := \<lambda>p. if p \<in> ?out then Some c else mk_files m p\<rparr>, Inr ())"
    using copy_loop_effect [OF assms(2), of "[1..<Suc (nat copies)]" name] assms(3) by (simp del: upt_Suc)
  ultimately show ?thesis using assms(1) by (simp add: mock_print_def del: upt_Suc) blast
qed

theorem mock_print_copies_witness:
  "\<exists>m' out. mock_print ''Mock Office Printer'' ''/tmp/a.pdf'' 2 (new_mock ''/out'' None [''/tmp/a.pdf'' \<mapsto> 7 :: nat]) =
      (m', Inr ()) \<and> card out = nat 2 \<and> (\<forall>p. mk_files m' p = (if p \<in> out then Some 7 else [''/tmp/a.pdf'' \<mapsto> 7] p))"
proof -
  let ?m = "new_mock ''/out'' None [''/tmp/a.pdf'' \<mapsto> 7 :: nat]"
  have k: "known ?m ''Mock Office Printer''" by (simp add: known_def new_mock_def mock_office_printer_def)
  have f: "mk_files ?m ''/tmp/a.pdf'' = Some 7" by (simp add: new_mock_def)
  have "path_stem ''/tmp/a.pdf'' = ''a''" by code_simp
  then have d: "mock_destination ?m ''Mock Office Printer'' ''/tmp/a.pdf'' n \<noteq> ''/tmp/a.pdf''" for n
    by (simp add: mock_destination_def path_join_def starts_with_def new_mock_def)
  from mock_print_copies [OF k f d, of 2] show ?thesis by (auto simp: new_mock_def)
qed

end
