(* ===== verification/Cli.thy ===== *)
theory Cli
  imports Cli_Args Status_File Test_Page Mac_Service Windows_Service Printer_Mock
begin

text \<open>
  The command line, \<^verbatim>\<open>eres_print_agent/cli.py\<close>: one definition per command and \<^verbatim>\<open>main\<close> with its
  treatment of service launches and of refused access. The state holds what a command can read
  and change: the configuration file, the credential stores, the machine's service state, the two
  output streams, and, for the proofs, which agents were started. The arguments are read by
  \<^verbatim>\<open>Cli_Args\<close>; the texts that argparse prints, the JSON library, the web application's reply, the printing backend and the running of
  an agent are arguments. \<^verbatim>\<open>sys.exit(1)\<close> for a platform without a service is the exit code 1, and the
  long dashes of two messages are written as hyphens.
\<close>

section \<open>State\<close>

record 's cli =
  cl_platform :: platform
  cl_config :: disk_file
  cl_secrets :: cred_store
  cl_service :: 's
  cl_out :: "string list"
  cl_err :: "string list"
  cl_started :: "(AgentConfig \<times> string) list"

type_synonym ('s, 'a) cmd = "('s cli, 'a) svc"

definition say :: "string \<Rightarrow> ('s, unit) cmd" where
  "say line s = (s\<lparr>cl_out := cl_out s @ [line]\<rparr>, Inr ())"

definition complain :: "string \<Rightarrow> ('s, unit) cmd" where
  "complain line s = (s\<lparr>cl_err := cl_err s @ [line]\<rparr>, Inr ())"

definition on_service :: "('s, 'a) svc \<Rightarrow> ('s, 'a) cmd" where
  "on_service m s = (case m (cl_service s) of (w, r) \<Rightarrow> (s\<lparr>cl_service := w\<rparr>, r))"

definition from_result :: "'a result \<Rightarrow> ('s, 'a) cmd" where
  "from_result r s = (s, case r of Inl x \<Rightarrow> Inl (PyErr x) | Inr v \<Rightarrow> Inr v)"

text \<open>The libraries and the outside world of a command.\<close>

record cli_env =
  ev_loads :: "string \<Rightarrow> loads_outcome"
  ev_dumps :: "json \<Rightarrow> string"
  ev_other_text :: "json \<Rightarrow> string" \<comment> \<open>texts of floats, lists and objects\<close>
  ev_exc_text :: "svc_exc \<Rightarrow> string"
  ev_cred :: cred_env
  ev_bracket_ok :: "string \<Rightarrow> bool"
  ev_removals :: removals
  ev_log_level :: "json \<Rightarrow> py_error option" \<comment> \<open>what \<^verbatim>\<open>configure_logging\<close> raises for a level\<close>

definition read_config :: "cli_env \<Rightarrow> ('s, AgentConfig) cmd" where
  "read_config e s = from_result (load_config (ev_loads e) (cl_config s)) s"

section \<open>Commands\<close>

definition cmd_version :: "string \<Rightarrow> ('s, int) cmd" where
  "cmd_version version = andthen (say (''eres-print-agent '' @ version)) (\<lambda>_. ret 0)"

text \<open>\<^verbatim>\<open>_service_module\<close> on a platform without one.\<close>

definition need_service :: "string \<Rightarrow> ('s, int) cmd \<Rightarrow> ('s, int) cmd" where
  "need_service name m s =
     (if cl_platform s = OtherPlatform
      then andthen (complain (''`'' @ name @ ''` is only available on Windows and macOS.'')) (\<lambda>_. ret 1) s
      else m s)"

definition DEFAULT_WEB_URL :: string where "DEFAULT_WEB_URL = ''https://app.eres.cloud''"

definition pair_web_url :: "string option \<Rightarrow> string" where
  "pair_web_url web_url = (if py_truthy web_url then the web_url else DEFAULT_WEB_URL)"

definition run_pair :: "cli_env \<Rightarrow> string \<Rightarrow> http_reply \<Rightarrow> ('s, PairingResult) cmd" where
  "run_pair e web_url reply s =
     (case pair (ev_cred e) (ev_dumps e) (ev_bracket_ok e) web_url reply
             \<lparr>pw_secrets = cl_secrets s, pw_config = cl_config s\<rparr> of
        (w, r) \<Rightarrow> from_result r (s\<lparr>cl_secrets := pw_secrets w, cl_config := pw_config w\<rparr>))"

text \<open>The (re)start of the service after pairing.\<close>

definition pair_service :: "'s service_module \<Rightarrow> platform \<Rightarrow> ('s, unit) cmd" where
  "pair_service M pf =
     andthen (on_service (sm_exists M)) (\<lambda>there.
       if there then on_service (sm_restart M)
       else andthen (on_service (sm_install M)) (\<lambda>_.
              if pf = Win32 then on_service (sm_start M) else ret ()))"

definition cmd_pair ::
  "cli_env \<Rightarrow> 's service_module \<Rightarrow> string option \<Rightarrow> bool \<Rightarrow> http_reply \<Rightarrow> ('s, int) cmd" where
  "cmd_pair e M web_url no_service reply s =
     andthen (run_pair e (pair_web_url web_url) reply) (\<lambda>r.
       if \<not> pr_success r
       then andthen (complain (''Pairing failed: '' @
              py_str (ev_other_text e) (case pr_error r of None \<Rightarrow> JNull | Some v \<Rightarrow> v))) (\<lambda>_. ret 1)
       else andthen (say (''Paired as agent '' @ (case pr_agent_id r of None \<Rightarrow> ''None'' | Some a \<Rightarrow> a) @ ''.'')) (\<lambda>_.
         if no_service \<or> cl_platform s = OtherPlatform
         then andthen (say ''Run `eres-print-agent run` to run it in the foreground.'') (\<lambda>_. ret 0)
         else andthen (try_except
             (andthen (pair_service M (cl_platform s)) (\<lambda>_. ret None))
             (\<lambda>x. if cl_platform s = Win32
               then andthen (say ''Almost done - restart the service so it picks up these credentials.'') (\<lambda>_.
                    andthen (say ''In an Administrator Command Prompt, run:'') (\<lambda>_.
                    andthen (say ''  eres-print-agent restart'') (\<lambda>_. ret (Some 0))))
               else andthen (complain (''Paired, but the background service did not start: '' @ ev_exc_text e x)) (\<lambda>_.
                    ret (Some 1)))) (\<lambda>code. case code of
             Some n \<Rightarrow> ret n
           | None \<Rightarrow>
               andthen (say ''ERES Print Agent is running in the background and starts by itself with this computer.'') (\<lambda>_.
               andthen (say ''Your printers will appear in ERES Settings > Printers within a few seconds.'') (\<lambda>_. ret 0))))) s"

text \<open>How the agent's run ends: it returns, it is interrupted from the keyboard, or it raises.\<close>

datatype run_end = RunReturns | RunInterrupted | RunRaises svc_exc

definition cmd_run :: "cli_env \<Rightarrow> run_end \<Rightarrow> ('s, int) cmd" where
  "cmd_run e ending s =
     andthen (read_config e) (\<lambda>config.
       if \<not> is_paired config
       then andthen (complain ''Not paired. Run `eres-print-agent pair <code>` first.'') (\<lambda>_. ret 1)
       else case secret_of (ev_cred e) config (cl_secrets s) of
              None \<Rightarrow> andthen (complain ''Paired, but no credential found in the OS keyring. Re-run `pair`.'') (\<lambda>_. ret 1)
            | Some secret \<Rightarrow>
                if secret = []
                then andthen (complain ''Paired, but no credential found in the OS keyring. Re-run `pair`.'') (\<lambda>_. ret 1)
                else (case ev_log_level e (cfg_logLevel config) of
                       Some x \<Rightarrow> raise_exc (PyErr x)
                     | None \<Rightarrow> (\<lambda>s. (s\<lparr>cl_started := cl_started s @ [(config, secret)]\<rparr>,
                         case ending of RunRaises x \<Rightarrow> Inl x | _ \<Rightarrow> Inr 0)))) s"

definition cmd_install :: "cli_env \<Rightarrow> 's service_module \<Rightarrow> ('s, int) cmd" where
  "cmd_install e M s =
     need_service ''install''
       (andthen (on_service (sm_install M)) (\<lambda>_.
        andthen (say (if cl_platform s = Darwin then ''ERES Print Agent installed. It starts by itself when you log in.''
                      else ''ERES Print Agent service installed and set to start automatically.'')) (\<lambda>_.
        andthen (read_config e) (\<lambda>config.
          if \<not> is_paired config
          then andthen (say ''Not paired yet - run `eres-print-agent pair <code>` from ERES Settings > Printers.'') (\<lambda>_. ret 0)
          else ret 0)))) s"

text \<open>The secret of an agent id that is a text is deleted; other ids are in no store.\<close>

definition forget_secret :: "cli_env \<Rightarrow> AgentConfig \<Rightarrow> ('s, unit) cmd" where
  "forget_secret e config s =
     (case cfg_agentId config of
        JStr a \<Rightarrow> if a = [] then (s, Inr ())
                   else (s\<lparr>cl_secrets := delete_agent_secret (ev_cred e) (ev_removals e) a (cl_secrets s)\<rparr>, Inr ())
      | _ \<Rightarrow> (s, Inr ()))"

definition cmd_uninstall :: "cli_env \<Rightarrow> 's service_module \<Rightarrow> ('s, int) cmd" where
  "cmd_uninstall e M =
     need_service ''uninstall''
       (andthen (on_service (sm_uninstall M)) (\<lambda>_.
        andthen (read_config e) (\<lambda>config.
        andthen (forget_secret e config) (\<lambda>_.
        andthen (say ''ERES Print Agent service removed.'') (\<lambda>_. ret 0)))))"

definition service_cmd :: "string \<Rightarrow> ('s, unit) svc \<Rightarrow> string \<Rightarrow> ('s, int) cmd" where
  "service_cmd name m text =
     need_service name (andthen (on_service m) (\<lambda>_. andthen (say text) (\<lambda>_. ret 0)))"

definition cmd_start :: "'s service_module \<Rightarrow> ('s, int) cmd" where
  "cmd_start M = service_cmd ''start'' (sm_start M) ''ERES Print Agent service started.''"

definition cmd_stop :: "'s service_module \<Rightarrow> ('s, int) cmd" where
  "cmd_stop M = service_cmd ''stop'' (sm_stop M) ''ERES Print Agent service stopped.''"

definition cmd_restart :: "'s service_module \<Rightarrow> ('s, int) cmd" where
  "cmd_restart M = service_cmd ''restart'' (sm_restart M) ''ERES Print Agent service restarted.''"

text \<open>The service's state for \<^verbatim>\<open>status\<close>: an exception of the query becomes a text.\<close>

definition query_text :: "cli_env \<Rightarrow> 's service_module \<Rightarrow> ('s, string) cmd" where
  "query_text e M s =
     (if cl_platform s = OtherPlatform then (s, Inr (service_status (cl_platform s) (Inr [])))
      else case on_service (sm_query M) s of
             (s', Inl x) \<Rightarrow> (s', Inr (service_status (cl_platform s) (Inl (ev_exc_text e x))))
           | (s', Inr t) \<Rightarrow> (s', Inr (service_status (cl_platform s) (Inr t))))"

definition report_json :: "status_report \<Rightarrow> json" where
  "report_json r =
     JObj [(''service'', JStr (sr_service r)), (''paired'', JBool (sr_paired r)), (''agentId'', sr_agentId r),
           (''hubUrl'', sr_hubUrl r), (''connection'', sr_connection r), (''tenantId'', sr_tenantId r),
           (''siteId'', sr_siteId r), (''agentVersion'', sr_agentVersion r), (''queueDepth'', sr_queueDepth r),
           (''printerCount'', JInt (int (sr_printerCount r))), (''lastUpdatedAt'', sr_lastUpdatedAt r)]"

text \<open>\<^verbatim>\<open>collect_status\<close> reads the configuration and the snapshot before it asks for the service.\<close>

definition cmd_status :: "cli_env \<Rightarrow> 's service_module \<Rightarrow> bool \<Rightarrow> disk_file \<Rightarrow> ('s, int) cmd" where
  "cmd_status e M as_json status_file s =
     andthen (read_config e) (\<lambda>_.
     andthen (from_result (read_status (ev_loads e) status_file)) (\<lambda>_.
     andthen (query_text e M) (\<lambda>service.
     andthen (from_result (collect_status (ev_loads e) service (cl_config s) status_file)) (\<lambda>r.
     andthen (say (if as_json then ev_dumps e (report_json r) else format_status_text (ev_other_text e) r)) (\<lambda>_.
       ret 0))))) s"

definition cmd_printers :: "cli_env \<Rightarrow> bool \<Rightarrow> disk_file \<Rightarrow> ('s, int) cmd" where
  "cmd_printers e as_json status_file =
     andthen (from_result (collect_printers (ev_loads e) status_file)) (\<lambda>printers.
     andthen (if as_json then ret (ev_dumps e printers) else from_result (format_printers_text printers)) (\<lambda>text.
     andthen (say text) (\<lambda>_. ret 0)))"

definition cmd_logs :: "int \<Rightarrow> string option \<Rightarrow> ('s, int) cmd" where
  "cmd_logs n content = andthen (say (tail_log_lines n content)) (\<lambda>_. ret 0)"

text \<open>The printer that \<^verbatim>\<open>test-print\<close> takes: the one asked for, or else the default one, or else the first.\<close>

definition choose_printer :: "string option \<Rightarrow> DiscoveredPrinter list \<Rightarrow> DiscoveredPrinter option" where
  "choose_printer wanted ps =
     (if py_truthy wanted then find (\<lambda>p. Some (dp_local_printer_id p) = wanted) ps
      else case find dp_is_default ps of
             Some p \<Rightarrow> Some p
           | None \<Rightarrow> (case ps of [] \<Rightarrow> None | p # _ \<Rightarrow> Some p))"

text \<open>\<^term>\<open>print_doc\<close> prints a document on a printer of the backend.\<close>

definition cmd_test_print ::
  "cli_env \<Rightarrow> backend result \<Rightarrow> (backend \<Rightarrow> DiscoveredPrinter list result) \<Rightarrow>
     (backend \<Rightarrow> string \<Rightarrow> string \<Rightarrow> int \<Rightarrow> svc_exc option) \<Rightarrow> string option \<Rightarrow> ('s, int) cmd" where
  "cmd_test_print e backend discover print_doc wanted =
     andthen (from_result backend) (\<lambda>b.
     andthen (from_result (discover b)) (\<lambda>ps.
       if ps = [] then andthen (complain ''No printers discovered.'') (\<lambda>_. ret 1)
       else case choose_printer wanted ps of
              None \<Rightarrow>
                andthen (complain (''Printer '' @ py_repr (the wanted) @ '' not found. Known printers:'')) (\<lambda>_.
                  (\<lambda>s. (s\<lparr>cl_err := cl_err s @ map (\<lambda>p. ''  - '' @ dp_local_printer_id p) ps\<rparr>, Inr 1)))
            | Some p \<Rightarrow>
                (case print_doc b (dp_local_printer_id p) build_local_test_pdf 1 of
                   Some x \<Rightarrow> andthen (complain (''Test print failed: '' @ ev_exc_text e x)) (\<lambda>_. ret 1)
                 | None \<Rightarrow> andthen (say (''Test print sent to '' @ dp_display_name p @ ''.'')) (\<lambda>_. ret 0))))"

section \<open>The entry point\<close>

definition SERVICE_COMMANDS :: "string set" where
  "SERVICE_COMMANDS = {''install'', ''uninstall'', ''start'', ''stop'', ''restart''}"

definition ERROR_ACCESS_DENIED :: int where "ERROR_ACCESS_DENIED = 5"

record 's outside =
  os_env :: cli_env
  os_module :: "'s service_module"
  os_version :: string
  os_hostname :: "string result"
  os_name :: string \<comment> \<open>system and release\<close>
  os_pair_reply :: "string \<Rightarrow> json \<Rightarrow> http_reply" \<comment> \<open>the web application's reply to a request\<close>
  os_run_end :: run_end
  os_status_file :: disk_file
  os_log :: "string option"
  os_backend :: "backend result"
  os_discover :: "backend \<Rightarrow> DiscoveredPrinter list result"
  os_print :: "backend \<Rightarrow> string \<Rightarrow> string \<Rightarrow> int \<Rightarrow> svc_exc option"

fun run_command :: "'s outside \<Rightarrow> command \<Rightarrow> ('s, int) cmd" where
  "run_command o1 CVersion = cmd_version (os_version o1)"
| "run_command o1 (CPair code web_url no_service) =
     cmd_pair (os_env o1) (os_module o1) web_url no_service
       (os_pair_reply o1 (pairing_url (pair_web_url web_url))
          (pairing_payload code (os_hostname o1) (os_name o1) (os_version o1)))"
| "run_command o1 CRun = cmd_run (os_env o1) (os_run_end o1)"
| "run_command o1 CInstall = cmd_install (os_env o1) (os_module o1)"
| "run_command o1 CUninstall = cmd_uninstall (os_env o1) (os_module o1)"
| "run_command o1 CStart = cmd_start (os_module o1)"
| "run_command o1 CStop = cmd_stop (os_module o1)"
| "run_command o1 CRestart = cmd_restart (os_module o1)"
| "run_command o1 (CStatus as_json) = cmd_status (os_env o1) (os_module o1) as_json (os_status_file o1)"
| "run_command o1 (CPrinters as_json) = cmd_printers (os_env o1) as_json (os_status_file o1)"
| "run_command o1 (CLogs n) = cmd_logs n (os_log o1)"
| "run_command o1 (CTestPrint wanted) =
     cmd_test_print (os_env o1) (os_backend o1) (os_discover o1) (os_print o1) wanted"

fun is_access_denied :: "svc_exc \<Rightarrow> bool" where
  "is_access_denied (WinError n _) \<longleftrightarrow> n = ERROR_ACCESS_DENIED"
| "is_access_denied (PyErr _) \<longleftrightarrow> False"

definition access_denied_text :: "string \<Rightarrow> string" where
  "access_denied_text name =
     ''Access denied. `eres-print-agent '' @ name @ ''` manages a Windows service,'' @ [newline] @
     ''which needs an elevated prompt: right-click Command Prompt, choose'' @ [newline] @
     [CHR 0x22] @ ''Run as administrator'' @ [CHR 0x22] @ '', then run the command again.''"

definition looks_like_scm_launch :: "string list option \<Rightarrow> platform \<Rightarrow> bool \<Rightarrow> string list \<Rightarrow> bool" where
  "looks_like_scm_launch argv pf frozen sys_argv \<longleftrightarrow> argv = None \<and> pf = Win32 \<and> frozen \<and> length sys_argv = 1"

text \<open>The arguments are those given, or else those of the process. The dispatcher is asked only for a
  launch by the service manager. argparse leaves the process with its exit code.\<close>

definition main ::
  "'s outside \<Rightarrow> string list option \<Rightarrow> bool \<Rightarrow> string list \<Rightarrow> svc_exc option \<Rightarrow> ('s, int) cmd" where
  "main o1 argv frozen sys_argv dispatcher s =
     andthen (if looks_like_scm_launch argv (cl_platform s) frozen sys_argv
              then (\<lambda>s. (s, run_service_dispatcher dispatcher)) else ret False) (\<lambda>served.
       if served then ret 0
       else case parse_args (case argv of None \<Rightarrow> tl sys_argv | Some args \<Rightarrow> args) of
              Exits n \<Rightarrow> ret n
            | Parsed c \<Rightarrow>
                try_except (run_command o1 c) (\<lambda>x.
                  if command_name c \<notin> SERVICE_COMMANDS \<or> \<not> is_access_denied x then raise_exc x
                  else andthen (complain (access_denied_text (command_name c))) (\<lambda>_. ret 1))) s"

section \<open>Lemmas\<close>

lemma say_apply [simp]: "say l s = (s\<lparr>cl_out := cl_out s @ [l]\<rparr>, Inr ())"
  by (simp add: say_def)

lemma complain_apply [simp]: "complain l s = (s\<lparr>cl_err := cl_err s @ [l]\<rparr>, Inr ())"
  by (simp add: complain_def)

lemma read_config_ok:
  "load_config (ev_loads e) (cl_config s) = Inr c \<Longrightarrow> read_config e s = (s, Inr c)"
  by (simp add: read_config_def from_result_def)

text \<open>A run with a paired configuration and a secret starts the agent.\<close>

lemma cmd_run_starts:
  assumes "load_config (ev_loads e) (cl_config s) = Inr c" and "is_paired c"
    and "secret_of (ev_cred e) c (cl_secrets s) = Some secret" and "secret \<noteq> []"
    and "ev_log_level e (cfg_logLevel c) = None"
  shows "cmd_run e RunReturns s = (s\<lparr>cl_started := cl_started s @ [(c, secret)]\<rparr>, Inr 0)"
  using assms read_config_ok [OF assms(1)] by (simp add: cmd_run_def)

text \<open>Without a secret it refuses.\<close>

lemma cmd_run_refuses:
  assumes "load_config (ev_loads e) (cl_config s) = Inr c"
    and "secret_of (ev_cred e) c (cl_secrets s) = None"
  shows "\<exists>s'. cmd_run e ending s = (s', Inr 1) \<and> cl_started s' = cl_started s"
  using assms read_config_ok [OF assms(1)] by (simp add: cmd_run_def)

section \<open>Properties\<close>


text \<open>
  C34: Uninstalling revokes the machine. When \<^verbatim>\<open>uninstall\<close> has removed the service and the stores let
  the secret be deleted, a later \<^verbatim>\<open>run\<close> refuses with exit code 1 and starts no agent, although the
  configuration file is still there.
\<close>

theorem uninstall_revokes:
  assumes "cmd_uninstall e M s = (s1, Inr 0)" and "cl_platform s \<noteq> OtherPlatform"
    and "load_config (ev_loads e) (cl_config s) = Inr c"
    and "ev_removals e = \<lparr>rm_dpapi = True, rm_keyring = True, rm_fallback = True\<rparr>"
  shows "\<exists>s2. cmd_run e ending s1 = (s2, Inr 1) \<and> cl_started s2 = cl_started s"
proof -
  obtain u where u: "on_service (sm_uninstall M) s = (u, Inr ())"
    "cl_config u = cl_config s" "cl_secrets u = cl_secrets s" "cl_started u = cl_started s"
    using assms(1,2)
    by (auto simp: cmd_uninstall_def need_service_def andthen_def on_service_def split: prod.splits sum.splits)
  have c: "load_config (ev_loads e) (cl_config u) = Inr c" using assms(3) u(2) by simp
  show ?thesis
  proof (cases "\<exists>a. cfg_agentId c = JStr a \<and> a \<noteq> []")
    case True
    then obtain a where a: "cfg_agentId c = JStr a" "a \<noteq> []" by blast
    have "forget_secret e c u = (u\<lparr>cl_secrets := delete_agent_secret (ev_cred e) (ev_removals e) a (cl_secrets u)\<rparr>, Inr ())"
      using a by (simp add: forget_secret_def)
    then obtain out where s1: "s1 = u\<lparr>cl_secrets := delete_agent_secret (ev_cred e) (ev_removals e) a (cl_secrets u),
        cl_out := out\<rparr>"
      using assms(1,2) u(1) read_config_ok [OF c] by (auto simp: cmd_uninstall_def need_service_def)
    have "secret_of (ev_cred e) c (cl_secrets s1) = None"
      using delete_forgets a assms(4) by (simp add: s1 secret_of_def)
    then show ?thesis using cmd_run_refuses [of e s1 c] c u(4) by (simp add: s1)
  next
    case False
    then obtain out where s1: "s1 = u\<lparr>cl_out := out\<rparr>"
      using assms(1,2) u(1) read_config_ok [OF c]
      by (cases "cfg_agentId c") (auto simp: cmd_uninstall_def need_service_def forget_secret_def)
    have "\<not> is_paired c \<or> secret_of (ev_cred e) c (cl_secrets s1) = None"
      using False by (cases "cfg_agentId c") (auto simp: is_paired_def secret_of_def)
    then show ?thesis
      using cmd_run_refuses [of e s1 c] c u(4) read_config_ok [of e s1 c] by (auto simp: s1 cmd_run_def)
  qed
qed

definition sample_cli :: "unit cli" where
  "sample_cli = \<lparr>cl_platform = OtherPlatform, cl_config = Missing, cl_secrets = no_secrets, cl_service = (),
     cl_out = [], cl_err = [], cl_started = []\<rparr>"

definition sample_cli_env :: cli_env where
  "sample_cli_env = \<lparr>ev_loads = (\<lambda>_. Loaded (config_json sample_paired)), ev_dumps = (\<lambda>_. ''x''),
     ev_other_text = (\<lambda>_. []), ev_exc_text = (\<lambda>_. []), ev_cred = linux_env, ev_bracket_ok = (\<lambda>_. True),
     ev_removals = \<lparr>rm_dpapi = True, rm_keyring = True, rm_fallback = True\<rparr>, ev_log_level = (\<lambda>_. None)\<rparr>"

definition sample_reply :: http_reply where
  "sample_reply = HttpReply 200 ''application/json'' (Loaded (JObj [(''success'', JBool True), (''data'', sample_data)]))"

definition idle_service :: "'s service_module" where
  "idle_service = \<lparr>sm_exists = ret False, sm_install = ret (), sm_uninstall = ret (), sm_start = ret (),
     sm_stop = ret (), sm_restart = ret (), sm_query = ret ''stopped''\<rparr>"


theorem uninstall_revokes_witness:
  "\<exists>s1 s2. cmd_uninstall sample_cli_env idle_service (sample_cli\<lparr>cl_platform := Darwin, cl_config := Text ''x''\<rparr>) = (s1, Inr 0) \<and>
     cmd_run sample_cli_env RunReturns s1 = (s2, Inr 1) \<and> cl_started s2 = []"
proof -
  let ?s = "sample_cli\<lparr>cl_platform := Darwin, cl_config := Text ''x''\<rparr>"
  have c: "load_config (ev_loads sample_cli_env) (cl_config ?s) = Inr sample_paired"
    by (simp add: sample_cli_env_def load_config_def config_json_def field_or_def sample_paired_def)
  obtain s1 where s1: "cmd_uninstall sample_cli_env idle_service ?s = (s1, Inr 0)"
    using c by (simp add: cmd_uninstall_def need_service_def idle_service_def on_service_def andthen_def
        read_config_def from_result_def forget_secret_def sample_paired_def)
  have "\<exists>s2. cmd_run sample_cli_env RunReturns s1 = (s2, Inr 1) \<and> cl_started s2 = cl_started ?s"
    by (rule uninstall_revokes [OF s1 _ c]) (simp_all add: sample_cli_env_def)
  with s1 show ?thesis by (auto simp: sample_cli_def)
qed

text \<open>
  A refused service command says what to do. When the service control manager denies access, each
  of the five service commands prints the instruction to use an elevated prompt instead of a
  traceback and exits with 1; nothing else changes: the configuration and the credentials stay as
  they were, and no later part of the command has run.
\<close>

theorem access_denied_explained:
  assumes refused: "\<And>m w. m \<in> {scm_install M, scm_remove M, scm_start M, scm_stop M, scm_restart M} \<Longrightarrow>
      m w = (w, Inl (WinError 5 msg))"
    and "cl_platform s = Win32" and "os_module o1 = windows_service M"
    and "parse_args args = Parsed c"
    and "c \<in> {CInstall, CUninstall, CStart, CStop, CRestart}"
  shows "main o1 (Some args) frozen sys_argv dispatcher s =
    (s\<lparr>cl_err := cl_err s @ [access_denied_text (command_name c)]\<rparr>, Inr 1)"
proof -
  have calls: "scm_install M w = (w, Inl (WinError 5 msg))" "scm_remove M w = (w, Inl (WinError 5 msg))"
    "scm_start M w = (w, Inl (WinError 5 msg))" "scm_stop M w = (w, Inl (WinError 5 msg))"
    "scm_restart M w = (w, Inl (WinError 5 msg))" for w
    by (rule refused, simp)+
  have "run_command o1 c s = (s, Inl (WinError 5 msg))"
    using assms(2,3,5)
    by (auto simp: windows_service_def win_install_service_def win_uninstall_service_def calls on_service_def
        cmd_install_def cmd_uninstall_def cmd_start_def cmd_stop_def cmd_restart_def service_cmd_def need_service_def)
  moreover have "command_name c \<in> SERVICE_COMMANDS" using assms(5) by (auto simp: SERVICE_COMMANDS_def)
  ultimately show ?thesis using assms(4)
    by (simp add: main_def andthen_apply [where m = "ret False"] ERROR_ACCESS_DENIED_def looks_like_scm_launch_def)
qed

definition denying_scm :: "unit scm" where
  "denying_scm = (let deny = raise_exc (WinError 5 ''Access is denied.'')
     in \<lparr>scm_query = (\<lambda>_. Inr 4), scm_install = deny, scm_remove = deny, scm_start = deny, scm_stop = deny,
         scm_restart = deny, scm_sc = (\<lambda>_. deny)\<rparr>)"

definition sample_outside :: "unit scm \<Rightarrow> unit outside" where
  "sample_outside M = \<lparr>os_env = sample_cli_env, os_module = windows_service M, os_version = ''1'',
     os_hostname = Inr ''h'', os_name = ''o'', os_pair_reply = (\<lambda>_ _. sample_reply), os_run_end = RunReturns, os_status_file = Missing, os_log = None,
     os_backend = Inl IndexError, os_discover = (\<lambda>_. Inr []), os_print = (\<lambda>_ _ _ _. None)\<rparr>"

theorem access_denied_explained_witness:
  "main (sample_outside denying_scm) (Some [''uninstall'']) True [''x''] None (sample_cli\<lparr>cl_platform := Win32\<rparr>) =
     (sample_cli\<lparr>cl_platform := Win32, cl_err := [access_denied_text ''uninstall'']\<rparr>, Inr 1)"
proof -
  let ?s = "sample_cli\<lparr>cl_platform := Win32\<rparr>"
  have "main (sample_outside denying_scm) (Some [''uninstall'']) True [''x''] None ?s =
      (?s\<lparr>cl_err := cl_err ?s @ [access_denied_text (command_name CUninstall)]\<rparr>, Inr 1)"
    by (rule access_denied_explained [where M = denying_scm and msg = "''Access is denied.''"])
      (use parse_rendered [of CUninstall] in \<open>auto simp: denying_scm_def Let_def sample_outside_def render_def\<close>)
  then show ?thesis by (simp add: sample_cli_def)
qed


text \<open>
  An accepted command line runs its command and nothing else: what the process does is the command's
  definition, but for the explanation that a refused service command gets.
\<close>

theorem command_line_runs:
  assumes "run_command o1 c s = (t, Inr n)"
  shows "main o1 (Some (render c)) frozen sys_argv dispatcher s = (t, Inr n)"
  using assms parse_rendered [of c]
  by (simp add: main_def andthen_apply [where m = "ret False"] looks_like_scm_launch_def)

theorem command_line_runs_witness:
  "main (sample_outside denying_scm) (Some [''version'']) True [''x''] None sample_cli =
     (sample_cli\<lparr>cl_out := [''eres-print-agent 1'']\<rparr>, Inr 0)"
proof -
  have "run_command (sample_outside denying_scm) CVersion sample_cli =
      (sample_cli\<lparr>cl_out := [''eres-print-agent 1'']\<rparr>, Inr 0)"
    by (simp add: cmd_version_def sample_outside_def sample_cli_def)
  from command_line_runs [OF this] show ?thesis by (simp add: render_def)
qed

end
